(* ===== verification/Prelude.thy ===== *)
theory Prelude
  imports Main
begin

text \<open>
  The vocabulary shared by every theory of the development: Go error values, the
  collections of rewrite rules that the components add to, and the functions of Go's
  \<^verbatim>\<open>strings\<close>, \<^verbatim>\<open>unicode/utf8\<close> and \<^verbatim>\<open>strconv\<close> packages that the source calls.

  A Go string is a sequence of bytes, and an Isabelle \<^typ>\<open>string\<close> is a list of 8-bit
  characters, so strings are modelled as they are.  Functions that read code points
  (\<^verbatim>\<open>TrimSpace\<close>, \<^verbatim>\<open>Fields\<close>, \<^verbatim>\<open>ToUpper\<close>, \<^verbatim>\<open>EqualFold\<close>) decode UTF-8 the way Go does.
  Case mapping covers the ASCII letters and the code points outside ASCII whose case
  partner is an ASCII letter; other letters are left as they are.  The result is exact
  whenever one of the two compared strings is ASCII, as the fixed keywords, HTTP
  methods and JSON field names of the source are.
\<close>

section \<open>Collections of rewrite rules\<close>

named_theorems go_string_simps \<open>evaluation rules of the string functions on ASCII input\<close>
named_theorems http_simps \<open>rules for headers, requests and responses\<close>
named_theorems cache_simps \<open>rules for the token caches\<close>

section \<open>Go errors\<close>

text \<open>
  \<^verbatim>\<open>errors.New\<close> makes a sentinel that is compared by identity; \<^verbatim>\<open>fmt.Errorf\<close> makes a
  fresh error, and with \<^verbatim>\<open>%w\<close> one that wraps another.
\<close>

datatype error =
    ErrNew string
  | Errorf string
  | Wrapf string error

type_synonym 'a result = "error + 'a"

fun error_text :: "error \<Rightarrow> string" where
  "error_text (ErrNew s) = s"
| "error_text (Errorf s) = s"
| "error_text (Wrapf s e) = s @ error_text e"

fun errors_Is :: "error \<Rightarrow> error \<Rightarrow> bool" where
  "errors_Is (ErrNew s) t = (ErrNew s = t)"
| "errors_Is (Errorf s) t = False"
| "errors_Is (Wrapf s e) t = errors_Is e t"

definition is_ok :: "'a result \<Rightarrow> bool" where
  "is_ok r = (case r of Inl _ \<Rightarrow> False | Inr _ \<Rightarrow> True)"

lemma is_ok_simps [simp]: "is_ok (Inr x)" "\<not> is_ok (Inl e)"
  by (simp_all add: is_ok_def)

lemma is_ok_iff: "is_ok r \<longleftrightarrow> (\<exists>x. r = Inr x)"
  by (cases r) auto

section \<open>Substrings, splitting and trimming (package strings)\<close>

definition HasPrefix :: "string \<Rightarrow> string \<Rightarrow> bool" where
  "HasPrefix s p = (take (length p) s = p)"

definition HasSuffix :: "string \<Rightarrow> string \<Rightarrow> bool" where
  "HasSuffix s p = HasPrefix (rev s) (rev p)"

definition TrimPrefix :: "string \<Rightarrow> string \<Rightarrow> string" where
  "TrimPrefix s p = (if HasPrefix s p then drop (length p) s else s)"

definition TrimSuffix :: "string \<Rightarrow> string \<Rightarrow> string" where
  "TrimSuffix s p = (if HasSuffix s p then take (length s - length p) s else s)"

fun Index :: "string \<Rightarrow> string \<Rightarrow> nat option" where
  "Index [] sub = (if sub = [] then Some 0 else None)"
| "Index (c # s) sub =
     (if HasPrefix (c # s) sub then Some 0 else map_option Suc (Index s sub))"

definition Contains :: "string \<Rightarrow> string \<Rightarrow> bool" where
  "Contains s sub = (Index s sub \<noteq> None)"

text \<open>\<^verbatim>\<open>strings.SplitN(s, sep, 2)\<close> for a non-empty separator.\<close>

definition SplitN2 :: "string \<Rightarrow> string \<Rightarrow> string list" where
  "SplitN2 s sep = (case Index s sep of None \<Rightarrow> [s]
     | Some i \<Rightarrow> [take i s, drop (i + length sep) s])"

text \<open>\<^verbatim>\<open>strings.Split(s, sep)\<close> for a separator of one character.\<close>

fun Split :: "string \<Rightarrow> char \<Rightarrow> string list" where
  "Split [] sep = [[]]"
| "Split (c # s) sep =
     (if c = sep then [] # Split s sep
      else (case Split s sep of [] \<Rightarrow> [[c]] | w # ws \<Rightarrow> (c # w) # ws))"

fun Join :: "string list \<Rightarrow> string \<Rightarrow> string" where
  "Join [] sep = []"
| "Join [w] sep = w"
| "Join (w # ws) sep = w @ sep @ Join ws sep"

text \<open>\<^verbatim>\<open>strings.TrimRight\<close> and \<^verbatim>\<open>strings.Trim\<close> with a cutset of one ASCII character.\<close>

definition TrimRight :: "string \<Rightarrow> char \<Rightarrow> string" where
  "TrimRight s c = rev (dropWhile (\<lambda>x. x = c) (rev s))"

definition Trim :: "string \<Rightarrow> char \<Rightarrow> string" where
  "Trim s c = TrimRight (dropWhile (\<lambda>x. x = c) s) c"

text \<open>\<^verbatim>\<open>strings.IndexByte\<close> and \<^verbatim>\<open>strings.LastIndexByte\<close>.\<close>

fun IndexByte :: "string \<Rightarrow> char \<Rightarrow> nat option" where
  "IndexByte [] c = None"
| "IndexByte (x # s) c = (if x = c then Some 0 else map_option Suc (IndexByte s c))"

definition LastIndexByte :: "string \<Rightarrow> char \<Rightarrow> nat option" where
  "LastIndexByte s c = map_option (\<lambda>i. length s - Suc i) (IndexByte (rev s) c)"

text \<open>The membership loop \<^verbatim>\<open>for _, s := range slice\<close> of the source's \<^verbatim>\<open>containsString\<close>.\<close>

fun containsString :: "string list \<Rightarrow> string \<Rightarrow> bool" where
  "containsString [] v = False"
| "containsString (s # ss) v = (if s = v then True else containsString ss v)"

lemma containsString_iff [simp]: "containsString ss v \<longleftrightarrow> v \<in> set ss"
  by (induction ss) auto

subsection \<open>Laws of the substring functions\<close>

lemma HasPrefix_iff: "HasPrefix s p \<longleftrightarrow> (\<exists>t. s = p @ t)"
  by (auto simp: HasPrefix_def) (metis append_take_drop_id)

lemma HasPrefix_simps [simp]:
  "HasPrefix s []" "\<not> HasPrefix [] (c # p)" "HasPrefix (x # s) (c # p) \<longleftrightarrow> x = c \<and> HasPrefix s p"
  by (auto simp: HasPrefix_def)

lemma HasPrefix_append [simp]: "HasPrefix (p @ t) p"
  by (simp add: HasPrefix_def)

lemma HasSuffix_iff: "HasSuffix s p \<longleftrightarrow> (\<exists>t. s = t @ p)"
  unfolding HasSuffix_def HasPrefix_iff by (metis rev_append rev_rev_ident)

lemma TrimPrefix_append [simp]: "TrimPrefix (p @ t) p = t"
  by (simp add: TrimPrefix_def)

lemma TrimSuffix_append [simp]: "TrimSuffix (t @ p) p = t"
  by (auto simp: TrimSuffix_def HasSuffix_iff)

lemma Index_NoneD: "Index s sub = None \<Longrightarrow> s \<noteq> a @ sub @ b"
proof (induction s arbitrary: a)
  case Nil
  then show ?case by (auto split: if_splits)
next
  case (Cons c s)
  then have "\<not> HasPrefix (c # s) sub" and none: "Index s sub = None"
    by (auto split: if_splits)
  then have "a \<noteq> [] \<or> c # s \<noteq> a @ sub @ b"
    by (auto simp: HasPrefix_iff)
  with Cons.IH [OF none] show ?case by (cases a) auto
qed

lemma Index_SomeD: "Index s sub = Some i \<Longrightarrow> \<exists>b. s = take i s @ sub @ b \<and> i \<le> length s"
proof (induction s arbitrary: i)
  case Nil
  then show ?case by (auto split: if_splits)
next
  case (Cons c s)
  show ?case
  proof (cases "HasPrefix (c # s) sub")
    case True
    with Cons.prems show ?thesis by (auto simp: HasPrefix_iff)
  next
    case False
    with Cons.prems obtain j where "Index s sub = Some j" and "i = Suc j" by auto
    with Cons.IH [of j] show ?thesis by auto
  qed
qed

lemma Contains_iff: "Contains s sub \<longleftrightarrow> (\<exists>a b. s = a @ sub @ b)"
  unfolding Contains_def using Index_NoneD Index_SomeD by (metis option.exhaust)

lemma Index_append_sep:
  "c \<notin> set a \<Longrightarrow> Index (a @ c # b) [c] = Some (length a)"
  by (induction a) auto

lemma Index_sep_None: "c \<notin> set s \<Longrightarrow> Index s [c] = None"
  by (induction s) auto

lemma SplitN2_sep: "c \<notin> set a \<Longrightarrow> SplitN2 (a @ c # b) [c] = [a, b]"
  by (simp add: SplitN2_def Index_append_sep)

lemma SplitN2_none: "c \<notin> set s \<Longrightarrow> SplitN2 s [c] = [s]"
  by (simp add: SplitN2_def Index_sep_None)

lemma Split_nonempty [simp]: "Split s c \<noteq> []"
  by (induction s) (auto split: list.splits)

lemma Split_none: "c \<notin> set s \<Longrightarrow> Split s c = [s]"
  by (induction s) auto

lemma Split_append: "c \<notin> set a \<Longrightarrow> Split (a @ c # b) c = a # Split b c"
  by (induction a) (auto split: list.splits)

lemma Split_no_sep: "w \<in> set (Split s c) \<Longrightarrow> c \<notin> set w"
proof (induction s arbitrary: w)
  case Nil
  then show ?case by simp
next
  case (Cons x s)
  obtain v vs where v: "Split s c = v # vs" by (meson Split_nonempty list.exhaust)
  with Cons.IH have "c \<notin> set v" "\<And>u. u \<in> set vs \<Longrightarrow> c \<notin> set u" by auto
  with Cons.prems v show ?case by (auto split: if_splits)
qed

lemma Join_Split: "Join (Split s c) [c] = s"
proof (induction s)
  case Nil
  then show ?case by simp
next
  case (Cons x s)
  obtain w ws where "Split s c = w # ws" by (meson Split_nonempty list.exhaust)
  with Cons.IH show ?case by (cases ws) auto
qed

lemma Split_Join:
  assumes "ws \<noteq> []" and "\<And>w. w \<in> set ws \<Longrightarrow> c \<notin> set w"
  shows "Split (Join ws [c]) c = ws"
  using assms
proof (induction ws)
  case (Cons w ws)
  then show ?case
    by (cases ws) (auto simp: Split_none Split_append)
qed simp

lemma TrimRight_idem [simp]: "TrimRight (TrimRight s c) c = TrimRight s c"
proof -
  have "dropWhile P (dropWhile P xs) = dropWhile P xs" for P and xs :: string
    by (metis dropWhile_eq_self_iff hd_dropWhile)
  then show ?thesis by (simp add: TrimRight_def)
qed

lemma TrimRight_id: "s = [] \<or> last s \<noteq> c \<Longrightarrow> TrimRight s c = s"
  by (cases s rule: rev_cases) (auto simp: TrimRight_def)

lemma TrimRight_last: "TrimRight s c \<noteq> [] \<Longrightarrow> last (TrimRight s c) \<noteq> c"
  by (metis (mono_tags, lifting) TrimRight_def hd_dropWhile last_rev rev_is_Nil_conv)

lemma TrimRight_snoc [simp]: "TrimRight (s @ [c]) c = TrimRight s c"
  by (simp add: TrimRight_def)

lemma TrimRight_eq: "\<exists>k. s = TrimRight s c @ replicate k c"
proof (induction s rule: rev_induct)
  case Nil
  then show ?case by (simp add: TrimRight_def)
next
  case (snoc x s)
  show ?case
  proof (cases "x = c")
    case True
    with snoc obtain k where "s = TrimRight s c @ replicate k c" by blast
    then have "s @ [x] = TrimRight s c @ replicate (Suc k) c"
      using True by (metis append_assoc replicate_append_same replicate_Suc)
    with True show ?thesis by (metis TrimRight_snoc)
  next
    case False
    then have "TrimRight (s @ [x]) c = s @ [x]" by (intro TrimRight_id) simp
    then show ?thesis by (metis append_Nil2 replicate_0)
  qed
qed

lemma IndexByte_None_iff [simp]: "IndexByte s c = None \<longleftrightarrow> c \<notin> set s"
  by (induction s) auto

lemma IndexByte_SomeD:
  "IndexByte s c = Some i \<Longrightarrow> i < length s \<and> s = take i s @ c # drop (Suc i) s \<and> c \<notin> set (take i s)"
  by (induction s arbitrary: i) (auto split: if_splits)

lemma IndexByte_append: "c \<notin> set a \<Longrightarrow> IndexByte (a @ c # b) c = Some (length a)"
  by (induction a) auto

lemma LastIndexByte_append: "c \<notin> set b \<Longrightarrow> LastIndexByte (a @ c # b) c = Some (length a)"
  using IndexByte_append [of c "rev b" "rev a"] by (simp add: LastIndexByte_def)

lemma LastIndexByte_None: "LastIndexByte s c = None \<longleftrightarrow> c \<notin> set s"
  by (simp add: LastIndexByte_def)

end
