(* ===== verification/Go_Text.thy ===== *)
theory Go_Text
  imports Prelude
begin

text \<open>
  Text functions that read code points: UTF-8 decoding as \<^verbatim>\<open>utf8.DecodeRuneInString\<close>
  does it, and on top of it \<^verbatim>\<open>TrimSpace\<close>, \<^verbatim>\<open>Fields\<close>, \<^verbatim>\<open>ToUpper\<close>, \<^verbatim>\<open>ToLower\<close> and
  \<^verbatim>\<open>EqualFold\<close>; then the decimal verb \<^verbatim>\<open>%d\<close> (printing and \<^verbatim>\<open>Sscanf\<close>), the quoting
  verb \<^verbatim>\<open>%q\<close>, and their laws on ASCII text.
\<close>

section \<open>UTF-8\<close>

abbreviation byte_of :: "char \<Rightarrow> nat" where
  "byte_of c \<equiv> of_char c"

definition is_ascii :: "char \<Rightarrow> bool" where
  "is_ascii c = (byte_of c < 128)"

definition ascii :: "string \<Rightarrow> bool" where
  "ascii s = list_all is_ascii s"

definition between :: "nat \<Rightarrow> nat \<Rightarrow> nat \<Rightarrow> bool" where
  "between lo hi b = (lo \<le> b \<and> b \<le> hi)"

abbreviation rune_error :: nat where
  "rune_error \<equiv> 65533"

text \<open>The first code point of a string and its width in bytes; an invalid byte is
  \<^term>\<open>rune_error\<close> with width 1, the empty string \<^term>\<open>rune_error\<close> with width 0.\<close>

definition decode2 :: "nat \<Rightarrow> nat list \<Rightarrow> (nat \<times> nat) option" where
  "decode2 b0 bs = (case bs of b1 # _ \<Rightarrow>
     if between 194 223 b0 \<and> between 128 191 b1
     then Some ((b0 - 192) * 64 + (b1 - 128), 2) else None
   | [] \<Rightarrow> None)"

definition decode3 :: "nat \<Rightarrow> nat list \<Rightarrow> (nat \<times> nat) option" where
  "decode3 b0 bs = (case bs of b1 # b2 # _ \<Rightarrow>
     if between 224 239 b0
        \<and> between (if b0 = 224 then 160 else 128) (if b0 = 237 then 159 else 191) b1
        \<and> between 128 191 b2
     then Some ((b0 - 224) * 4096 + (b1 - 128) * 64 + (b2 - 128), 3) else None
   | _ \<Rightarrow> None)"

definition decode4 :: "nat \<Rightarrow> nat list \<Rightarrow> (nat \<times> nat) option" where
  "decode4 b0 bs = (case bs of b1 # b2 # b3 # _ \<Rightarrow>
     if between 240 244 b0
        \<and> between (if b0 = 240 then 144 else 128) (if b0 = 244 then 143 else 191) b1
        \<and> between 128 191 b2 \<and> between 128 191 b3
     then Some ((b0 - 240) * 262144 + (b1 - 128) * 4096 + (b2 - 128) * 64 + (b3 - 128), 4)
     else None
   | _ \<Rightarrow> None)"

definition DecodeRune :: "string \<Rightarrow> nat \<times> nat" where
  "DecodeRune s = (case s of [] \<Rightarrow> (rune_error, 0)
   | c # cs \<Rightarrow>
      (let b0 = byte_of c; bs = map byte_of (take 3 cs) in
       if b0 < 128 then (b0, 1)
       else (case decode2 b0 bs of Some r \<Rightarrow> r
       | None \<Rightarrow> (case decode3 b0 bs of Some r \<Rightarrow> r
       | None \<Rightarrow> (case decode4 b0 bs of Some r \<Rightarrow> r
       | None \<Rightarrow> (rune_error, 1))))))"

lemma DecodeRune_width: "s \<noteq> [] \<Longrightarrow> 1 \<le> snd (DecodeRune s)"
  by (auto simp: DecodeRune_def Let_def decode2_def decode3_def decode4_def
      split: list.splits option.splits if_splits)

text \<open>\<^verbatim>\<open>for _, r := range s\<close>: the code points with the bytes each is decoded from.\<close>

function runes :: "string \<Rightarrow> (nat \<times> string) list" where
  "runes s = (if s = [] then []
     else let (r, n) = DecodeRune s in (r, take n s) # runes (drop n s))"
  by pat_completeness auto
termination
proof (relation "measure length")
  fix s :: string and x r n
  assume "s \<noteq> []" and "x = DecodeRune s" and "(r, n) = x"
  then have "1 \<le> n" using DecodeRune_width [of s] by (metis snd_conv)
  with \<open>s \<noteq> []\<close> show "(drop n s, s) \<in> measure length" by simp
qed simp

declare runes.simps [simp del]

lemma runes_Nil [simp]: "runes [] = []"
  by (simp add: runes.simps)

lemma runes_ascii_Cons: "is_ascii c \<Longrightarrow> runes (c # s) = (byte_of c, [c]) # runes s"
  by (subst runes.simps) (simp add: DecodeRune_def is_ascii_def)

lemma ascii_Cons [simp]: "ascii (c # s) \<longleftrightarrow> is_ascii c \<and> ascii s"
  by (simp add: ascii_def)

lemma ascii_Nil [simp]: "ascii []"
  by (simp add: ascii_def)

lemma ascii_append [simp]: "ascii (s @ t) \<longleftrightarrow> ascii s \<and> ascii t"
  by (simp add: ascii_def)

lemma ascii_iff: "ascii s \<longleftrightarrow> (\<forall>c \<in> set s. is_ascii c)"
  by (simp add: ascii_def list_all_iff)

lemma runes_ascii: "ascii s \<Longrightarrow> runes s = map (\<lambda>c. (byte_of c, [c])) s"
  by (induction s) (auto simp: runes_ascii_Cons)

lemma concat_runes: "concat (map snd (runes s)) = s"
proof (induction s rule: runes.induct)
  case (1 s)
  show ?case
  proof (cases "s = []")
    case False
    obtain r n where rn: "DecodeRune s = (r, n)" by force
    with 1 False have "concat (map snd (runes (drop n s))) = drop n s" by simp
    with False rn show ?thesis by (subst runes.simps) simp
  qed simp
qed

text \<open>A byte outside ASCII never decodes to an ASCII code point.\<close>

lemma DecodeRune_high:
  assumes "\<not> is_ascii c"
  shows "128 \<le> fst (DecodeRune (c # s))"
proof -
  have d2: "decode2 b bs = Some rn \<Longrightarrow> 128 \<le> fst rn" for b bs rn
    by (auto simp: decode2_def between_def split: list.splits if_splits)
  have d3: "decode3 b bs = Some rn \<Longrightarrow> 128 \<le> fst rn" for b bs rn
    by (auto simp: decode3_def between_def split: list.splits if_splits)
  have d4: "decode4 b bs = Some rn \<Longrightarrow> 128 \<le> fst rn" for b bs rn
    by (auto simp: decode4_def between_def split: list.splits if_splits)
  from assms show ?thesis
    by (auto simp: DecodeRune_def is_ascii_def Let_def split: option.splits dest: d2 d3 d4)
qed

lemma runes_all_ascii: "\<forall>rb \<in> set (runes s). fst rb < 128 \<Longrightarrow> ascii s"
proof (induction s)
  case (Cons c s)
  have "is_ascii c"
  proof (rule ccontr)
    assume "\<not> is_ascii c"
    moreover obtain r n where rn: "DecodeRune (c # s) = (r, n)" by force
    then have "runes (c # s) = (r, take n (c # s)) # runes (drop n (c # s))" by (subst runes.simps) simp
    ultimately show False using Cons.prems DecodeRune_high [of c s] rn by simp
  qed
  with Cons show ?case by (simp add: runes_ascii_Cons)
qed simp

section \<open>White space\<close>

definition IsSpace :: "nat \<Rightarrow> bool" where
  "IsSpace r = (between 9 13 r \<or> r = 32 \<or> r = 133 \<or> r = 160 \<or> r = 5760
     \<or> between 8192 8202 r \<or> r = 8232 \<or> r = 8233 \<or> r = 8239 \<or> r = 8287 \<or> r = 12288)"

definition trim_runes :: "(nat \<times> string) list \<Rightarrow> (nat \<times> string) list" where
  "trim_runes rs = rev (dropWhile (IsSpace \<circ> fst) (rev (dropWhile (IsSpace \<circ> fst) rs)))"

definition TrimSpace :: "string \<Rightarrow> string" where
  "TrimSpace s = concat (map snd (trim_runes (runes s)))"

fun field_groups :: "(nat \<times> string) list \<Rightarrow> string \<Rightarrow> string list" where
  "field_groups [] w = (if w = [] then [] else [w])"
| "field_groups ((r, b) # rs) w =
     (if IsSpace r then (if w = [] then field_groups rs [] else w # field_groups rs [])
      else field_groups rs (w @ b))"

definition Fields :: "string \<Rightarrow> string list" where
  "Fields s = field_groups (runes s) []"

definition space_char :: "char \<Rightarrow> bool" where
  "space_char c = IsSpace (byte_of c)"

lemma TrimSpace_ascii:
  "ascii s \<Longrightarrow> TrimSpace s = rev (dropWhile space_char (rev (dropWhile space_char s)))"
  by (simp add: TrimSpace_def trim_runes_def runes_ascii dropWhile_map rev_map
      map_concat comp_def space_char_def [abs_def])

lemma TrimSpace_id:
  assumes "ascii s" and "s = [] \<or> \<not> space_char (hd s) \<and> \<not> space_char (last s)"
  shows "TrimSpace s = s"
proof (cases "s = []")
  case False
  with assms have "dropWhile space_char s = s" "dropWhile space_char (rev s) = rev s"
    by (auto simp: dropWhile_eq_self_iff hd_rev)
  with assms(1) show ?thesis by (simp add: TrimSpace_ascii)
qed (simp add: TrimSpace_def trim_runes_def)

lemma TrimSpace_lead:
  assumes "ascii s" and "space_char c" and "is_ascii c"
  shows "TrimSpace (c # s) = TrimSpace s"
  using assms by (simp add: TrimSpace_ascii)

lemma field_groups_runes:
  assumes "\<forall>r \<in> set rs. \<not> IsSpace (fst r)"
  shows "field_groups (rs @ rest) w = field_groups rest (w @ concat (map snd rs))"
  using assms by (induction rs arbitrary: w) auto

lemma Fields_nonempty: "w \<in> set (Fields s) \<Longrightarrow> w \<noteq> []"
proof -
  have "\<lbrakk>\<forall>r \<in> set rs. snd r \<noteq> []; w \<in> set (field_groups rs v)\<rbrakk> \<Longrightarrow> w \<noteq> []" for rs v
    by (induction rs v rule: field_groups.induct) (auto split: if_splits)
  moreover have "\<forall>r \<in> set (runes s). snd r \<noteq> []"
  proof (induction s rule: runes.induct)
    case (1 s)
    obtain r n where rn: "DecodeRune s = (r, n)" by force
    show ?case
    proof (cases "s = []")
      case False
      then have "1 \<le> n" using rn DecodeRune_width [of s] by simp
      with 1 False rn show ?thesis by (subst runes.simps) auto
    qed simp
  qed
  ultimately show "w \<in> set (Fields s) \<Longrightarrow> w \<noteq> []" by (simp add: Fields_def)
qed

lemma Fields_Join:
  assumes "\<And>w. w \<in> set ws \<Longrightarrow> w \<noteq> [] \<and> ascii w \<and> (\<forall>c \<in> set w. \<not> space_char c)"
  shows "Fields (Join ws '' '') = ws"
proof -
  have step: "field_groups (runes (w @ rest)) [] = field_groups (runes rest) w"
    if "ascii w" "ascii rest" "\<forall>c \<in> set w. \<not> space_char c" for w rest
  proof -
    have "\<forall>r \<in> set (runes w). \<not> IsSpace (fst r)"
      using that by (auto simp: runes_ascii space_char_def)
    from field_groups_runes [OF this, of "runes rest" "[]"]
    show ?thesis using that by (simp add: runes_ascii comp_def)
  qed
  have sp: "is_ascii CHR '' ''" "IsSpace 32" by (simp_all add: is_ascii_def IsSpace_def)
  have asc: "\<forall>w \<in> set ws. ascii w \<Longrightarrow> ascii (Join ws '' '')" for ws
    by (induction ws "'' ''" rule: Join.induct) (auto simp: sp)
  from assms have "field_groups (runes (Join ws '' '')) [] = ws"
  proof (induction ws "'' ''" rule: Join.induct)
    case (2 w)
    then show ?case using step [of w "[]"] by simp
  next
    case (3 w v vs)
    have w: "ascii w" "w \<noteq> []" "\<forall>c \<in> set w. \<not> space_char c"
      using 3(2) [of w] by simp_all
    have vs: "ascii (Join (v # vs) '' '')" using 3(2) by (intro asc) simp
    have IH: "field_groups (runes (Join (v # vs) '' '')) [] = v # vs"
      by (rule 3(1)) (rule 3(2), simp)
    have "field_groups (runes (w @ CHR '' '' # Join (v # vs) '' '')) []
        = field_groups (runes (CHR '' '' # Join (v # vs) '' '')) w"
      using w vs by (intro step) (auto simp: sp)
    also have "\<dots> = w # v # vs" using w IH by (simp add: sp runes_ascii_Cons)
    finally show ?case by simp
  qed simp
  then show ?thesis by (simp add: Fields_def)
qed

section \<open>Case mapping\<close>

text \<open>The code points whose upper case, lower case or simple folding is an ASCII letter
  are the ASCII letters, U+0131, U+017F (upper), U+0130, U+212A (lower) and
  U+017F, U+212A (folding).\<close>

definition upper_rune :: "nat \<Rightarrow> nat" where
  "upper_rune r = (if between 97 122 r then r - 32 else if r = 305 then 73
     else if r = 383 then 83 else r)"

definition lower_rune :: "nat \<Rightarrow> nat" where
  "lower_rune r = (if between 65 90 r then r + 32 else if r = 304 then 105
     else if r = 8490 then 107 else r)"

definition fold_rune :: "nat \<Rightarrow> nat" where
  "fold_rune r = (if between 65 90 r then r + 32 else if r = 383 then 115
     else if r = 8490 then 107 else r)"

definition remap :: "(nat \<Rightarrow> nat) \<Rightarrow> nat \<times> string \<Rightarrow> string" where
  "remap f rb = (case rb of (r, b) \<Rightarrow>
     if f r < 128 then [char_of (f r)]
     else if r = rune_error \<and> length b = 1 then map char_of [239, 191, 189 :: nat]
     else b)"

definition ToUpper :: "string \<Rightarrow> string" where
  "ToUpper s = concat (map (remap upper_rune) (runes s))"

definition ToLower :: "string \<Rightarrow> string" where
  "ToLower s = concat (map (remap lower_rune) (runes s))"

definition EqualFold :: "string \<Rightarrow> string \<Rightarrow> bool" where
  "EqualFold s t = (map (fold_rune \<circ> fst) (runes s) = map (fold_rune \<circ> fst) (runes t))"

lemma EqualFold_refl [simp]: "EqualFold s s"
  by (simp add: EqualFold_def)

lemma EqualFold_sym: "EqualFold s t \<longleftrightarrow> EqualFold t s"
  by (auto simp: EqualFold_def)

lemma EqualFold_trans: "EqualFold s t \<Longrightarrow> EqualFold t u \<Longrightarrow> EqualFold s u"
  by (simp add: EqualFold_def)

definition lower_char :: "char \<Rightarrow> char" where
  "lower_char c = char_of (lower_rune (byte_of c))"

definition upper_char :: "char \<Rightarrow> char" where
  "upper_char c = char_of (upper_rune (byte_of c))"

lemma lower_rune_ascii: "r < 128 \<Longrightarrow> lower_rune r < 128"
  by (auto simp: lower_rune_def between_def)

lemma upper_rune_ascii: "r < 128 \<Longrightarrow> upper_rune r < 128"
  by (auto simp: upper_rune_def between_def)

lemma ToLower_ascii: "ascii s \<Longrightarrow> ToLower s = map lower_char s"
  by (induction s)
     (auto simp: ToLower_def runes_ascii_Cons remap_def lower_char_def is_ascii_def
       dest: lower_rune_ascii)

lemma ToUpper_ascii: "ascii s \<Longrightarrow> ToUpper s = map upper_char s"
  by (induction s)
     (auto simp: ToUpper_def runes_ascii_Cons remap_def upper_char_def is_ascii_def
       dest: upper_rune_ascii)

lemma EqualFold_ascii:
  "ascii s \<Longrightarrow> ascii t \<Longrightarrow> EqualFold s t \<longleftrightarrow> map (fold_rune \<circ> of_char) s = map (fold_rune \<circ> of_char) t"
  by (simp add: EqualFold_def runes_ascii comp_def)

text \<open>Rules that decide folding of literal ASCII names.\<close>

lemmas fold_simps = EqualFold_ascii is_ascii_def fold_rune_def between_def

section \<open>Decimal numbers\<close>

definition digit_char :: "nat \<Rightarrow> char" where
  "digit_char d = char_of (48 + d)"

fun show_nat :: "nat \<Rightarrow> string" where
  "show_nat n = (if n < 10 then [digit_char n] else show_nat (n div 10) @ [digit_char (n mod 10)])"

declare show_nat.simps [simp del]

text \<open>The verb \<^verbatim>\<open>%d\<close>.\<close>

definition show_int :: "int \<Rightarrow> string" where
  "show_int i = (if i < 0 then CHR ''-'' # show_nat (nat (- i)) else show_nat (nat i))"

definition is_digit :: "char \<Rightarrow> bool" where
  "is_digit c = between 48 57 (byte_of c)"

fun read_digits :: "nat \<Rightarrow> string \<Rightarrow> nat" where
  "read_digits a [] = a"
| "read_digits a (c # s) = read_digits (10 * a + (byte_of c - 48)) s"

lemma is_digit_digit_char: "d < 10 \<Longrightarrow> is_digit (digit_char d) \<and> byte_of (digit_char d) = 48 + d"
  by (simp add: is_digit_def digit_char_def between_def)

lemma show_nat_digits: "\<forall>c \<in> set (show_nat n). is_digit c"
proof (induction n rule: show_nat.induct)
  case (1 n)
  then show ?case
    using is_digit_digit_char [of n] is_digit_digit_char [of "n mod 10"]
    by (subst show_nat.simps) auto
qed

lemma show_nat_nonempty [simp]: "show_nat n \<noteq> []"
  by (subst show_nat.simps) simp

lemma read_digits_append: "read_digits a (s @ t) = read_digits (read_digits a s) t"
  by (induction s arbitrary: a) auto

lemma read_show_nat: "read_digits 0 (show_nat n) = n"
proof (induction n rule: show_nat.induct)
  case (1 n)
  show ?case
  proof (cases "n < 10")
    case True
    then show ?thesis using is_digit_digit_char [of n] by (subst show_nat.simps) simp
  next
    case False
    with 1 have "read_digits 0 (show_nat (n div 10)) = n div 10" by simp
    moreover have "byte_of (digit_char (n mod 10)) = 48 + n mod 10"
      using is_digit_digit_char by simp
    ultimately show ?thesis
      using False by (subst show_nat.simps) (simp add: read_digits_append)
  qed
qed

lemma digit_ascii: "is_digit c \<Longrightarrow> is_ascii c \<and> \<not> space_char c"
  by (auto simp: is_digit_def is_ascii_def space_char_def IsSpace_def between_def)

lemma show_nat_ascii: "ascii (show_nat n)"
  using show_nat_digits [of n] by (auto simp: ascii_iff dest: digit_ascii)

subsection \<open>\<^verbatim>\<open>fmt.Sscanf(val, "%d", &i)\<close>\<close>

text \<open>Blanks are skipped (a line feed is an error unless a carriage return precedes it),
  then an optional sign and at least one digit are read; the value must fit in 64 bits.
  On an error the destination keeps its value.\<close>

fun scan_blanks :: "string \<Rightarrow> string option" where
  "scan_blanks [] = Some []"
| "scan_blanks (c # s) =
     (if byte_of c = 13 \<and> HasPrefix s [char_of (10::nat)] then scan_blanks s
      else if byte_of c = 10 then None
      else if space_char c then scan_blanks s
      else Some (c # s))"

definition scan_number :: "string \<Rightarrow> int option" where
  "scan_number s =
     (let (neg, t) = (case s of [] \<Rightarrow> (False, [])
            | c # cs \<Rightarrow> if c = CHR ''-'' then (True, cs)
                        else if c = CHR ''+'' then (False, cs) else (False, c # cs));
          ds = takeWhile is_digit t;
          v = (if neg then - int (read_digits 0 ds) else int (read_digits 0 ds))
      in if ds = [] \<or> v < - (2 ^ 63) \<or> 2 ^ 63 \<le> v then None else Some v)"

definition Sscanf_d :: "string \<Rightarrow> int \<Rightarrow> int" where
  "Sscanf_d s old = (case scan_blanks s of None \<Rightarrow> old
     | Some t \<Rightarrow> (case scan_number t of None \<Rightarrow> old | Some v \<Rightarrow> v))"

lemma Sscanf_show_nat:
  assumes "int n < 2 ^ 63"
  shows "Sscanf_d (show_nat n) old = int n"
proof -
  obtain c s where cs: "show_nat n = c # s" by (meson show_nat_nonempty list.exhaust)
  have dig: "\<forall>d \<in> set (c # s). is_digit d" using show_nat_digits [of n] cs by simp
  then have c: "is_digit c" by simp
  then have nb: "byte_of c \<noteq> 13" "byte_of c \<noteq> 10" "c \<noteq> CHR ''-''" "c \<noteq> CHR ''+''" "\<not> space_char c"
    using digit_ascii by (auto simp: is_digit_def between_def)
  have tw: "takeWhile is_digit (c # s) = c # s" using dig by (simp add: takeWhile_eq_all_conv)
  have rd: "read_digits 0 (c # s) = n" using read_show_nat [of n] cs by simp
  have "scan_number (c # s) = Some (int n)"
    using nb assms by (simp add: scan_number_def tw rd Let_def del: takeWhile.simps read_digits.simps)
  with nb show ?thesis by (simp add: Sscanf_d_def cs)
qed

section \<open>Quoting\<close>

text \<open>The verb \<^verbatim>\<open>%q\<close> (\<^verbatim>\<open>strconv.Quote\<close>): printable characters as they are, the others
  escaped.  Code points outside ASCII count as printable.\<close>

definition hex_digit :: "nat \<Rightarrow> char" where
  "hex_digit d = (if d < 10 then char_of (48 + d) else char_of (87 + d))"

definition quote_rune :: "nat \<times> string \<Rightarrow> string" where
  "quote_rune rb = (case rb of (r, b) \<Rightarrow>
     if r = rune_error \<and> length b = 1
     then (CHR 0x5C # ''x'') @ [hex_digit (byte_of (hd b) div 16), hex_digit (byte_of (hd b) mod 16)]
     else if r = 34 then [CHR 0x5C, CHR 0x22]
     else if r = 92 then [CHR 0x5C, CHR 0x5C]
     else if 128 \<le> r \<or> between 32 126 r then b
     else if r = 7 then (CHR 0x5C # ''a'') else if r = 8 then (CHR 0x5C # ''b'') else if r = 12 then (CHR 0x5C # ''f'')
     else if r = 10 then (CHR 0x5C # ''n'') else if r = 13 then (CHR 0x5C # ''r'') else if r = 9 then (CHR 0x5C # ''t'')
     else if r = 11 then (CHR 0x5C # ''v'')
     else (CHR 0x5C # ''x'') @ [hex_digit (r div 16), hex_digit (r mod 16)])"

definition Quote :: "string \<Rightarrow> string" where
  "Quote s = CHR 0x22 # concat (map quote_rune (runes s)) @ [CHR 0x22]"

end
