(* ===== verification/Go_Path.thy ===== *)
theory Go_Path
  imports Go_Text
begin

text \<open>
  The function \<^verbatim>\<open>path.Match\<close> of Go's standard library, which the policy matcher calls
  for single-level wildcards: \<^verbatim>\<open>getEsc\<close>, \<^verbatim>\<open>matchChunk\<close>, \<^verbatim>\<open>scanChunk\<close> and the outer loop
  with its greedy choice of the leftmost match after a star.  The last section shows
  that on patterns of literals, \<^verbatim>\<open>?\<close> and \<^verbatim>\<open>*\<close> the greedy search agrees with a
  backtracking reference matcher.
\<close>

section \<open>The library function\<close>

definition ErrBadPattern :: error where
  "ErrBadPattern = ErrNew ''syntax error in pattern''"

abbreviation backslash :: char where
  "backslash \<equiv> CHR 0x5C"

definition getEsc :: "string \<Rightarrow> (nat \<times> string) result" where
  "getEsc chunk = (case chunk of [] \<Rightarrow> Inl ErrBadPattern
   | c # cs \<Rightarrow>
      if c = CHR ''-'' \<or> c = CHR '']'' then Inl ErrBadPattern
      else (let ch = (if c = backslash then cs else c # cs) in
        if ch = [] then Inl ErrBadPattern
        else (let (r, n) = DecodeRune ch; rest = drop n ch in
          if (r = rune_error \<and> n = 1) \<or> rest = [] then Inl ErrBadPattern
          else Inr (r, rest))))"

lemma getEsc_rest: "getEsc chunk = Inr (r, rest) \<Longrightarrow> length rest < length chunk \<and> rest \<noteq> []"
  using DecodeRune_width
  by (auto simp: getEsc_def Let_def split: list.splits if_splits prod.splits)
     (metis (no_types, lifting) Suc_le_eq diff_less length_greater_0_conv length_Cons
        list.discI snd_conv zero_less_Suc less_SucI diff_less_Suc)+

text \<open>The ranges of a character class; the flag says that one range has been read.\<close>

function class_ranges :: "nat \<Rightarrow> bool \<Rightarrow> bool \<Rightarrow> string \<Rightarrow> (bool \<times> string) result" where
  "class_ranges r m seen chunk =
     (if chunk \<noteq> [] \<and> hd chunk = CHR '']'' \<and> seen then Inr (m, tl chunk)
      else (case getEsc chunk of Inl e \<Rightarrow> Inl e
       | Inr (lo, c1) \<Rightarrow>
          if hd c1 = CHR ''-'' then
            (case getEsc (tl c1) of Inl e \<Rightarrow> Inl e
             | Inr (hi, c2) \<Rightarrow> class_ranges r (m \<or> lo \<le> r \<and> r \<le> hi) True c2)
          else class_ranges r (m \<or> lo \<le> r \<and> r \<le> lo) True c1))"
  by pat_completeness auto
termination
  by (relation "measure (\<lambda>(r, m, seen, chunk). length chunk)")
     (auto dest!: getEsc_rest)

declare class_ranges.simps [simp del]

lemma class_ranges_rest:
  "class_ranges r m seen chunk = Inr (m', rest) \<Longrightarrow> length rest < length chunk"
proof (induction r m seen chunk rule: class_ranges.induct)
  case (1 r m seen chunk)
  let ?stop = "chunk \<noteq> [] \<and> hd chunk = CHR '']'' \<and> seen"
  note unfold = class_ranges.simps [of r m seen chunk]
  show ?case
  proof (cases ?stop)
    case True
    with "1.prems" unfold show ?thesis by (cases chunk) auto
  next
    case False
    with "1.prems" unfold obtain lo c1 where g1: "getEsc chunk = Inr (lo, c1)"
      by (auto split: sum.splits)
    then have l1: "length c1 < length chunk" "c1 \<noteq> []" by (auto dest: getEsc_rest)
    show ?thesis
    proof (cases "hd c1 = CHR ''-''")
      case True
      with "1.prems" unfold False g1 obtain hi c2 where g2: "getEsc (tl c1) = Inr (hi, c2)"
        by (auto split: sum.splits)
      with "1.prems" unfold False g1 True "1.IH"(1) [OF False g1 refl True g2 refl]
      have "length rest < length c2" by simp
      moreover from g2 have "length c2 < length (tl c1)" by (auto dest: getEsc_rest)
      ultimately show ?thesis using l1 by simp
    next
      case no_dash: False
      with "1.prems" unfold False g1 "1.IH"(2) [OF False g1 refl no_dash]
      have "length rest < length c1" by simp
      with l1 show ?thesis by simp
    qed
  qed
qed

definition class_negated :: "string \<Rightarrow> bool \<times> string" where
  "class_negated cs = (if cs \<noteq> [] \<and> hd cs = CHR ''^'' then (True, tl cs) else (False, cs))"

lemma class_negated_length: "length (snd (class_negated cs)) \<le> length cs"
  by (simp add: class_negated_def)

text \<open>\<^verbatim>\<open>matchChunk\<close>: an error, no match (\<^term>\<open>Inr None\<close>) or the rest of the name.\<close>

function matchChunk :: "bool \<Rightarrow> string \<Rightarrow> string \<Rightarrow> (string option) result" where
  "matchChunk failed [] s = Inr (if failed then None else Some s)"
| "matchChunk failed (c # cs) s =
     (let failed = failed \<or> s = [] in
      if c = CHR ''['' then
        (let (r, n) = (if failed then (0, 0) else DecodeRune s);
             (negated, ch) = class_negated cs
         in case class_ranges r False False ch of Inl e \<Rightarrow> Inl e
            | Inr (m, ch') \<Rightarrow> matchChunk (failed \<or> m = negated) ch' (drop n s))
      else if c = CHR ''?'' then
        (if failed then matchChunk True cs s
         else matchChunk (hd s = CHR ''/'') cs (drop (snd (DecodeRune s)) s))
      else if c = backslash then
        (case cs of [] \<Rightarrow> Inl ErrBadPattern
         | d # ds \<Rightarrow> if failed then matchChunk True ds s
                     else matchChunk (d \<noteq> hd s) ds (tl s))
      else if failed then matchChunk True cs s
      else matchChunk (c \<noteq> hd s) cs (tl s))"
  by pat_completeness auto
termination
proof (relation "measure (\<lambda>(failed, chunk, s). length chunk)", simp_all, goal_cases)
  case (1 failed c cs s failed' rn r n nc negated ch mch m ch')
  then have "length ch' < length ch" by (auto dest: class_ranges_rest)
  moreover have "length ch \<le> length cs"
    using class_negated_length [of cs] 1 by (metis snd_conv)
  ultimately show ?case by simp
qed

fun scan_plain :: "bool \<Rightarrow> string \<Rightarrow> string \<times> string" where
  "scan_plain inrange [] = ([], [])"
| "scan_plain inrange (c # cs) =
     (if c = backslash then
        (case cs of [] \<Rightarrow> ([c], [])
         | d # ds \<Rightarrow> (let (a, b) = scan_plain inrange ds in (c # d # a, b)))
      else if c = CHR ''*'' \<and> \<not> inrange then ([], c # cs)
      else (let (a, b) = scan_plain
                  (if c = CHR ''['' then True else if c = CHR '']'' then False else inrange) cs
            in (c # a, b)))"

definition scanChunk :: "string \<Rightarrow> bool \<times> string \<times> string" where
  "scanChunk pattern =
     (let p = dropWhile (\<lambda>c. c = CHR ''*'') pattern in
      (pattern \<noteq> [] \<and> hd pattern = CHR ''*'', scan_plain False p))"

text \<open>The loop that looks for a match after skipping bytes that are not \<^verbatim>\<open>/\<close>.\<close>

fun skip_star :: "string \<Rightarrow> bool \<Rightarrow> string \<Rightarrow> (string option) result" where
  "skip_star chunk final [] = Inr None"
| "skip_star chunk final (c # cs) =
     (if c = CHR ''/'' then Inr None
      else (case matchChunk False chunk cs of Inl e \<Rightarrow> Inl e
       | Inr None \<Rightarrow> skip_star chunk final cs
       | Inr (Some t) \<Rightarrow> if final \<and> t \<noteq> [] then skip_star chunk final cs else Inr (Some t)))"

lemma scan_plain_length: "scan_plain b p = (a, r) \<Longrightarrow> length a + length r = length p"
proof (induction b p arbitrary: a r rule: scan_plain.induct)
  case (2 inrange c cs)
  then show ?case
    by (cases cs) (auto split: if_splits prod.splits)
qed simp

lemma scan_plain_progress:
  "scan_plain False p = (a, r) \<Longrightarrow> p \<noteq> [] \<Longrightarrow> hd p \<noteq> CHR ''*'' \<Longrightarrow> a \<noteq> []"
  by (cases p) (auto split: if_splits list.splits prod.splits)

lemma scanChunk_length:
  assumes "(star, chunk, rest) = scanChunk p" and "p \<noteq> []"
  shows "length rest < length p"
proof -
  let ?q = "dropWhile (\<lambda>c. c = CHR ''*'') p"
  from assms(1) have sp: "scan_plain False ?q = (chunk, rest)" by (simp add: scanChunk_def Let_def)
  then have len: "length chunk + length rest = length ?q" by (rule scan_plain_length)
  show ?thesis
  proof (cases "hd p = CHR ''*''")
    case True
    with assms(2) have "length ?q < length p"
      by (cases p) (auto simp: le_imp_less_Suc length_dropWhile_le)
    with len show ?thesis by simp
  next
    case False
    with assms(2) have "?q = p" by (cases p) auto
    with sp False assms(2) have "chunk \<noteq> []" using scan_plain_progress by metis
    with len \<open>?q = p\<close> show ?thesis by (cases chunk) auto
  qed
qed

text \<open>Before a mismatch is reported the remaining chunks are checked for bad syntax.\<close>

function check_rest :: "string \<Rightarrow> bool result" where
  "check_rest pattern = (if pattern = [] then Inr False
     else (let (star, chunk, rest) = scanChunk pattern in
       (case matchChunk False chunk [] of Inl e \<Rightarrow> Inl e | Inr _ \<Rightarrow> check_rest rest)))"
  by pat_completeness auto
termination
  by (relation "measure length") (auto intro: scanChunk_length)

declare check_rest.simps [simp del]

function path_Match :: "string \<Rightarrow> string \<Rightarrow> bool result" where
  "path_Match pattern name =
     (if pattern = [] then Inr (name = [])
      else (let (star, chunk, rest) = scanChunk pattern in
       if star \<and> chunk = [] then Inr (CHR ''/'' \<notin> set name)
       else (case matchChunk False chunk name of Inl e \<Rightarrow> Inl e
        | Inr here \<Rightarrow>
           if here \<noteq> None \<and> (the here = [] \<or> rest \<noteq> []) then path_Match rest (the here)
           else (case (if star then skip_star chunk (rest = []) name else Inr None) of
               Inl e \<Rightarrow> Inl e
             | Inr (Some t) \<Rightarrow> path_Match rest t
             | Inr None \<Rightarrow> check_rest rest))))"
  by pat_completeness auto
termination
  by (relation "measure (\<lambda>(p, n). length p)") (auto intro: scanChunk_length)

declare path_Match.simps [simp del]

section \<open>Correctness on patterns of literals, \<^verbatim>\<open>?\<close> and \<^verbatim>\<open>*\<close>\<close>

fun glob :: "string \<Rightarrow> string \<Rightarrow> bool" where
  "glob [] s = (s = [])"
| "glob (x # p) [] = (x = CHR ''*'' \<and> glob p [])"
| "glob (x # p) (c # cs) =
     (if x = CHR ''*'' then glob p (c # cs) \<or> c \<noteq> CHR ''/'' \<and> glob (x # p) cs
      else if x = CHR ''?'' then c \<noteq> CHR ''/'' \<and> glob p cs
      else x = c \<and> glob p cs)"

definition plain :: "string \<Rightarrow> bool" where
  "plain p = (CHR ''['' \<notin> set p \<and> backslash \<notin> set p)"

definition char_ok :: "char \<Rightarrow> char \<Rightarrow> bool" where
  "char_ok x c = (if x = CHR ''?'' then c \<noteq> CHR ''/'' else x = c)"

definition chunk_ok :: "string \<Rightarrow> string \<Rightarrow> bool" where
  "chunk_ok ch s = (length ch \<le> length s \<and> (\<forall>i < length ch. char_ok (ch ! i) (s ! i)))"

lemma chunk_ok_Nil [simp]: "chunk_ok [] s"
  by (simp add: chunk_ok_def)

lemma chunk_ok_Cons [simp]: "\<not> chunk_ok (x # ch) []" 
  "chunk_ok (x # ch) (c # s) \<longleftrightarrow> char_ok x c \<and> chunk_ok ch s"
  by (auto simp: chunk_ok_def nth_Cons' All_less_Suc2)

lemma matchChunk_failed: "plain ch \<Longrightarrow> matchChunk True ch s = Inr None"
  by (induction ch) (auto simp: plain_def)

lemma matchChunk_plain:
  "plain ch \<Longrightarrow> ascii s \<Longrightarrow>
   matchChunk False ch s = Inr (if chunk_ok ch s then Some (drop (length ch) s) else None)"
proof (induction ch arbitrary: s)
  case (Cons x ch)
  then have p: "plain ch" and x: "x \<noteq> CHR ''[''" "x \<noteq> backslash" by (auto simp: plain_def)
  show ?case
  proof (cases s)
    case Nil
    with p x matchChunk_failed show ?thesis by simp
  next
    case (Cons c cs)
    with Cons.prems have c: "ascii cs" "snd (DecodeRune (c # cs)) = 1"
      by (auto simp: DecodeRune_def is_ascii_def)
    have "matchChunk b ch cs
        = Inr (if \<not> b \<and> chunk_ok ch cs then Some (drop (length ch) cs) else None)" for b
      using Cons.IH [OF p c(1)] matchChunk_failed [OF p] by (cases b) simp_all
    with x Cons c matchChunk_failed [OF p] show ?thesis by (simp add: char_ok_def)
  qed
qed simp

lemma glob_chunk:
  "CHR ''*'' \<notin> set ch \<Longrightarrow> glob (ch @ p) s \<longleftrightarrow> chunk_ok ch s \<and> glob p (drop (length ch) s)"
proof (induction ch arbitrary: s)
  case (Cons x ch)
  then show ?case by (cases s) (auto simp: char_ok_def)
qed simp

lemma glob_star:
  "glob (CHR ''*'' # p) s \<longleftrightarrow> (\<exists>i \<le> length s. CHR ''/'' \<notin> set (take i s) \<and> glob p (drop i s))"
proof (induction s)
  case (Cons c s)
  show ?case (is "_ = ?rhs (c # s)")
  proof
    assume "glob (CHR ''*'' # p) (c # s)"
    then consider "glob p (c # s)" | "c \<noteq> CHR ''/''" "glob (CHR ''*'' # p) s" by auto
    then show "?rhs (c # s)"
    proof cases
      case 1
      then show ?thesis by (intro exI [of _ 0]) simp
    next
      case 2
      with Cons.IH obtain i where "i \<le> length s" "CHR ''/'' \<notin> set (take i s)" "glob p (drop i s)"
        by blast
      with 2 show ?thesis by (intro exI [of _ "Suc i"]) auto
    qed
  next
    assume "?rhs (c # s)"
    then obtain i where i: "i \<le> length (c # s)" "CHR ''/'' \<notin> set (take i (c # s))"
      "glob p (drop i (c # s))" by blast
    then show "glob (CHR ''*'' # p) (c # s)" using Cons.IH by (cases i) auto
  qed
qed auto

lemma glob_stars: "glob (CHR ''*'' # CHR ''*'' # p) s = glob (CHR ''*'' # p) s"
  by (induction s) auto

lemma glob_dropWhile_star:
  "p \<noteq> [] \<Longrightarrow> hd p = CHR ''*'' \<Longrightarrow>
   glob p s = glob (CHR ''*'' # dropWhile (\<lambda>c. c = CHR ''*'') p) s"
proof (induction p)
  case (Cons c p)
  show ?case
  proof (cases "p \<noteq> [] \<and> hd p = CHR ''*''")
    case True
    then obtain q where q: "p = CHR ''*'' # q" by (cases p) auto
    with Cons glob_stars show ?thesis by simp
  next
    case False
    with Cons.prems show ?thesis by (cases p) auto
  qed
qed simp

text \<open>A later match never helps: what the star skips between the two matches has no slash.\<close>

lemma no_slash_between:
  assumes i: "chunk_ok ch (drop i s)" and j: "chunk_ok ch (drop j s)" and "i \<le> j"
    and free: "CHR ''/'' \<notin> set (take j s)"
    and q: "i + length ch \<le> q" "q < j + length ch" "q < length s"
  shows "s ! q \<noteq> CHR ''/''"
proof
  assume slash: "s ! q = CHR ''/''"
  have before: "s ! k \<noteq> CHR ''/''" if "k < j" "k < length s" for k
    using free that by (metis in_set_conv_nth length_take min_less_iff_conj nth_take)
  have at: "ch ! m = CHR ''/'' \<longleftrightarrow> s ! (k + m) = CHR ''/''"
    if "chunk_ok ch (drop k s)" "m < length ch" "k = i \<or> k = j" for k m
  proof -
    have "k \<le> length s" using that by (auto simp: chunk_ok_def)
    with that show ?thesis by (auto simp: chunk_ok_def char_ok_def split: if_splits)
  qed
  have "m < length ch \<Longrightarrow> ch ! m \<noteq> CHR ''/''" for m
  proof (induction m rule: less_induct)
    case (less m)
    have len: "i + m < length s" using i less.prems by (auto simp: chunk_ok_def)
    show ?case
    proof
      assume sl: "ch ! m = CHR ''/''"
      with at [OF i less.prems] have im: "s ! (i + m) = CHR ''/''" by simp
      with before len have "j \<le> i + m" by (meson not_le)
      then obtain m' where m': "i + m = j + m'" by (metis le_Suc_ex)
      show False
      proof (cases "i = j")
        case True
        with q show False using slash by simp
      next
        case False
        with m' \<open>i \<le> j\<close> have "m' < m" by simp
        moreover from this less.prems have "m' < length ch" by simp
        ultimately show False using at [OF j, of m'] im m' less.IH by auto
      qed
    qed
  qed
  moreover have "j \<le> q" using slash before q(3) by (meson not_le)
  then obtain m where "q = j + m" by (metis le_Suc_ex)
  ultimately show False using at [OF j, of m] slash q(2) by auto
qed


lemma later_match_no_help:
  assumes i: "chunk_ok ch (drop i s)" and j: "chunk_ok ch (drop j s)" and "i \<le> j" "j \<le> length s"
    and free: "CHR ''/'' \<notin> set (take j s)"
    and rest: "rest = CHR ''*'' # r"
    and glob: "glob rest (drop (j + length ch) s)"
  shows "glob rest (drop (i + length ch) s)"
proof -
  let ?l = "length ch"
  from glob rest obtain k where k: "k \<le> length (drop (j + ?l) s)"
    "CHR ''/'' \<notin> set (take k (drop (j + ?l) s))" "glob r (drop k (drop (j + ?l) s))"
    unfolding rest by (auto simp: glob_star)
  have jl: "j + ?l \<le> length s" using j \<open>j \<le> length s\<close> by (auto simp: chunk_ok_def)
  have "CHR ''/'' \<notin> set (take (j - i) (drop (i + ?l) s))"
  proof
    assume "CHR ''/'' \<in> set (take (j - i) (drop (i + ?l) s))"
    then obtain m where "m < j - i" "i + ?l + m < length s" "s ! (i + ?l + m) = CHR ''/''"
      by (auto simp: in_set_conv_nth)
    then have "i + m < j" by linarith
    with \<open>i + ?l + m < length s\<close> \<open>s ! (i + ?l + m) = CHR ''/''\<close>
      no_slash_between [OF i j \<open>i \<le> j\<close> free, of "i + ?l + m"]
    show False by simp
  qed
  moreover have "take (j - i + k) (drop (i + ?l) s)
      = take (j - i) (drop (i + ?l) s) @ take k (drop (j + ?l) s)"
    using \<open>i \<le> j\<close> take_add [of "j - i" k "drop (i + ?l) s"] by simp
  ultimately have "CHR ''/'' \<notin> set (take (j - i + k) (drop (i + ?l) s))" using k(2) by simp
  moreover have "drop (j - i + k) (drop (i + ?l) s) = drop k (drop (j + ?l) s)"
    using \<open>i \<le> j\<close> by (simp add: add.commute add.left_commute)
  moreover have "j - i + k \<le> length (drop (i + ?l) s)" using k(1) jl \<open>i \<le> j\<close> by simp
  ultimately show ?thesis unfolding rest glob_star using k(3) by metis
qed

definition good_at :: "string \<Rightarrow> bool \<Rightarrow> string \<Rightarrow> nat \<Rightarrow> bool" where
  "good_at ch final s i = (chunk_ok ch (drop i s) \<and> (final \<longrightarrow> drop (i + length ch) s = []))"

text \<open>A search result is right when it is the first good position within the segment, or there is none.\<close>

definition first_good :: "string \<Rightarrow> bool \<Rightarrow> string \<Rightarrow> string option result \<Rightarrow> bool" where
  "first_good ch final s res \<longleftrightarrow>
     (res = Inr None \<and> (\<forall>i. 0 < i \<and> i \<le> length s \<and> CHR ''/'' \<notin> set (take i s) \<longrightarrow> \<not> good_at ch final s i))
   \<or> (\<exists>i. res = Inr (Some (drop (i + length ch) s))
        \<and> 0 < i \<and> i \<le> length s \<and> CHR ''/'' \<notin> set (take i s) \<and> good_at ch final s i
        \<and> (\<forall>k. 0 < k \<and> k < i \<longrightarrow> \<not> good_at ch final s k))"

lemma good_at_Suc: "good_at ch final (c # s) (Suc i) = good_at ch final s i"
  by (simp add: good_at_def)

lemma all_positive: "(\<forall>i. 0 < i \<and> P i \<longrightarrow> Q i) \<longleftrightarrow> (\<forall>i. P (Suc i) \<longrightarrow> Q (Suc i))"
  by (metis Suc_pred zero_less_Suc)

lemma first_good_Cons:
  assumes "first_good ch final s res" "\<not> good_at ch final s 0" "c \<noteq> CHR ''/''"
  shows "first_good ch final (c # s) res"
  using assms(1) [unfolded first_good_def]
proof (elim disjE exE conjE)
  assume none: "res = Inr None"
    and all: "\<forall>i. 0 < i \<and> i \<le> length s \<and> CHR ''/'' \<notin> set (take i s) \<longrightarrow> \<not> good_at ch final s i"
  have "\<not> good_at ch final (c # s) (Suc i)" if "Suc i \<le> length (c # s)" "CHR ''/'' \<notin> set (take (Suc i) (c # s))" for i
    using that all assms(2) good_at_Suc by (cases i) auto
  with none show ?thesis unfolding first_good_def by (simp only: all_positive) simp
next
  fix i assume i: "res = Inr (Some (drop (i + length ch) s))" "0 < i"
    "i \<le> length s" "CHR ''/'' \<notin> set (take i s)" "good_at ch final s i"
    and first: "\<forall>k. 0 < k \<and> k < i \<longrightarrow> \<not> good_at ch final s k"
  have "\<not> good_at ch final (c # s) (Suc k)" if "Suc k < Suc i" for k
    using that first assms(2) good_at_Suc by (cases k) auto
  with i assms(3) good_at_Suc show ?thesis
    unfolding first_good_def by (intro disjI2 exI [of _ "Suc i"]) (simp only: all_positive, auto)
qed

lemma skip_star_first: "plain ch \<Longrightarrow> ascii s \<Longrightarrow> first_good ch final s (skip_star ch final s)"
proof (induction s)
  case (Cons c s)
  then have s: "ascii s" by simp
  show ?case
  proof (cases "c = CHR ''/''")
    case True
    have "\<not> (0 < i \<and> i \<le> length (c # s) \<and> CHR ''/'' \<notin> set (take i (c # s)))" for i
      using True by (cases i) auto
    with True show ?thesis by (auto simp: first_good_def)
  next
    case slash: False
    show ?thesis
    proof (cases "good_at ch final s 0")
      case True
      then have "skip_star ch final (c # s) = Inr (Some (drop (Suc 0 + length ch) (c # s)))"
        using slash matchChunk_plain [OF Cons.prems(1) s] by (auto simp: good_at_def)
      with True slash good_at_Suc show ?thesis
        unfolding first_good_def by (intro disjI2 exI [of _ "Suc 0"]) auto
    next
      case False
      then have "skip_star ch final (c # s) = skip_star ch final s"
        using slash matchChunk_plain [OF Cons.prems(1) s] by (auto simp: good_at_def)
      with first_good_Cons [OF Cons.IH [OF Cons.prems(1) s] False slash] show ?thesis by simp
    qed
  qed
qed (simp add: first_good_def)

lemmas skip_star_plain = skip_star_first [unfolded first_good_def]

lemma scan_plain_eq:
  "plain p \<Longrightarrow> scan_plain False p = (takeWhile (\<lambda>c. c \<noteq> CHR ''*'') p, dropWhile (\<lambda>c. c \<noteq> CHR ''*'') p)"
  by (induction p) (auto simp: plain_def)

lemma check_rest_plain: "plain p \<Longrightarrow> check_rest p = Inr False"
proof (induction p rule: check_rest.induct)
  case (1 p)
  obtain star chunk rest where sc: "scanChunk p = (star, chunk, rest)" by (cases "scanChunk p")
  let ?q = "dropWhile (\<lambda>c. c = CHR ''*'') p"
  have q: "plain ?q" using 1(2) by (auto simp: plain_def dest: set_dropWhileD)
  then have "chunk = takeWhile (\<lambda>c. c \<noteq> CHR ''*'') ?q" "rest = dropWhile (\<lambda>c. c \<noteq> CHR ''*'') ?q"
    using sc by (auto simp: scanChunk_def scan_plain_eq)
  with q have "plain chunk" "plain rest"
    by (auto simp: plain_def dest: set_takeWhileD set_dropWhileD)
  with 1(1) sc matchChunk_plain [of chunk "[]"] show ?case
    by (subst check_rest.simps) auto
qed


text \<open>One pass of the loop, over the chunk and what the star before it may skip.\<close>

lemma glob_scanChunk:
  assumes "plain p" and "p \<noteq> []" and "scanChunk p = (star, chunk, rest)"
  shows "plain chunk" "plain rest" "CHR ''*'' \<notin> set chunk" "rest = [] \<or> (\<exists>r. rest = CHR ''*'' # r)"
    and "star \<Longrightarrow> glob p s \<longleftrightarrow> (\<exists>i \<le> length s. CHR ''/'' \<notin> set (take i s)
           \<and> chunk_ok chunk (drop i s) \<and> glob rest (drop (i + length chunk) s))"
    and "\<not> star \<Longrightarrow> glob p s \<longleftrightarrow> chunk_ok chunk s \<and> glob rest (drop (length chunk) s)"
    and "chunk = [] \<Longrightarrow> rest = []"
proof -
  let ?q = "dropWhile (\<lambda>c. c = CHR ''*'') p"
  have q: "plain ?q" using assms(1) by (auto simp: plain_def dest: set_dropWhileD)
  with assms(3) have ch: "chunk = takeWhile (\<lambda>c. c \<noteq> CHR ''*'') ?q"
    and re: "rest = dropWhile (\<lambda>c. c \<noteq> CHR ''*'') ?q" and st: "star = (hd p = CHR ''*'')"
    using assms(2) by (auto simp: scanChunk_def scan_plain_eq)
  show "plain chunk" "plain rest" using q ch re
    by (auto simp: plain_def dest: set_takeWhileD set_dropWhileD)
  show star_free: "CHR ''*'' \<notin> set chunk" using ch by (auto dest: set_takeWhileD)
  show "rest = [] \<or> (\<exists>r. rest = CHR ''*'' # r)"
    using re hd_dropWhile [of "\<lambda>c. c \<noteq> CHR ''*''" ?q] by (metis list.collapse)
  have qq: "?q = chunk @ rest" using ch re by simp
  show "glob p s \<longleftrightarrow> (\<exists>i \<le> length s. CHR ''/'' \<notin> set (take i s)
           \<and> chunk_ok chunk (drop i s) \<and> glob rest (drop (i + length chunk) s))" if star
    using glob_dropWhile_star [OF assms(2), of s] that st qq star_free
    by (simp add: glob_star glob_chunk add.commute)
  show "glob p s \<longleftrightarrow> chunk_ok chunk s \<and> glob rest (drop (length chunk) s)" if "\<not> star"
  proof -
    have "?q = p" using that st assms(2) by (cases p) auto
    with qq star_free show ?thesis by (simp add: glob_chunk)
  qed
  show "rest = []" if "chunk = []"
    using that ch re hd_dropWhile [of "\<lambda>c. c = CHR ''*''" p] by (cases ?q) auto
qed

text \<open>Taking the leftmost good position decides the match of everything that follows.\<close>

lemma glob_first_match:
  assumes star: "glob p s \<longleftrightarrow> (\<exists>j \<le> length s. CHR ''/'' \<notin> set (take j s)
      \<and> chunk_ok chunk (drop j s) \<and> glob rest (drop (j + length chunk) s))"
    and shape: "rest = [] \<or> (\<exists>r. rest = CHR ''*'' # r)"
    and i: "i \<le> length s" "CHR ''/'' \<notin> set (take i s)" "good_at chunk (rest = []) s i"
    and first: "\<And>k. k < i \<Longrightarrow> \<not> good_at chunk (rest = []) s k"
  shows "glob p s = glob rest (drop (i + length chunk) s)"
proof
  assume "glob p s"
  with star obtain j where j: "j \<le> length s" "CHR ''/'' \<notin> set (take j s)"
    "chunk_ok chunk (drop j s)" "glob rest (drop (j + length chunk) s)" by blast
  then have "good_at chunk (rest = []) s j" by (auto simp: good_at_def)
  with first have "i \<le> j" by (meson not_le)
  moreover have ok: "chunk_ok chunk (drop i s)" using i(3) by (simp add: good_at_def)
  ultimately show "glob rest (drop (i + length chunk) s)"
    using shape later_match_no_help [OF ok j(3) _ j(1,2) _ j(4)] i(3) by (auto simp: good_at_def)
next
  assume "glob rest (drop (i + length chunk) s)"
  with i star show "glob p s" by (auto simp: good_at_def)
qed

lemma glob_no_match:
  assumes "glob p s \<longleftrightarrow> (\<exists>j \<le> length s. CHR ''/'' \<notin> set (take j s)
      \<and> chunk_ok chunk (drop j s) \<and> glob rest (drop (j + length chunk) s))"
    and "\<And>i. i \<le> length s \<Longrightarrow> CHR ''/'' \<notin> set (take i s) \<Longrightarrow> \<not> good_at chunk (rest = []) s i"
  shows "\<not> glob p s"
proof
  assume "glob p s"
  with assms(1) obtain j where "j \<le> length s" "CHR ''/'' \<notin> set (take j s)"
    "chunk_ok chunk (drop j s)" "glob rest (drop (j + length chunk) s)" by blast
  with assms(2) [of j] show False by (auto simp: good_at_def)
qed

text \<open>The search after a star, as one step: it finds the leftmost good position, if any.\<close>

lemma path_Match_skip:
  assumes star: "glob p s \<longleftrightarrow> (\<exists>j \<le> length s. CHR ''/'' \<notin> set (take j s)
      \<and> chunk_ok chunk (drop j s) \<and> glob rest (drop (j + length chunk) s))"
    and shape: "rest = [] \<or> (\<exists>r. rest = CHR ''*'' # r)"
    and plain: "plain chunk" "plain rest" and asc: "ascii s"
    and no0: "\<not> good_at chunk (rest = []) s 0"
    and IH: "\<And>i. path_Match rest (drop i s) = Inr (glob rest (drop i s))"
  shows "(case skip_star chunk (rest = []) s of Inl e \<Rightarrow> Inl e
      | Inr (Some t) \<Rightarrow> path_Match rest t | Inr None \<Rightarrow> check_rest rest) = Inr (glob p s)"
  using skip_star_plain [OF plain(1) asc, of "rest = []"]
proof (elim disjE exE conjE)
  assume none: "skip_star chunk (rest = []) s = Inr None"
    and all: "\<forall>i. 0 < i \<and> i \<le> length s \<and> CHR ''/'' \<notin> set (take i s)
      \<longrightarrow> \<not> good_at chunk (rest = []) s i"
  have "\<not> glob p s" by (rule glob_no_match [OF star]) (use all no0 gr0I in metis)
  with none check_rest_plain [OF plain(2)] show ?thesis by simp
next
  fix i assume i: "skip_star chunk (rest = []) s = Inr (Some (drop (i + length chunk) s))"
    "0 < i" "i \<le> length s" "CHR ''/'' \<notin> set (take i s)" "good_at chunk (rest = []) s i"
    and first: "\<forall>k. 0 < k \<and> k < i \<longrightarrow> \<not> good_at chunk (rest = []) s k"
  have "glob p s = glob rest (drop (i + length chunk) s)"
    by (rule glob_first_match [OF star shape i(3-5)]) (use first no0 gr0I in metis)
  with i(1) IH show ?thesis by simp
qed

lemma path_Match_glob_step:
  assumes plain: "plain p" and s: "ascii s" and ne: "p \<noteq> []" and sc: "scanChunk p = (star, chunk, rest)"
    and IH: "\<And>i. path_Match rest (drop i s) = Inr (glob rest (drop i s))"
  shows "path_Match p s = Inr (glob p s)"
proof -
  let ?l = "length chunk"
  note sp = glob_scanChunk [OF plain ne sc]
  note unfold = path_Match.simps [of p s] matchChunk_plain [OF sp(1) s]
  have g0: "good_at chunk (rest = []) s 0 \<longleftrightarrow> chunk_ok chunk s \<and> (drop ?l s = [] \<or> rest \<noteq> [])"
    by (auto simp: good_at_def)
  consider (star_end) "star" "chunk = []"
    | (here) "\<not> (star \<and> chunk = [])" "good_at chunk (rest = []) s 0"
    | (miss) "\<not> (star \<and> chunk = [])" "\<not> good_at chunk (rest = []) s 0"
    by blast
  then show ?thesis
  proof cases
    case star_end
    with sp(5) [of s] sp(7)
    have "glob p s \<longleftrightarrow> (\<exists>i \<le> length s. CHR ''/'' \<notin> set (take i s) \<and> drop i s = [])" by simp
    also have "\<dots> \<longleftrightarrow> CHR ''/'' \<notin> set s" by (auto intro: exI [of _ "length s"])
    finally show ?thesis using ne sc star_end unfold by simp
  next
    case here
    then have "path_Match p s = path_Match rest (drop ?l s)" using ne sc unfold g0 by auto
    moreover have "glob p s = glob rest (drop ?l s)"
      using here g0 sp(6) glob_first_match [OF sp(5) sp(4), of 0] by (cases star) auto
    ultimately show ?thesis using IH by simp
  next
    case miss
    then have eq: "path_Match p s
        = (case (if star then skip_star chunk (rest = []) s else Inr None) of Inl e \<Rightarrow> Inl e
           | Inr (Some t) \<Rightarrow> path_Match rest t | Inr None \<Rightarrow> check_rest rest)"
      using ne sc unfold g0 by auto
    show ?thesis
    proof (cases star)
      case True
      with eq path_Match_skip [OF sp(5) [OF True] sp(4) sp(1,2) s miss(2) IH] show ?thesis by simp
    qed (use eq miss(2) g0 sp(6) check_rest_plain [OF sp(2)] in auto)
  qed
qed

theorem path_Match_glob:
  "plain p \<Longrightarrow> ascii s \<Longrightarrow> path_Match p s = Inr (glob p s)"
proof (induction p arbitrary: s rule: measure_induct_rule [of length])
  case (less p)
  show ?case
  proof (cases "p = []")
    case True
    then show ?thesis by (subst path_Match.simps) simp
  next
    case False
    obtain star chunk rest where sc: "scanChunk p = (star, chunk, rest)" by (cases "scanChunk p")
    have "ascii (drop i s)" for i using less.prems(2) by (auto simp: ascii_iff dest: in_set_dropD)
    then have "path_Match rest (drop i s) = Inr (glob rest (drop i s))" for i
      using less.IH [of rest] glob_scanChunk(2) [OF less.prems(1) False sc] scanChunk_length [OF sc [symmetric] False] by simp
    with path_Match_glob_step [OF less.prems False sc] show ?thesis .
  qed
qed

end
