(* ===== verification/Go_Time.thy ===== *)
theory Go_Time
  imports Go_Text
begin

text \<open>
  The parts of Go's package \<^verbatim>\<open>time\<close> that the source uses.  A \<^verbatim>\<open>time.Time\<close> is the number
  of nanoseconds since the Unix epoch as an unbounded integer; a \<^verbatim>\<open>time.Duration\<close> is a
  signed 64-bit number of nanoseconds, kept as an integer with the wrap-around of the
  multiplication and the saturation of \<^verbatim>\<open>Sub\<close> written out.  Clock readings are arguments
  of the operations: one reading per handler call.
\<close>

type_synonym time = int
type_synonym duration = int

abbreviation Nanosecond :: int where "Nanosecond \<equiv> 1"
abbreviation Second :: int where "Second \<equiv> 1000000000"
abbreviation Minute :: int where "Minute \<equiv> 60000000000"
abbreviation max_int64 :: int where "max_int64 \<equiv> 9223372036854775807"
abbreviation min_int64 :: int where "min_int64 \<equiv> - 9223372036854775808"

text \<open>Two's complement arithmetic on 64 bits.\<close>

definition wrap64 :: "int \<Rightarrow> int" where
  "wrap64 x = (x + 2 ^ 63) mod 2 ^ 64 - 2 ^ 63"

definition int64 :: "int \<Rightarrow> bool" where
  "int64 x = (min_int64 \<le> x \<and> x \<le> max_int64)"

text \<open>The zero \<^verbatim>\<open>time.Time\<close> is the first of January of the year 1, UTC.\<close>

definition zero_time :: time where
  "zero_time = - 62135596800 * Second"

definition IsZero :: "time \<Rightarrow> bool" where
  "IsZero t = (t = zero_time)"

definition Unix :: "int \<Rightarrow> time" where
  "Unix sec = sec * Second"

definition time_Sub :: "time \<Rightarrow> time \<Rightarrow> duration" where
  "time_Sub t u = (if t - u < min_int64 then min_int64
     else if max_int64 < t - u then max_int64 else t - u)"

text \<open>\<^verbatim>\<open>time.Since(t)\<close> and \<^verbatim>\<open>time.Until(t)\<close> at the clock reading \<open>now\<close>.\<close>

definition Since :: "time \<Rightarrow> time \<Rightarrow> duration" where
  "Since now t = time_Sub now t"

definition Until :: "time \<Rightarrow> time \<Rightarrow> duration" where
  "Until now t = time_Sub t now"

lemma wrap64_id: "int64 x \<Longrightarrow> wrap64 x = x"
  by (simp add: wrap64_def int64_def)

lemma wrap64_le: "0 \<le> x \<Longrightarrow> wrap64 x \<le> x"
proof -
  assume "0 \<le> x"
  then have "(x + 2 ^ 63) mod 2 ^ 64 \<le> x + 2 ^ 63" by (intro zmod_le_nonneg_dividend) simp
  then show ?thesis by (simp add: wrap64_def)
qed

lemma wrap64_range: "int64 (wrap64 x)"
proof -
  have "0 \<le> (x + 2 ^ 63) mod 2 ^ 64" "(x + 2 ^ 63) mod 2 ^ 64 < (2::int) ^ 64" by simp_all
  then show ?thesis by (simp add: wrap64_def int64_def)
qed

lemma time_Sub_range: "int64 (time_Sub t u)"
  by (simp add: time_Sub_def int64_def)

lemma time_Sub_le_iff:
  "int64 d \<Longrightarrow> d < max_int64 \<Longrightarrow> time_Sub t u \<le> d \<longleftrightarrow> t - u \<le> d"
  by (auto simp: time_Sub_def int64_def)

lemma time_Sub_gt_iff:
  "int64 d \<Longrightarrow> d < max_int64 \<Longrightarrow> d < time_Sub t u \<longleftrightarrow> d < t - u"
  using time_Sub_le_iff [of d t u] by linarith

lemma time_Sub_pos_iff: "0 < time_Sub t u \<longleftrightarrow> u < t"
  by (auto simp: time_Sub_def)

lemma time_Sub_less_iff:
  "int64 d \<Longrightarrow> min_int64 < d \<Longrightarrow> time_Sub t u < d \<longleftrightarrow> t - u < d"
  by (auto simp: time_Sub_def int64_def)

section \<open>Printing durations\<close>

text \<open>\<^verbatim>\<open>Duration.Round(time.Second)\<close>: half away from zero, saturating.\<close>

definition Round_Second :: "duration \<Rightarrow> duration" where
  "Round_Second d =
     (let r = \<bar>d\<bar> mod Second in
      if d < 0 then (if r + r < Second then d + r
                     else let d1 = wrap64 (d - Second + r) in if d1 < d then d1 else min_int64)
      else if r + r < Second then d - r
      else let d1 = wrap64 (d + Second - r) in if d < d1 then d1 else max_int64)"

definition fmt_frac :: "nat \<Rightarrow> nat \<Rightarrow> string" where
  "fmt_frac prec v =
     (let ds = show_nat v;
          padded = replicate (prec - length ds) (CHR ''0'') @ ds;
          cut = TrimRight padded (CHR ''0'')
      in if cut = [] then [] else CHR ''.'' # cut)"

definition duration_body :: "nat \<Rightarrow> string" where
  "duration_body u =
     (if u < 10 ^ 3 then show_nat u @ ''ns''
      else if u < 10 ^ 6
      then show_nat (u div 10 ^ 3) @ fmt_frac 3 (u mod 10 ^ 3) @ map char_of [194, 181, 115 :: nat]
      else if u < 10 ^ 9
      then show_nat (u div 10 ^ 6) @ fmt_frac 6 (u mod 10 ^ 6) @ ''ms''
      else (let s = u div 10 ^ 9 in
        (if s div 60 = 0 then []
         else (if s div 3600 = 0 then [] else show_nat (s div 3600) @ ''h'')
              @ show_nat (s div 60 mod 60) @ ''m'')
        @ show_nat (s mod 60) @ fmt_frac 9 (u mod 10 ^ 9) @ ''s''))"

definition Duration_String :: "duration \<Rightarrow> string" where
  "Duration_String d = (if d = 0 then ''0s''
     else if d < 0 then CHR ''-'' # duration_body (nat (- d)) else duration_body (nat d))"

end
