(* ===== verification/Json.thy ===== *)
theory Json
  imports Go_Time "HOL-Library.AList"
begin

text \<open>
  JSON values and the behaviour of \<^verbatim>\<open>encoding/json\<close> when it stores a value into a Go
  variable: members are applied in document order, member names match field names up to
  case folding, \<^verbatim>\<open>null\<close> leaves strings, booleans and numbers alone and clears slices, and
  a value of the wrong kind is an error.  The text level (reading and printing JSON) is a
  parameter, the record \<open>json_codec\<close>.
\<close>

datatype json =
    JNull
  | JBool bool
  | JInt int            \<comment> \<open>a number literal without fraction and exponent\<close>
  | JNum string         \<comment> \<open>any other number literal\<close>
  | JStr string
  | JArr "json list"
  | JObj "(string \<times> json) list"

text \<open>A Go value of type \<^verbatim>\<open>interface{}\<close>, as the source stores and type-switches on it.\<close>

datatype gval =
    GNil
  | GBool bool
  | GString string
  | GFloat int          \<comment> \<open>a \<^verbatim>\<open>float64\<close> with an integral value\<close>
  | GFrac string        \<comment> \<open>any other \<^verbatim>\<open>float64\<close>\<close>
  | GInt64 int
  | GInt int
  | GStrings "string list"
  | GSlice "gval list"
  | GMap "(string \<times> gval) list"

text \<open>Decoding into \<^verbatim>\<open>interface{}\<close>: of several members with one name the last wins.\<close>

fun json_to_gval :: "json \<Rightarrow> gval" where
  "json_to_gval JNull = GNil"
| "json_to_gval (JBool b) = GBool b"
| "json_to_gval (JInt i) = GFloat i"
| "json_to_gval (JNum s) = GFrac s"
| "json_to_gval (JStr s) = GString s"
| "json_to_gval (JArr vs) = GSlice (map json_to_gval vs)"
| "json_to_gval (JObj kvs) = GMap (rev (map (\<lambda>kv. (fst kv, json_to_gval (snd kv))) kvs))"

text \<open>Decoding an object into a Go map: one entry per name, later members replace earlier ones.\<close>

fun json_object_map :: "(string \<times> json) list \<Rightarrow> (string \<times> json) list \<Rightarrow> (string \<times> json) list" where
  "json_object_map m [] = m"
| "json_object_map m (kv # kvs) = json_object_map (AList.update (fst kv) (snd kv) m) kvs"

text \<open>The text level of \<^verbatim>\<open>encoding/json\<close> and the text form of \<^verbatim>\<open>time.Time\<close> inside it.\<close>

record json_codec =
  json_parse :: "string \<Rightarrow> json option"       \<comment> \<open>the whole text is one value (\<^verbatim>\<open>Unmarshal\<close>)\<close>
  json_decode :: "string \<Rightarrow> json option"      \<comment> \<open>the first value of a stream (\<^verbatim>\<open>Decoder.Decode\<close>)\<close>
  json_print :: "json \<Rightarrow> string"              \<comment> \<open>\<^verbatim>\<open>Marshal\<close>\<close>
  time_parse :: "string \<Rightarrow> time option"       \<comment> \<open>\<^verbatim>\<open>Time.UnmarshalJSON\<close> on the text\<close>
  time_print :: "time \<Rightarrow> string option"       \<comment> \<open>\<^verbatim>\<open>Time.MarshalJSON\<close>, an error outside the years 0 to 9999\<close>

definition json_type_error :: error where
  "json_type_error = Errorf ''json: cannot unmarshal value into Go value''"

definition json_syntax_error :: error where
  "json_syntax_error = Errorf ''json: invalid syntax''"

section \<open>Storing into Go variables\<close>

fun into_string :: "json \<Rightarrow> string \<Rightarrow> string result" where
  "into_string (JStr s) old = Inr s"
| "into_string JNull old = Inr old"
| "into_string _ old = Inl json_type_error"

fun into_bool :: "json \<Rightarrow> bool \<Rightarrow> bool result" where
  "into_bool (JBool b) old = Inr b"
| "into_bool JNull old = Inr old"
| "into_bool _ old = Inl json_type_error"

fun into_int64 :: "json \<Rightarrow> int \<Rightarrow> int result" where
  "into_int64 (JInt i) old = (if int64 i then Inr i else Inl json_type_error)"
| "into_int64 JNull old = Inr old"
| "into_int64 _ old = Inl json_type_error"

fun into_list :: "(json \<Rightarrow> 'a result) \<Rightarrow> json list \<Rightarrow> 'a list result" where
  "into_list f [] = Inr []"
| "into_list f (v # vs) = (case f v of Inl e \<Rightarrow> Inl e
     | Inr x \<Rightarrow> (case into_list f vs of Inl e \<Rightarrow> Inl e | Inr xs \<Rightarrow> Inr (x # xs)))"

fun into_strings :: "json \<Rightarrow> string list result" where
  "into_strings (JArr vs) = into_list (\<lambda>v. into_string v []) vs"
| "into_strings JNull = Inr []"
| "into_strings _ = Inl json_type_error"

text \<open>\<^verbatim>\<open>Time.UnmarshalJSON\<close>.\<close>

fun into_time :: "json_codec \<Rightarrow> json \<Rightarrow> time \<Rightarrow> time result" where
  "into_time codec (JStr s) old =
     (case time_parse codec s of None \<Rightarrow> Inl (Errorf ''parsing time'') | Some t \<Rightarrow> Inr t)"
| "into_time codec JNull old = Inr old"
| "into_time codec _ old = Inl (Errorf ''Time.UnmarshalJSON: input is not a JSON string'')"

text \<open>Storing an object into a struct, one member at a time.\<close>

fun into_members ::
  "(string \<Rightarrow> json \<Rightarrow> 'a \<Rightarrow> 'a result) \<Rightarrow> (string \<times> json) list \<Rightarrow> 'a \<Rightarrow> 'a result" where
  "into_members f [] st = Inr st"
| "into_members f (kv # kvs) st =
     (case f (fst kv) (snd kv) st of Inl e \<Rightarrow> Inl e | Inr st' \<Rightarrow> into_members f kvs st')"

fun into_struct ::
  "(string \<Rightarrow> json \<Rightarrow> 'a \<Rightarrow> 'a result) \<Rightarrow> json \<Rightarrow> 'a \<Rightarrow> 'a result" where
  "into_struct f (JObj kvs) st = into_members f kvs st"
| "into_struct f JNull st = Inr st"
| "into_struct f _ st = Inl json_type_error"

text \<open>Update of one field: the decoded value is stored with \<open>upd\<close>.\<close>

definition store :: "'v result \<Rightarrow> ('v \<Rightarrow> 'a) \<Rightarrow> 'a result" where
  "store r upd = (case r of Inl e \<Rightarrow> Inl e | Inr v \<Rightarrow> Inr (upd v))"

lemma store_simps [simp]: "store (Inr v) upd = Inr (upd v)" "store (Inl e) upd = Inl e"
  by (simp_all add: store_def)

lemma store_Inr_iff: "store r upd = Inr x \<longleftrightarrow> (\<exists>v. r = Inr v \<and> x = upd v)"
  by (cases r) auto

lemma into_members_append: "into_members f (xs @ ys) st = (case into_members f xs st of Inl e \<Rightarrow> Inl e | Inr st' \<Rightarrow> into_members f ys st')"
  by (induction xs arbitrary: st) (auto split: sum.splits)

lemma into_strings_JStr [simp]: "into_list (\<lambda>v. into_string v []) (map JStr ss) = Inr ss"
  by (induction ss) auto

text \<open>What a member update leaves alone is left alone by the whole object.\<close>

lemma into_members_keeps:
  assumes "\<And>k v st st'. f k v st = Inr st' \<Longrightarrow> g st' = g st"
  shows "into_members f kvs st = Inr st' \<Longrightarrow> g st' = g st"
  using assms by (induction kvs arbitrary: st) (auto split: sum.splits)

lemma into_struct_keeps:
  assumes "\<And>k v st st'. f k v st = Inr st' \<Longrightarrow> g st' = g st"
  shows "into_struct f j st = Inr st' \<Longrightarrow> g st' = g st"
  using into_members_keeps [of f g, OF assms] by (cases j) auto

lemma map_of_update: "map_of (AList.update k v m) = (map_of m)(k \<mapsto> v)"
  by (simp add: update_conv')

lemma json_object_map_lookup: "map_of (json_object_map m kvs) k =
    (case map_of (rev kvs) k of None \<Rightarrow> map_of m k | Some v \<Rightarrow> Some v)"
  by (induction kvs arbitrary: m)
     (auto simp: map_of_update map_add_def split: option.splits)

lemma json_object_map_distinct:
  "distinct (map fst m) \<Longrightarrow> distinct (map fst (json_object_map m kvs))"
  by (induction kvs arbitrary: m) (auto simp: distinct_update)

end
