(* ===== verification/Rar.thy ===== *)
theory Rar
  imports Json "HOL-Library.List_Lexorder" "HOL-Library.Char_ord"
begin

text \<open>
  Rich authorization requests (\<^verbatim>\<open>pkg/core/rar/types.go\<close>): the \<^verbatim>\<open>authorization_details\<close>
  elements of a token with their JSON form, and the policy-side filters.  A Go map that is
  iterated or printed is an association list with one entry per key; a \<^verbatim>\<open>json.RawMessage\<close>
  is the JSON value it denotes.
\<close>

section \<open>Authorization details\<close>

record AuthorizationDetail =
  ad_Type :: string
  ad_Fields :: "(string \<times> json) list"

definition AuthorizationDetail_UnmarshalJSON :: "json \<Rightarrow> AuthorizationDetail result" where
  "AuthorizationDetail_UnmarshalJSON data =
     (let missing = Errorf (''authorization_detail missing required field '' @ Quote ''type'') in
      case (case data of JObj kvs \<Rightarrow> Some (json_object_map [] kvs)
              | JNull \<Rightarrow> Some [] | _ \<Rightarrow> None) of
        None \<Rightarrow> Inl (Wrapf ''authorization_detail must be a JSON object: '' json_type_error)
      | Some raw \<Rightarrow>
         (case map_of raw ''type'' of None \<Rightarrow> Inl missing
          | Some t \<Rightarrow> (case into_string t [] of
               Inl e \<Rightarrow> Inl (Wrapf (''authorization_detail '' @ Quote ''type'' @ '' must be a string: '') e)
             | Inr ty \<Rightarrow> Inr \<lparr>ad_Type = ty, ad_Fields = raw\<rparr>)))"

definition AuthorizationDetail_MarshalJSON :: "AuthorizationDetail \<Rightarrow> json" where
  "AuthorizationDetail_MarshalJSON a =
     JObj (sort_key fst (AList.update ''type'' (JStr (ad_Type a)) (ad_Fields a)))"

definition GetStringSlice :: "AuthorizationDetail \<Rightarrow> string \<Rightarrow> string list" where
  "GetStringSlice a field = (case map_of (ad_Fields a) field of None \<Rightarrow> []
     | Some raw \<Rightarrow> (case into_strings raw of Inl _ \<Rightarrow> [] | Inr out \<Rightarrow> out))"

definition GetString :: "AuthorizationDetail \<Rightarrow> string \<Rightarrow> string option" where
  "GetString a field = (case map_of (ad_Fields a) field of None \<Rightarrow> None
     | Some raw \<Rightarrow> (case into_string raw [] of Inl _ \<Rightarrow> None | Inr s \<Rightarrow> Some s))"

section \<open>Filters\<close>

record AuthorizationDetailFilter =
  fl_Type :: string
  fl_Actions :: "string list"
  fl_Fields :: "(string \<times> string) list"

fun all_actions :: "string list \<Rightarrow> string list \<Rightarrow> bool" where
  "all_actions tokenActions [] = True"
| "all_actions tokenActions (required # rs) =
     (if \<not> containsString tokenActions required then False else all_actions tokenActions rs)"

fun all_fields :: "AuthorizationDetail \<Rightarrow> (string \<times> string) list \<Rightarrow> bool" where
  "all_fields detail [] = True"
| "all_fields detail (kv # kvs) =
     (if GetString detail (fst kv) \<noteq> Some (snd kv) then False else all_fields detail kvs)"

definition Satisfies :: "AuthorizationDetailFilter \<Rightarrow> AuthorizationDetail \<Rightarrow> bool" where
  "Satisfies f detail =
     (if ad_Type detail \<noteq> fl_Type f then False
      else if fl_Actions f \<noteq> [] \<and> \<not> all_actions (GetStringSlice detail ''actions'') (fl_Actions f)
      then False
      else all_fields detail (fl_Fields f))"

fun satisfied_by_any :: "AuthorizationDetailFilter \<Rightarrow> AuthorizationDetail list \<Rightarrow> bool" where
  "satisfied_by_any f [] = False"
| "satisfied_by_any f (d # ds) = (if Satisfies f d then True else satisfied_by_any f ds)"

definition missing_filter :: "AuthorizationDetailFilter \<Rightarrow> string" where
  "missing_filter f = ''no authorization_detail satisfies type='' @ Quote (fl_Type f)"

fun MatchAll :: "AuthorizationDetailFilter list \<Rightarrow> AuthorizationDetail list \<Rightarrow> bool \<times> string" where
  "MatchAll [] details = (True, [])"
| "MatchAll (f # fs) details =
     (if \<not> satisfied_by_any f details
      then (False, missing_filter f)
      else MatchAll fs details)"

section \<open>Properties\<close>

lemma all_actions_iff [simp]: "all_actions ts rs \<longleftrightarrow> set rs \<subseteq> set ts"
  by (induction rs) auto

lemma all_fields_iff [simp]:
  "all_fields d kvs \<longleftrightarrow> (\<forall>(k, v) \<in> set kvs. GetString d k = Some v)"
  by (induction kvs) auto

lemma Satisfies_iff: "Satisfies f d \<longleftrightarrow> ad_Type d = fl_Type f
    \<and> set (fl_Actions f) \<subseteq> set (GetStringSlice d ''actions'')
    \<and> (\<forall>(k, v) \<in> set (fl_Fields f). GetString d k = Some v)"
  by (auto simp: Satisfies_def)

lemma satisfied_by_any_iff [simp]: "satisfied_by_any f ds \<longleftrightarrow> (\<exists>d \<in> set ds. Satisfies f d)"
  by (induction ds) auto

lemma MatchAll_iff: "fst (MatchAll fs ds) \<longleftrightarrow> (\<forall>f \<in> set fs. \<exists>d \<in> set ds. Satisfies f d)"
  by (induction fs) auto

lemma MatchAll_missing:
  "\<not> fst (MatchAll fs ds) \<Longrightarrow>
   \<exists>us f vs. fs = us @ f # vs \<and> (\<forall>u \<in> set us. \<exists>d \<in> set ds. Satisfies u d)
     \<and> (\<forall>d \<in> set ds. \<not> Satisfies f d)
     \<and> snd (MatchAll fs ds) = missing_filter f"
proof (induction fs)
  case (Cons f fs)
  show ?case
  proof (cases "satisfied_by_any f ds")
    case True
    then have "MatchAll (f # fs) ds = MatchAll fs ds" by simp
    with Cons obtain us g vs where "fs = us @ g # vs"
      "\<forall>u \<in> set us. \<exists>d \<in> set ds. Satisfies u d" "\<forall>d \<in> set ds. \<not> Satisfies g d"
      "snd (MatchAll (f # fs) ds) = missing_filter g"
      by (metis (no_types, lifting))
    with True show ?thesis
      by (intro exI [of _ "f # us"] exI [of _ g] exI [of _ vs]) (simp del: MatchAll.simps)
  next
    case False
    then show ?thesis by (intro exI [of _ "[]"] exI [of _ f] exI [of _ fs]) simp
  qed
qed simp

text \<open>A token with more details is never authorized for less.\<close>

lemma MatchAll_mono:
  "set ds \<subseteq> set ds' \<Longrightarrow> fst (MatchAll fs ds) \<Longrightarrow> fst (MatchAll fs ds')"
  unfolding MatchAll_iff by blast

lemma map_of_sort_key: "distinct (map fst m) \<Longrightarrow> map_of (sort_key fst m) = map_of m"
  by (rule map_of_inject_set [THEN iffD2]) (auto simp: distinct_map inj_on_def)

lemma json_object_map_id:
  "distinct (map fst kvs) \<Longrightarrow> map_of (json_object_map [] kvs) = map_of kvs"
proof
  fix k assume "distinct (map fst kvs)"
  then have "map_of (rev kvs) = map_of kvs"
    by (intro map_of_inject_set [THEN iffD2]) (simp_all add: rev_map [symmetric])
  then show "map_of (json_object_map [] kvs) k = map_of kvs k"
    by (simp add: json_object_map_lookup split: option.splits)
qed

end
