(* ===== verification/Policy.thy ===== *)
theory Policy
  imports Go_Path Rar
begin

text \<open>
  The policy engine (\<^verbatim>\<open>pkg/core/policy\<close>): the data model of \<^verbatim>\<open>types.go\<close>, the matchers of
  \<^verbatim>\<open>matcher.go\<close>, first-match evaluation with fail-closed checks of \<^verbatim>\<open>engine.go\<close>, and
  loading with validation of \<^verbatim>\<open>loader.go\<close>, whose YAML reader is a parameter.  What a
  configuration means is stated twice: \<open>permits\<close> is the declarative reading of the code and
  \<open>documented_permits\<close> that of \<^verbatim>\<open>docs/policy-configuration.md\<close>; the properties relate the
  engine to the documentation and say where the two differ.
\<close>

section \<open>Data model (types.go)\<close>

record Policy =
  pol_Name :: string
  pol_Resources :: "string list"
  pol_Methods :: "string list"
  pol_RequireACR :: string
  pol_MaxAge :: int
  pol_RequireMFA :: bool
  pol_RequireScopes :: "string list"
  pol_RequireAuthorizationDetails :: "AuthorizationDetailFilter list"
  pol_Enabled :: bool

record Config =
  cfg_Version :: string
  cfg_Realm :: string
  cfg_Policies :: "Policy list"
  cfg_ACRLevels :: "string list"

record PolicyRequest =
  pr_Method :: string
  pr_Path :: string
  pr_TokenACR :: string
  pr_TokenAMR :: "string list"
  pr_TokenScopes :: "string list"
  pr_AuthAge :: duration
  pr_AuthorizationDetails :: "AuthorizationDetail list"

record PolicyResult =
  res_Allowed :: bool
  res_MatchedPolicy :: "Policy option"
  res_RequiredACR :: string
  res_RequiredMaxAge :: int
  res_Reason :: string

section \<open>Matchers (matcher.go)\<close>

definition MatchResource :: "string \<Rightarrow> string \<Rightarrow> bool" where
  "MatchResource pattern0 requestPath0 =
     (let pattern = TrimRight pattern0 (CHR ''/'');
          requestPath = TrimRight requestPath0 (CHR ''/'')
      in if pattern = [] \<or> requestPath = [] then pattern = requestPath
         else if Contains pattern ''**'' then
           (let prefix = TrimRight (hd (SplitN2 pattern ''**'')) (CHR ''/'')
            in if prefix = [] then True
               else requestPath = prefix \<or> HasPrefix requestPath (prefix @ ''/''))
         else (case path_Match pattern requestPath of Inl _ \<Rightarrow> False | Inr matched \<Rightarrow> matched))"

fun method_in :: "string list \<Rightarrow> string \<Rightarrow> bool" where
  "method_in [] rm = False"
| "method_in (m # ms) rm = (if ToUpper m = rm then True else method_in ms rm)"

definition MatchMethod :: "string list \<Rightarrow> string \<Rightarrow> bool" where
  "MatchMethod policyMethods requestMethod =
     (if policyMethods = [] then True else method_in policyMethods (ToUpper requestMethod))"

text \<open>\<^verbatim>\<open>indexOf\<close> returns -1 when the value is absent.\<close>

fun index_from :: "int \<Rightarrow> string list \<Rightarrow> string \<Rightarrow> int" where
  "index_from i [] val = - 1"
| "index_from i (v # vs) val = (if v = val then i else index_from (i + 1) vs val)"

definition indexOf :: "string list \<Rightarrow> string \<Rightarrow> int" where
  "indexOf slice val = index_from 0 slice val"

definition ACRSatisfies :: "string \<Rightarrow> string \<Rightarrow> string list \<Rightarrow> bool" where
  "ACRSatisfies provided required hierarchy =
     (if provided = required then True
      else if hierarchy = [] then False
      else (let providedIdx = indexOf hierarchy provided;
                requiredIdx = indexOf hierarchy required
            in if providedIdx < 0 \<or> requiredIdx < 0 then provided = required
               else requiredIdx \<le> providedIdx))"

section \<open>Evaluation (engine.go)\<close>

record Engine =
  eng_config :: "Config option"

definition Engine_New :: "Config option \<Rightarrow> Engine" where
  "Engine_New cfg = \<lparr>eng_config = cfg\<rparr>"

fun resource_in :: "string list \<Rightarrow> string \<Rightarrow> bool" where
  "resource_in [] path = False"
| "resource_in (r # rs) path = (if MatchResource r path then True else resource_in rs path)"

definition matchesPolicy :: "Policy \<Rightarrow> PolicyRequest \<Rightarrow> bool" where
  "matchesPolicy p req =
     (if \<not> MatchMethod (pol_Methods p) (pr_Method req) then False
      else resource_in (pol_Resources p) (pr_Path req))"

fun first_missing :: "string list \<Rightarrow> string list \<Rightarrow> string option" where
  "first_missing have_scopes [] = None"
| "first_missing have_scopes (scope # ss) =
     (if \<not> containsString have_scopes scope then Some scope else first_missing have_scopes ss)"

text \<open>The messages of \<^verbatim>\<open>check\<close>.\<close>

definition reason_scope :: "string \<Rightarrow> string" where
  "reason_scope scope = ''missing required scope: '' @ scope"

definition reason_acr :: "string \<Rightarrow> string \<Rightarrow> string" where
  "reason_acr provided required =
     ''ACR '' @ Quote provided @ '' does not satisfy required '' @ Quote required"

definition reason_no_auth_time :: string where
  "reason_no_auth_time = ''policy requires max_age but token has no auth_time claim''"

definition reason_too_old :: "duration \<Rightarrow> duration \<Rightarrow> string" where
  "reason_too_old age maxAge = ''authentication is '' @ Duration_String (Round_Second age)
     @ '' old, max allowed is '' @ Duration_String maxAge"

definition reason_mfa :: string where
  "reason_mfa = ''MFA authentication method required''"

definition reason_details :: "string \<Rightarrow> string" where
  "reason_details missing = ''authorization_details insufficient: '' @ missing"

definition check :: "Config \<Rightarrow> Policy \<Rightarrow> PolicyRequest \<Rightarrow> PolicyResult" where
  "check config p req =
     (let result = \<lparr>res_Allowed = False, res_MatchedPolicy = Some p,
                    res_RequiredACR = pol_RequireACR p, res_RequiredMaxAge = pol_MaxAge p,
                    res_Reason = []\<rparr>;
          maxAge = wrap64 (pol_MaxAge p * Second);
          rar = MatchAll (pol_RequireAuthorizationDetails p) (pr_AuthorizationDetails req)
      in case first_missing (pr_TokenScopes req) (pol_RequireScopes p) of
           Some scope \<Rightarrow> result\<lparr>res_Reason := reason_scope scope\<rparr>
         | None \<Rightarrow>
           if pol_RequireACR p \<noteq> []
              \<and> \<not> ACRSatisfies (pr_TokenACR req) (pol_RequireACR p) (cfg_ACRLevels config)
           then result\<lparr>res_Reason := reason_acr (pr_TokenACR req) (pol_RequireACR p)\<rparr>
           else if 0 < pol_MaxAge p \<and> pr_AuthAge req \<le> 0
           then result\<lparr>res_Reason := reason_no_auth_time\<rparr>
           else if 0 < pol_MaxAge p \<and> maxAge < pr_AuthAge req
           then result\<lparr>res_Reason := reason_too_old (pr_AuthAge req) maxAge\<rparr>
           else if pol_RequireMFA p \<and> \<not> containsString (pr_TokenAMR req) ''mfa''
              \<and> \<not> containsString (pr_TokenAMR req) ''otp'' \<and> \<not> containsString (pr_TokenAMR req) ''hwk''
           then result\<lparr>res_Reason := reason_mfa\<rparr>
           else if pol_RequireAuthorizationDetails p \<noteq> [] \<and> \<not> fst rar
           then result\<lparr>res_Reason := reason_details (snd rar)\<rparr>
           else result\<lparr>res_Allowed := True\<rparr>)"

definition denied :: "string \<Rightarrow> PolicyResult" where
  "denied reason = \<lparr>res_Allowed = False, res_MatchedPolicy = None, res_RequiredACR = [],
     res_RequiredMaxAge = 0, res_Reason = reason\<rparr>"

fun evaluate_policies :: "Config \<Rightarrow> Policy list \<Rightarrow> PolicyRequest \<Rightarrow> PolicyResult" where
  "evaluate_policies config [] req = denied ''no matching policy''"
| "evaluate_policies config (p # ps) req =
     (if \<not> pol_Enabled p then evaluate_policies config ps req
      else if \<not> matchesPolicy p req then evaluate_policies config ps req
      else check config p req)"

text \<open>\<^verbatim>\<open>Evaluate\<close> never returns an error.\<close>

definition Evaluate :: "Engine \<Rightarrow> PolicyRequest \<Rightarrow> PolicyResult result" where
  "Evaluate e req = (case eng_config e of
       None \<Rightarrow> Inr (denied ''no policy config loaded'')
     | Some config \<Rightarrow> Inr (evaluate_policies config (cfg_Policies config) req))"

definition Reload :: "Engine \<Rightarrow> Config option \<Rightarrow> Engine" where
  "Reload e cfg = e\<lparr>eng_config := cfg\<rparr>"

definition summary_line :: "Policy \<Rightarrow> string" where
  "summary_line p = ''  - '' @ pol_Name p @ '' ['' @ (if pol_Enabled p then ''enabled'' else ''disabled'')
     @ '']: resources=['' @ Join (pol_Resources p) '' '' @ ''] require_acr='' @ pol_RequireACR p
     @ [char_of (10 :: nat)]"

definition Summary :: "Engine \<Rightarrow> string" where
  "Summary e = (case eng_config e of None \<Rightarrow> ''no policies loaded''
     | Some c \<Rightarrow> ''realm='' @ cfg_Realm c @ '', policies='' @ show_nat (length (cfg_Policies c))
         @ '', acr_levels='' @ show_nat (length (cfg_ACRLevels c)) @ [char_of (10 :: nat)]
         @ concat (map summary_line (cfg_Policies c)))"

section \<open>Loading (loader.go)\<close>

fun validate_from :: "nat \<Rightarrow> Policy list \<Rightarrow> error option" where
  "validate_from i [] = None"
| "validate_from i (p # ps) =
     (if pol_Resources p = []
      then Some (Errorf (''policy['' @ show_nat i @ ''] '' @ Quote (pol_Name p)
                         @ '': resources must not be empty''))
      else validate_from (Suc i) ps)"

definition validate :: "Config \<Rightarrow> error option" where
  "validate cfg = validate_from 0 (cfg_Policies cfg)"

text \<open>The YAML reader (\<^verbatim>\<open>gopkg.in/yaml.v3\<close>) is the parameter \<open>unmarshal\<close>.\<close>

definition LoadFromBytes :: "(string \<Rightarrow> Config result) \<Rightarrow> string \<Rightarrow> Config result" where
  "LoadFromBytes unmarshal data = (case unmarshal data of
       Inl e \<Rightarrow> Inl (Wrapf ''parsing policy YAML: '' e)
     | Inr cfg \<Rightarrow> (case validate cfg of
           Some e \<Rightarrow> Inl (Wrapf ''invalid policy config: '' e) | None \<Rightarrow> Inr cfg))"

definition LoadFromFile ::
  "(string \<Rightarrow> string result) \<Rightarrow> (string \<Rightarrow> Config result) \<Rightarrow> string \<Rightarrow> Config result" where
  "LoadFromFile readFile unmarshal path = (case readFile path of
       Inl e \<Rightarrow> Inl (Wrapf (''reading policy file '' @ path @ '': '') e)
     | Inr data \<Rightarrow> LoadFromBytes unmarshal data)"

section \<open>Lemmas on the matchers\<close>

lemma method_in_iff [simp]: "method_in ms rm \<longleftrightarrow> rm \<in> ToUpper ` set ms"
  by (induction ms) auto

lemma resource_in_iff [simp]: "resource_in rs path \<longleftrightarrow> (\<exists>r \<in> set rs. MatchResource r path)"
  by (induction rs) auto

lemma matchesPolicy_iff: "matchesPolicy p req \<longleftrightarrow> MatchMethod (pol_Methods p) (pr_Method req)
    \<and> (\<exists>r \<in> set (pol_Resources p). MatchResource r (pr_Path req))"
  by (simp add: matchesPolicy_def)

lemma first_missing_None: "first_missing sc rs = None \<longleftrightarrow> set rs \<subseteq> set sc"
  by (induction rs) auto

lemma first_missing_SomeD: "first_missing sc rs = Some s \<Longrightarrow> s \<in> set rs \<and> s \<notin> set sc"
  by (induction rs) (auto split: if_splits)

text \<open>The rank of a level is the position of its first occurrence.\<close>

definition position :: "string list \<Rightarrow> string \<Rightarrow> nat" where
  "position h a = length (takeWhile (\<lambda>x. x \<noteq> a) h)"

lemma index_from_eq:
  "index_from i h a = (if a \<in> set h then i + int (position h a) else - 1)"
  by (induction h arbitrary: i) (auto simp: position_def)

lemma ACRSatisfies_iff: "ACRSatisfies p r h \<longleftrightarrow>
    p = r \<or> p \<in> set h \<and> r \<in> set h \<and> position h r \<le> position h p"
  by (auto simp: ACRSatisfies_def indexOf_def index_from_eq Let_def)

lemma ACRSatisfies_trans:
  "ACRSatisfies a b h \<Longrightarrow> ACRSatisfies b c h \<Longrightarrow> ACRSatisfies a c h"
  by (auto simp: ACRSatisfies_iff)

lemma Index_double_star: "CHR ''*'' \<notin> set a \<Longrightarrow> Index (a @ ''**'' @ b) ''**'' = Some (length a)"
  by (induction a) auto

lemma TrimRight_append_slash: "TrimRight (s @ ''/'') (CHR ''/'') = TrimRight s (CHR ''/'')"
  by simp

lemma MatchResource_double_star:
  assumes q: "q \<noteq> []" "last q \<noteq> CHR ''/''" "CHR ''*'' \<notin> set q"
    and suf: "suf = [] \<or> last suf \<noteq> CHR ''/''"
    and path: "TrimRight path (CHR ''/'') \<noteq> []"
  shows "MatchResource (q @ ''/**'' @ suf) path \<longleftrightarrow> TrimRight path (CHR ''/'') = q
      \<or> HasPrefix (TrimRight path (CHR ''/'')) (q @ ''/'')"
proof -
  let ?pat = "q @ ''/**'' @ suf"
  have t: "TrimRight ?pat (CHR ''/'') = ?pat"
    using suf by (intro TrimRight_id) (cases suf, auto)
  have i: "Index ?pat ''**'' = Some (length q + 1)"
    using Index_double_star [of "q @ ''/''" suf] q(3) by simp
  have "TrimRight (take (length q + 1) ?pat) (CHR ''/'') = q"
    using q TrimRight_append_slash [of q] by (simp add: TrimRight_id)
  with q path i t show ?thesis
    by (simp add: MatchResource_def Contains_def SplitN2_def Let_def)
qed



section \<open>The engine against its declarative reading\<close>

definition meets :: "Config \<Rightarrow> Policy \<Rightarrow> PolicyRequest \<Rightarrow> bool" where
  "meets c p req \<longleftrightarrow>
     set (pol_RequireScopes p) \<subseteq> set (pr_TokenScopes req)
   \<and> (pol_RequireACR p \<noteq> [] \<longrightarrow> ACRSatisfies (pr_TokenACR req) (pol_RequireACR p) (cfg_ACRLevels c))
   \<and> (0 < pol_MaxAge p \<longrightarrow> 0 < pr_AuthAge req \<and> pr_AuthAge req \<le> pol_MaxAge p * Second)
   \<and> (pol_RequireMFA p \<longrightarrow> set (pr_TokenAMR req) \<inter> {''mfa'', ''otp'', ''hwk''} \<noteq> {})
   \<and> (\<forall>f \<in> set (pol_RequireAuthorizationDetails p).
        \<exists>d \<in> set (pr_AuthorizationDetails req). Satisfies f d)"

definition governing :: "Policy list \<Rightarrow> PolicyRequest \<Rightarrow> Policy option" where
  "governing ps req = List.find (\<lambda>p. pol_Enabled p \<and> matchesPolicy p req) ps"

definition permits :: "Config \<Rightarrow> PolicyRequest \<Rightarrow> bool" where
  "permits c req = (case governing (cfg_Policies c) req of None \<Rightarrow> False | Some p \<Rightarrow> meets c p req)"






lemma evaluate_policies_eq: "evaluate_policies c ps req =
    (case governing ps req of None \<Rightarrow> denied ''no matching policy'' | Some p \<Rightarrow> check c p req)"
  by (induction ps) (simp_all add: governing_def)

lemma check_fields [simp]:
  "res_MatchedPolicy (check c p req) = Some p"
  "res_RequiredACR (check c p req) = pol_RequireACR p"
  "res_RequiredMaxAge (check c p req) = pol_MaxAge p"
  by (cases "first_missing (pr_TokenScopes req) (pol_RequireScopes p)"; simp add: check_def Let_def)+

lemma check_allowed: "res_Allowed (check c p req) \<longleftrightarrow>
    set (pol_RequireScopes p) \<subseteq> set (pr_TokenScopes req)
   \<and> (pol_RequireACR p \<noteq> [] \<longrightarrow> ACRSatisfies (pr_TokenACR req) (pol_RequireACR p) (cfg_ACRLevels c))
   \<and> (0 < pol_MaxAge p \<longrightarrow> 0 < pr_AuthAge req \<and> pr_AuthAge req \<le> wrap64 (pol_MaxAge p * Second))
   \<and> (pol_RequireMFA p \<longrightarrow> set (pr_TokenAMR req) \<inter> {''mfa'', ''otp'', ''hwk''} \<noteq> {})
   \<and> (\<forall>f \<in> set (pol_RequireAuthorizationDetails p).
        \<exists>d \<in> set (pr_AuthorizationDetails req). Satisfies f d)"
proof (cases "first_missing (pr_TokenScopes req) (pol_RequireScopes p)")
  case None
  have sc: "set (pol_RequireScopes p) \<subseteq> set (pr_TokenScopes req)"
    using None by (simp add: first_missing_None)
  have mfa: "set (pr_TokenAMR req) \<inter> {''mfa'', ''otp'', ''hwk''} \<noteq> {} \<longleftrightarrow>
    ''mfa'' \<in> set (pr_TokenAMR req) \<or> ''otp'' \<in> set (pr_TokenAMR req) \<or> ''hwk'' \<in> set (pr_TokenAMR req)"
    by blast
  show ?thesis unfolding mfa
    by (simp add: check_def Let_def None sc MatchAll_iff not_less not_le)
next
  case (Some s)
  then have "\<not> set (pol_RequireScopes p) \<subseteq> set (pr_TokenScopes req)"
    by (auto dest: first_missing_SomeD)
  with Some show ?thesis by (simp add: check_def Let_def)
qed

lemma check_allowed_meets: "res_Allowed (check c p req) \<Longrightarrow> meets c p req"
  using wrap64_le [of "pol_MaxAge p * Second"] by (auto simp: check_allowed meets_def)

lemma meets_check_allowed:
  assumes "pol_MaxAge p * Second \<le> max_int64" "meets c p req"
  shows "res_Allowed (check c p req)"
proof -
  have "wrap64 (pol_MaxAge p * Second) = pol_MaxAge p * Second" if "0 < pol_MaxAge p"
    using assms(1) that by (intro wrap64_id) (simp add: int64_def)
  with assms(2) show ?thesis unfolding check_allowed meets_def by simp
qed

lemma check_denied_reason: "\<not> res_Allowed (check c p req) \<Longrightarrow> res_Reason (check c p req) \<noteq> []"
proof -
  have ne: "reason_scope a \<noteq> []" "reason_acr a b \<noteq> []" "reason_no_auth_time \<noteq> []" "reason_too_old i j \<noteq> []"
    "reason_mfa \<noteq> []" "reason_details a \<noteq> []" for a b i j
    by (simp_all add: reason_scope_def reason_acr_def reason_no_auth_time_def
      reason_too_old_def reason_mfa_def reason_details_def)
  show "\<not> res_Allowed (check c p req) \<Longrightarrow> res_Reason (check c p req) \<noteq> []"
    by (simp add: check_def Let_def ne split: option.splits if_splits)
qed


lemma validate_None: "validate cfg = None \<longleftrightarrow> (\<forall>p \<in> set (cfg_Policies cfg). pol_Resources p \<noteq> [])"
proof -
  have "validate_from i ps = None \<longleftrightarrow> (\<forall>p \<in> set ps. pol_Resources p \<noteq> [])" for i ps
    by (induction ps arbitrary: i) auto
  then show ?thesis by (simp add: validate_def)
qed


lemma governing_cong:
  "pr_Method req' = pr_Method req \<Longrightarrow> pr_Path req' = pr_Path req \<Longrightarrow> governing ps req' = governing ps req"
  by (simp add: governing_def matchesPolicy_def)

lemma Evaluate_total: "\<exists>r. Evaluate e req = Inr r"
  by (simp add: Evaluate_def split: option.splits)

lemma Evaluate_not_Inl [simp]: "Evaluate e req \<noteq> Inl err"
  using Evaluate_total [of e req] by auto

lemma Evaluate_allowedD:
  assumes "Evaluate e req = Inr r" "res_Allowed r"
  obtains c where "eng_config e = Some c" "permits c req"
  using assms
  by (auto simp: Evaluate_def evaluate_policies_eq denied_def permits_def check_allowed_meets split: option.splits)

section \<open>Properties\<close>


definition wit_policy :: Policy where
  "wit_policy = \<lparr>pol_Name = ''pay'', pol_Resources = [''/api/**''], pol_Methods = [''POST''],
     pol_RequireACR = ''silver'', pol_MaxAge = 300, pol_RequireMFA = True,
     pol_RequireScopes = [''openid''], pol_RequireAuthorizationDetails = [], pol_Enabled = True\<rparr>"

definition wit_config :: Config where
  "wit_config = \<lparr>cfg_Version = ''1'', cfg_Realm = ''r'', cfg_Policies = [wit_policy],
     cfg_ACRLevels = [''bronze'', ''silver'', ''gold'']\<rparr>"

definition wit_req :: PolicyRequest where
  "wit_req = \<lparr>pr_Method = ''post'', pr_Path = ''/api/pay'', pr_TokenACR = ''gold'',
     pr_TokenAMR = [''otp''], pr_TokenScopes = [''openid''], pr_AuthAge = 5 * Second,
     pr_AuthorizationDetails = []\<rparr>"

lemma wit_matches: "matchesPolicy wit_policy wit_req"
  by code_simp

lemma wit_governing: "governing [wit_policy] wit_req = Some wit_policy"
  using wit_matches by (simp add: governing_def) (simp add: wit_policy_def)

lemma wit_meets: "meets wit_config wit_policy wit_req"
  by (simp add: meets_def wit_config_def wit_policy_def wit_req_def ACRSatisfies_iff position_def)

lemma wit_allowed: "res_Allowed (check wit_config wit_policy wit_req)"
  by (rule meets_check_allowed [OF _ wit_meets]) (simp add: wit_policy_def)

lemma wit_Evaluate: "Evaluate (Engine_New (Some wit_config)) wit_req = Inr (check wit_config wit_policy wit_req)"
  by (simp add: Evaluate_def Engine_New_def wit_config_def evaluate_policies_eq wit_governing)





text \<open>Default deny.  A request that no enabled policy matches is denied, with no policy, no
  ACR hint and the reason given, whatever the token holds.\<close>

lemma Evaluate_default_deny:
  assumes "governing (cfg_Policies c) req = None"
  shows "Evaluate (Engine_New (Some c)) req = Inr (denied ''no matching policy'')
     \<and> \<not> res_Allowed (denied ''no matching policy'')"
  using assms by (simp add: Evaluate_def Engine_New_def evaluate_policies_eq denied_def)

theorem Evaluate_default_deny_witness:
  "Evaluate (Engine_New (Some (wit_config\<lparr>cfg_Policies := []\<rparr>))) wit_req = Inr (denied ''no matching policy'')"
  using Evaluate_default_deny [of "wit_config\<lparr>cfg_Policies := []\<rparr>" wit_req] by (simp add: governing_def)

text \<open>A denial always says why and, when a policy governs the request, carries exactly that
  policy's ACR and \<^verbatim>\<open>max_age\<close>, which become the hints of the step-up challenge.\<close>

lemma Evaluate_denial_hints:
  assumes "Evaluate (Engine_New (Some c)) req = Inr r" "\<not> res_Allowed r"
  shows "res_Reason r \<noteq> [] \<and> (case governing (cfg_Policies c) req of
      None \<Rightarrow> res_RequiredACR r = [] \<and> res_RequiredMaxAge r = 0
    | Some p \<Rightarrow> res_RequiredACR r = pol_RequireACR p \<and> res_RequiredMaxAge r = pol_MaxAge p)"
  using assms check_denied_reason
  by (auto simp: Evaluate_def Engine_New_def evaluate_policies_eq denied_def split: option.splits)

theorem Evaluate_denial_hints_witness:
  "res_Reason (denied ''no matching policy'') \<noteq> []"
  using Evaluate_denial_hints [of "wit_config\<lparr>cfg_Policies := []\<rparr>" wit_req "denied ''no matching policy''"]
  by (simp add: Evaluate_def Engine_New_def denied_def)

text \<open>C37: assurance is monotone.  A token that was allowed stays allowed for the same method and
  path when its ACR is raised within the hierarchy, its authentication is more recent (but
  still known), and scopes, authentication methods and details are only added.\<close>

theorem Evaluate_monotone:
  assumes "Evaluate e req = Inr r" "res_Allowed r" and "Evaluate e req' = Inr r'"
    and "pr_Method req' = pr_Method req" "pr_Path req' = pr_Path req"
    and "\<And>c. eng_config e = Some c \<Longrightarrow> ACRSatisfies (pr_TokenACR req') (pr_TokenACR req) (cfg_ACRLevels c)"
    and "0 < pr_AuthAge req'" "pr_AuthAge req' \<le> pr_AuthAge req"
    and "set (pr_TokenAMR req) \<subseteq> set (pr_TokenAMR req')"
    and "set (pr_TokenScopes req) \<subseteq> set (pr_TokenScopes req')"
    and "set (pr_AuthorizationDetails req) \<subseteq> set (pr_AuthorizationDetails req')"
  shows "res_Allowed r'"
proof -
  from assms(1,2) obtain c p where c: "eng_config e = Some c" and g: "governing (cfg_Policies c) req = Some p"
    and ok: "res_Allowed (check c p req)"
    by (auto simp: Evaluate_def evaluate_policies_eq denied_def split: option.splits)
  have "governing (cfg_Policies c) req' = Some p" using g governing_cong assms(4,5) by metis
  with c assms(3) have "r' = check c p req'" by (simp add: Evaluate_def evaluate_policies_eq)
  moreover have "pol_RequireACR p \<noteq> [] \<longrightarrow> ACRSatisfies (pr_TokenACR req') (pol_RequireACR p) (cfg_ACRLevels c)"
    using ok assms(6) [OF c] ACRSatisfies_trans unfolding check_allowed by blast
  moreover have "set (pol_RequireScopes p) \<subseteq> set (pr_TokenScopes req')"
    using ok assms(10) unfolding check_allowed by (meson order_trans)
  moreover have "0 < pol_MaxAge p \<longrightarrow> 0 < pr_AuthAge req' \<and> pr_AuthAge req' \<le> wrap64 (pol_MaxAge p * Second)"
    using ok assms(7,8) unfolding check_allowed by (meson order_trans)
  moreover have "pol_RequireMFA p \<longrightarrow> set (pr_TokenAMR req') \<inter> {''mfa'', ''otp'', ''hwk''} \<noteq> {}"
    using ok Int_mono [OF assms(9) order_refl, of "{''mfa'', ''otp'', ''hwk''}"]
    unfolding check_allowed by (metis subset_empty)
  moreover have "\<forall>f \<in> set (pol_RequireAuthorizationDetails p).
      \<exists>d \<in> set (pr_AuthorizationDetails req'). Satisfies f d"
    using ok assms(11) unfolding check_allowed by (meson subsetD)
  ultimately show ?thesis by (simp add: check_allowed)
qed

theorem Evaluate_monotone_witness:
  "res_Allowed (check wit_config wit_policy (wit_req\<lparr>pr_AuthAge := Second\<rparr>))"
proof (rule Evaluate_monotone [OF wit_Evaluate wit_allowed])
  show "Evaluate (Engine_New (Some wit_config)) (wit_req\<lparr>pr_AuthAge := Second\<rparr>)
      = Inr (check wit_config wit_policy (wit_req\<lparr>pr_AuthAge := Second\<rparr>))"
    using wit_governing governing_cong [of "wit_req\<lparr>pr_AuthAge := Second\<rparr>" wit_req]
    by (simp add: Evaluate_def Engine_New_def wit_config_def evaluate_policies_eq)
qed (simp_all add: wit_req_def ACRSatisfies_def)

text \<open>A \<^verbatim>\<open>/**\<close> pattern respects segment boundaries: it matches its base path and the paths
  below it, and nothing else (so \<^verbatim>\<open>/api/**\<close> does not match \<^verbatim>\<open>/api-internal/x\<close>).\<close>

lemma MatchResource_subtree:
  assumes "q \<noteq> []" "last q \<noteq> CHR ''/''" "CHR ''*'' \<notin> set q"
    and "TrimRight path (CHR ''/'') \<noteq> []"
  shows "MatchResource (q @ ''/**'') path \<longleftrightarrow> TrimRight path (CHR ''/'') = q
      \<or> (\<exists>t. TrimRight path (CHR ''/'') = q @ CHR ''/'' # t)"
  using MatchResource_double_star [of q "[]" path] assms by (simp add: HasPrefix_iff)

theorem MatchResource_subtree_witness:
  "MatchResource ''/api/**'' ''/api/x'' \<and> \<not> MatchResource ''/api/**'' ''/apiv2/x''"
  using MatchResource_subtree [of "''/api''" "''/api/x''"]
    MatchResource_subtree [of "''/api''" "''/apiv2/x''"]
  by (simp add: TrimRight_def)



text \<open>What follows a double star is ignored: a pattern with a tail after \<^verbatim>\<open>/**\<close> matches exactly
  what the pattern without the tail matches.\<close>

lemma MatchResource_tail_ignored:
  assumes "q \<noteq> []" "last q \<noteq> CHR ''/''" "CHR ''*'' \<notin> set q"
    and "suf = [] \<or> last suf \<noteq> CHR ''/''"
    and "TrimRight path (CHR ''/'') \<noteq> []"
  shows "MatchResource (q @ ''/**'' @ suf) path = MatchResource (q @ ''/**'') path"
  using MatchResource_double_star [OF assms] MatchResource_double_star [of q "[]" path] assms by simp

theorem MatchResource_tail_ignored_witness:
  "MatchResource ''/api/**/admin'' ''/api/public'' = MatchResource ''/api/**'' ''/api/public''"
  using MatchResource_tail_ignored [of "''/api''" "''/admin''" "''/api/public''"]
  by (simp add: TrimRight_def)

text \<open>Loading accepts exactly what the YAML reader accepts and every policy of which names a
  resource; a loaded configuration is the reader's, unchanged.\<close>

lemma LoadFromBytes_valid:
  "LoadFromBytes unmarshal data = Inr cfg \<longleftrightarrow>
     unmarshal data = Inr cfg \<and> (\<forall>p \<in> set (cfg_Policies cfg). pol_Resources p \<noteq> [])"
  by (cases "validate cfg"; cases "unmarshal data")
     (auto simp: LoadFromBytes_def validate_None [symmetric] split: option.splits)

end
