(* ===== verification/Go_Encoding.thy ===== *)
theory Go_Encoding
  imports Go_Text
begin

text \<open>
  Go's \<^verbatim>\<open>encoding/base64\<close> with the URL alphabet (\<^verbatim>\<open>URLEncoding\<close> pads with \<^verbatim>\<open>=\<close>,
  \<^verbatim>\<open>RawURLEncoding\<close> does not) and \<^verbatim>\<open>encoding/hex\<close>.  The decoder skips carriage returns
  and line feeds and, as Go's non-strict decoder, ignores the unused trailing bits.
\<close>

section \<open>The URL alphabet\<close>

definition b64_char :: "nat \<Rightarrow> char" where
  "b64_char i = char_of (if i < 26 then 65 + i else if i < 52 then 71 + i
     else if i < 62 then i - 4 else if i = 62 then 45 else 95)"

definition b64_value :: "char \<Rightarrow> nat option" where
  "b64_value c = (let b = byte_of c in
     if between 65 90 b then Some (b - 65) else if between 97 122 b then Some (b - 71)
     else if between 48 57 b then Some (b + 4) else if b = 45 then Some 62
     else if b = 95 then Some 63 else None)"

lemma b64_char_byte: "i < 64 \<Longrightarrow> byte_of (b64_char i) = (if i < 26 then 65 + i else if i < 52 then 71 + i
     else if i < 62 then i - 4 else if i = 62 then 45 else 95)"
  by (simp add: b64_char_def)

lemma b64_value_char [simp]: "i < 64 \<Longrightarrow> b64_value (b64_char i) = Some i"
  by (auto simp: b64_value_def b64_char_byte between_def Let_def)

lemma b64_value_less: "b64_value c = Some i \<Longrightarrow> i < 64"
  by (auto simp: b64_value_def between_def Let_def split: if_splits)

lemma byte_less [simp]: "byte_of c < 256"
  by (simp add: of_char_def)

section \<open>Encoding\<close>

definition b64_1 :: "char \<Rightarrow> string" where
  "b64_1 a = [b64_char (byte_of a div 4), b64_char (byte_of a mod 4 * 16)]"

definition b64_2 :: "char \<Rightarrow> char \<Rightarrow> string" where
  "b64_2 a b = [b64_char (byte_of a div 4), b64_char (byte_of a mod 4 * 16 + byte_of b div 16),
     b64_char (byte_of b mod 16 * 4)]"

definition b64_3 :: "char \<Rightarrow> char \<Rightarrow> char \<Rightarrow> string" where
  "b64_3 a b c = [b64_char (byte_of a div 4), b64_char (byte_of a mod 4 * 16 + byte_of b div 16),
     b64_char (byte_of b mod 16 * 4 + byte_of c div 64), b64_char (byte_of c mod 64)]"

fun b64_encode :: "bool \<Rightarrow> string \<Rightarrow> string" where
  "b64_encode pad [] = []"
| "b64_encode pad [a] = b64_1 a @ (if pad then ''=='' else [])"
| "b64_encode pad [a, b] = b64_2 a b @ (if pad then ''='' else [])"
| "b64_encode pad (a # b # c # s) = b64_3 a b c @ b64_encode pad s"

definition URLEncoding_Encode :: "string \<Rightarrow> string" where
  "URLEncoding_Encode = b64_encode True"

definition RawURLEncoding_Encode :: "string \<Rightarrow> string" where
  "RawURLEncoding_Encode = b64_encode False"

section \<open>Decoding\<close>

definition quantum1 :: "char \<Rightarrow> char \<Rightarrow> string option" where
  "quantum1 a b = (case (b64_value a, b64_value b) of
     (Some i, Some j) \<Rightarrow> Some [char_of (i * 4 + j div 16)] | _ \<Rightarrow> None)"

definition quantum2 :: "char \<Rightarrow> char \<Rightarrow> char \<Rightarrow> string option" where
  "quantum2 a b c = (case (b64_value a, b64_value b, b64_value c) of
     (Some i, Some j, Some k) \<Rightarrow> Some [char_of (i * 4 + j div 16), char_of (j mod 16 * 16 + k div 4)]
   | _ \<Rightarrow> None)"

definition quantum3 :: "char \<Rightarrow> char \<Rightarrow> char \<Rightarrow> char \<Rightarrow> string option" where
  "quantum3 a b c d = (case (b64_value a, b64_value b, b64_value c, b64_value d) of
     (Some i, Some j, Some k, Some l) \<Rightarrow>
        Some [char_of (i * 4 + j div 16), char_of (j mod 16 * 16 + k div 4), char_of (k mod 4 * 64 + l)]
   | _ \<Rightarrow> None)"

fun b64_quanta :: "bool \<Rightarrow> string \<Rightarrow> string option" where
  "b64_quanta pad [] = Some []"
| "b64_quanta pad [a] = None"
| "b64_quanta pad [a, b] = (if pad then None else quantum1 a b)"
| "b64_quanta pad [a, b, c] = (if pad then None else quantum2 a b c)"
| "b64_quanta pad (a # b # c # d # s) =
     (if pad \<and> d = CHR ''='' then
        (if s \<noteq> [] then None else if c = CHR ''='' then quantum1 a b else quantum2 a b c)
      else (case quantum3 a b c d of None \<Rightarrow> None
        | Some q \<Rightarrow> map_option (\<lambda>r. q @ r) (b64_quanta pad s)))"

definition b64_decode :: "bool \<Rightarrow> string \<Rightarrow> string option" where
  "b64_decode pad s = b64_quanta pad (filter (\<lambda>c. byte_of c \<noteq> 10 \<and> byte_of c \<noteq> 13) s)"

definition b64_error :: error where
  "b64_error = Errorf ''illegal base64 data''"

definition URLEncoding_Decode :: "string \<Rightarrow> string result" where
  "URLEncoding_Decode s = (case b64_decode True s of None \<Rightarrow> Inl b64_error | Some b \<Rightarrow> Inr b)"

definition RawURLEncoding_Decode :: "string \<Rightarrow> string result" where
  "RawURLEncoding_Decode s = (case b64_decode False s of None \<Rightarrow> Inl b64_error | Some b \<Rightarrow> Inr b)"

section \<open>Laws\<close>

text \<open>The bound side conditions of the alphabet, once for all quanta.\<close>

lemma b64_bounds:
  "byte_of a div 4 < 64" "byte_of a mod 4 * 16 < 64" "byte_of a mod 4 * 16 + byte_of b div 16 < 64"
  "byte_of b mod 16 * 4 < 64" "byte_of b mod 16 * 4 + byte_of c div 64 < 64" "byte_of c mod 64 < 64"
  using byte_less [of a] byte_less [of b] byte_less [of c] by linarith+

text \<open>Taking the packed six-bit groups apart again.\<close>

lemma digit_split:
  "y < n \<Longrightarrow> (x * n + y) div n = (x :: nat)" "y < n \<Longrightarrow> (x * n + y) mod n = (y :: nat)"
  by simp_all

lemma b64_unpack:
  "(byte_of a mod 4 * 16 + byte_of b div 16) div 16 = byte_of a mod 4"
  "(byte_of a mod 4 * 16 + byte_of b div 16) mod 16 = byte_of b div 16"
  "(byte_of b mod 16 * 4 + byte_of c div 64) div 4 = byte_of b mod 16"
  "(byte_of b mod 16 * 4 + byte_of c div 64) mod 4 = byte_of c div 64"
  using byte_less [of b] byte_less [of c] by (intro digit_split; linarith)+

lemma byte_rejoin:
  "byte_of a div 4 * 4 + byte_of a mod 4 = byte_of a" "byte_of a div 16 * 16 + byte_of a mod 16 = byte_of a"
  "byte_of a div 64 * 64 + byte_of a mod 64 = byte_of a"
  by (rule div_mult_mod_eq)+

lemma quantum1_b64 [simp]: "quantum1 (b64_char (byte_of a div 4)) (b64_char (byte_of a mod 4 * 16)) = Some [a]"
  by (simp add: quantum1_def b64_bounds)

lemma quantum2_b64 [simp]: "quantum2 (b64_char (byte_of a div 4))
    (b64_char (byte_of a mod 4 * 16 + byte_of b div 16)) (b64_char (byte_of b mod 16 * 4)) = Some [a, b]"
  by (simp only: quantum2_def b64_bounds b64_value_char b64_unpack byte_rejoin option.case prod.case
      nonzero_mult_div_cancel_right char_of_char)

lemma quantum3_b64 [simp]: "quantum3 (b64_char (byte_of a div 4))
    (b64_char (byte_of a mod 4 * 16 + byte_of b div 16))
    (b64_char (byte_of b mod 16 * 4 + byte_of c div 64)) (b64_char (byte_of c mod 64)) = Some [a, b, c]"
  by (simp only: quantum3_def b64_bounds b64_value_char b64_unpack byte_rejoin option.case prod.case char_of_char)

text \<open>A character of the alphabet is printable ASCII and none of the separators the source uses.\<close>

definition url_safe :: "char \<Rightarrow> bool" where
  "url_safe c = (b64_value c \<noteq> None)"

lemma url_safe_char [simp]: "i < 64 \<Longrightarrow> url_safe (b64_char i)"
  by (simp add: url_safe_def)

lemma url_safe_not:
  "url_safe c \<Longrightarrow> c \<noteq> CHR ''='' \<and> c \<noteq> CHR ''.'' \<and> c \<noteq> CHR '';'' \<and> c \<noteq> CHR '' '' \<and> c \<noteq> CHR '',''
     \<and> byte_of c \<noteq> 10 \<and> byte_of c \<noteq> 13 \<and> byte_of c \<noteq> 34 \<and> byte_of c \<noteq> 92 \<and> between 33 126 (byte_of c)"
  by (auto simp: url_safe_def b64_value_def between_def Let_def split: if_splits)

lemma b64_encode_raw_safe: "\<forall>c \<in> set (b64_encode False s). url_safe c"
  by (induction "False" s rule: b64_encode.induct) (auto simp: b64_1_def b64_2_def b64_3_def b64_bounds)

lemma b64_encode_safe: "c \<in> set (b64_encode pad s) \<Longrightarrow> url_safe c \<or> pad \<and> c = CHR ''=''"
  by (induction pad s rule: b64_encode.induct)
     (auto simp: b64_1_def b64_2_def b64_3_def b64_bounds split: if_splits)

lemma b64_quanta_encode: "b64_quanta pad (b64_encode pad s) = Some s"
proof (induction pad s rule: b64_encode.induct)
  case (4 pad a b c s)
  have "b64_char (byte_of c mod 64) \<noteq> CHR ''=''"
    using url_safe_not [OF url_safe_char [OF b64_bounds(6)]] by blast
  with 4 show ?case by (simp add: b64_3_def)
qed (auto simp: b64_1_def b64_2_def url_safe_not [OF url_safe_char] b64_bounds)

lemma b64_decode_encode: "b64_decode pad (b64_encode pad s) = Some s"
proof -
  have "filter (\<lambda>c. byte_of c \<noteq> 10 \<and> byte_of c \<noteq> 13) (b64_encode pad s) = b64_encode pad s"
    by (rule filter_True) (auto dest!: b64_encode_safe url_safe_not)
  then show ?thesis by (simp add: b64_decode_def b64_quanta_encode)
qed

lemma URLEncoding_roundtrip [simp]: "URLEncoding_Decode (URLEncoding_Encode s) = Inr s"
  by (simp add: URLEncoding_Decode_def URLEncoding_Encode_def b64_decode_encode)

lemma RawURLEncoding_roundtrip [simp]: "RawURLEncoding_Decode (RawURLEncoding_Encode s) = Inr s"
  by (simp add: RawURLEncoding_Decode_def RawURLEncoding_Encode_def b64_decode_encode)

lemma RawURLEncoding_inj: "RawURLEncoding_Encode s = RawURLEncoding_Encode t \<longleftrightarrow> s = t"
  by (metis RawURLEncoding_roundtrip sum.inject(2))

lemma RawURLEncoding_length: "length (RawURLEncoding_Encode s) = (length s * 8 + 5) div 6"
proof -
  have "length (b64_encode False s) = (length s * 8 + 5) div 6"
    by (induction "False" s rule: b64_encode.induct) (auto simp: b64_1_def b64_2_def b64_3_def)
  then show ?thesis by (simp add: RawURLEncoding_Encode_def)
qed

section \<open>Hexadecimal\<close>

fun hex_EncodeToString :: "string \<Rightarrow> string" where
  "hex_EncodeToString [] = []"
| "hex_EncodeToString (c # s) =
     hex_digit (byte_of c div 16) # hex_digit (byte_of c mod 16) # hex_EncodeToString s"

definition hex_value :: "char \<Rightarrow> nat option" where
  "hex_value c = (let b = byte_of c in
     if between 48 57 b then Some (b - 48) else if between 97 102 b then Some (b - 87)
     else if between 65 70 b then Some (b - 55) else None)"

fun hex_pairs :: "string \<Rightarrow> string option" where
  "hex_pairs [] = Some []"
| "hex_pairs [a] = None"
| "hex_pairs (a # b # s) = (case (hex_value a, hex_value b, hex_pairs s) of
     (Some i, Some j, Some r) \<Rightarrow> Some (char_of (16 * i + j) # r) | _ \<Rightarrow> None)"

definition hex_DecodeString :: "string \<Rightarrow> string result" where
  "hex_DecodeString s = (case hex_pairs s of None \<Rightarrow> Inl (Errorf ''encoding/hex: invalid'') | Some b \<Rightarrow> Inr b)"

lemma hex_value_digit [simp]: "d < 16 \<Longrightarrow> hex_value (hex_digit d) = Some d"
  by (simp add: hex_value_def hex_digit_def between_def Let_def)

lemma hex_roundtrip [simp]: "hex_DecodeString (hex_EncodeToString s) = Inr s"
proof -
  have "hex_pairs (hex_EncodeToString s) = Some s"
  proof (induction s)
    case (Cons c s)
    have "byte_of c div 16 < 16" using byte_less [of c] by linarith
    with Cons show ?case by simp
  qed simp
  then show ?thesis by (simp add: hex_DecodeString_def)
qed

lemma hex_length: "length (hex_EncodeToString s) = 2 * length s"
  by (induction s) auto

lemma hex_safe: "c \<in> set (hex_EncodeToString s) \<Longrightarrow> is_digit c \<or> between 97 102 (byte_of c)"
proof (induction s)
  case (Cons x s)
  have d: "is_digit (hex_digit d) \<or> between 97 102 (byte_of (hex_digit d))" if "d < 16" for d
    using that by (auto simp: hex_digit_def is_digit_def between_def)
  have "byte_of x div 16 < 16" using byte_less [of x] by linarith
  with Cons d [of "byte_of x div 16"] d [of "byte_of x mod 16"] show ?case by auto
qed simp

lemma hex_inj: "hex_EncodeToString s = hex_EncodeToString t \<longleftrightarrow> s = t"
  by (metis hex_roundtrip sum.inject(2))

end
