(* ===== verification/Http.thy ===== *)
theory Http
  imports Go_Encoding Go_Time "HOL-Library.AList"
begin

text \<open>
  The parts of Go's \<^verbatim>\<open>net/http\<close>, \<^verbatim>\<open>net/textproto\<close> and \<^verbatim>\<open>net\<close> that the source calls:
  headers with canonical keys, requests, the response writer (the first status wins and
  fixes the headers sent), \<^verbatim>\<open>http.Error\<close>, cookies, and \<^verbatim>\<open>net.SplitHostPort\<close>.
\<close>

section \<open>Headers\<close>

type_synonym header = "(string \<times> string list) list"

text \<open>\<^verbatim>\<open>textproto.CanonicalMIMEHeaderKey\<close>: a name that is not a token is left as it is,
  otherwise the first letter and every letter after a dash is a capital.\<close>

definition is_token_char :: "char \<Rightarrow> bool" where
  "is_token_char c = (let b = byte_of c in
     between 48 57 b \<or> between 65 90 b \<or> between 97 122 b \<or> c \<in> set ''!#$%&*+-.^_`|~'' \<or> b = 39)"

fun canon_letters :: "bool \<Rightarrow> string \<Rightarrow> string" where
  "canon_letters up [] = []"
| "canon_letters up (c # s) =
     (if up then upper_char c else lower_char c) # canon_letters (c = CHR ''-'') s"

definition CanonicalHeaderKey :: "string \<Rightarrow> string" where
  "CanonicalHeaderKey k = (if list_all is_token_char k then canon_letters True k else k)"

definition Header_Get :: "header \<Rightarrow> string \<Rightarrow> string" where
  "Header_Get h k = (case map_of h (CanonicalHeaderKey k) of Some (v # vs) \<Rightarrow> v | _ \<Rightarrow> [])"

definition Header_Values :: "header \<Rightarrow> string \<Rightarrow> string list" where
  "Header_Values h k = (case map_of h (CanonicalHeaderKey k) of Some vs \<Rightarrow> vs | None \<Rightarrow> [])"

definition Header_Set :: "header \<Rightarrow> string \<Rightarrow> string \<Rightarrow> header" where
  "Header_Set h k v = AList.update (CanonicalHeaderKey k) [v] h"

definition Header_Add :: "header \<Rightarrow> string \<Rightarrow> string \<Rightarrow> header" where
  "Header_Add h k v = AList.update (CanonicalHeaderKey k) (Header_Values h k @ [v]) h"

definition Header_Del :: "header \<Rightarrow> string \<Rightarrow> header" where
  "Header_Del h k = AList.delete (CanonicalHeaderKey k) h"

text \<open>Rules that compute the canonical form of a literal name.\<close>

lemmas header_key_simps = CanonicalHeaderKey_def is_token_char_def between_def upper_char_def
  lower_char_def upper_rune_def lower_rune_def char_of_eq_iff

lemma Header_Get_Set [http_simps]: "Header_Get (Header_Set h k v) k' =
    (if CanonicalHeaderKey k = CanonicalHeaderKey k' then v else Header_Get h k')"
  by (simp add: Header_Get_def Header_Set_def update_conv')

lemma Header_Values_Set [http_simps]: "Header_Values (Header_Set h k v) k' =
    (if CanonicalHeaderKey k = CanonicalHeaderKey k' then [v] else Header_Values h k')"
  by (simp add: Header_Values_def Header_Set_def update_conv')

lemma Header_Values_Add [http_simps]: "Header_Values (Header_Add h k v) k' =
    (if CanonicalHeaderKey k = CanonicalHeaderKey k' then Header_Values h k @ [v] else Header_Values h k')"
  by (simp add: Header_Values_def Header_Add_def update_conv')

lemma Header_Get_Add_other [http_simps]: "CanonicalHeaderKey k \<noteq> CanonicalHeaderKey k' \<Longrightarrow>
    Header_Get (Header_Add h k v) k' = Header_Get h k'"
  by (simp add: Header_Get_def Header_Add_def update_conv')

lemma Header_Values_Del [http_simps]: "Header_Values (Header_Del h k) k' =
    (if CanonicalHeaderKey k = CanonicalHeaderKey k' then [] else Header_Values h k')"
  by (simp add: Header_Values_def Header_Del_def delete_conv')

section \<open>Requests\<close>

text \<open>The fields of \<^verbatim>\<open>http.Request\<close> and its \<^verbatim>\<open>URL\<close> that the source reads or writes;
  \<open>rq_PeerCertificates\<close> is the number of client certificates of the TLS state.\<close>

record http_request =
  rq_Method :: string
  rq_Path :: string
  rq_RawQuery :: string
  rq_RequestURI :: string
  rq_Host :: string
  rq_RemoteAddr :: string
  rq_TLS :: bool
  rq_PeerCertificates :: nat
  rq_Header :: header
  rq_Body :: string

section \<open>The response writer\<close>

record response =
  rw_Header :: header
  rw_Status :: "nat option"
  rw_Sent :: header
  rw_Body :: string

definition new_response :: response where
  "new_response = \<lparr>rw_Header = [], rw_Status = None, rw_Sent = [], rw_Body = []\<rparr>"

definition WriteHeader :: "nat \<Rightarrow> response \<Rightarrow> response" where
  "WriteHeader code w = (case rw_Status w of
     None \<Rightarrow> w\<lparr>rw_Status := Some code, rw_Sent := rw_Header w\<rparr> | Some _ \<Rightarrow> w)"

definition Write :: "string \<Rightarrow> response \<Rightarrow> response" where
  "Write b w = (let w' = WriteHeader 200 w in w'\<lparr>rw_Body := rw_Body w' @ b\<rparr>)"

definition set_header :: "string \<Rightarrow> string \<Rightarrow> response \<Rightarrow> response" where
  "set_header k v w = w\<lparr>rw_Header := Header_Set (rw_Header w) k v\<rparr>"

text \<open>\<^verbatim>\<open>http.Error\<close>.\<close>

definition http_Error :: "string \<Rightarrow> nat \<Rightarrow> response \<Rightarrow> response" where
  "http_Error msg code w =
     (let h0 = Header_Del (rw_Header w) ''Content-Length'';
          h1 = Header_Set h0 ''Content-Type'' ''text/plain; charset=utf-8'';
          h2 = Header_Set h1 ''X-Content-Type-Options'' ''nosniff''
      in Write (msg @ [char_of (10::nat)]) (WriteHeader code (w\<lparr>rw_Header := h2\<rparr>)))"

lemma WriteHeader_status [http_simps]:
  "rw_Status (WriteHeader code w) = (case rw_Status w of None \<Rightarrow> Some code | Some c \<Rightarrow> Some c)"
  by (simp add: WriteHeader_def split: option.splits)

lemma WriteHeader_sent [http_simps]:
  "rw_Status w = None \<Longrightarrow> rw_Sent (WriteHeader code w) = rw_Header w"
  "rw_Status w \<noteq> None \<Longrightarrow> rw_Sent (WriteHeader code w) = rw_Sent w"
  by (auto simp: WriteHeader_def)

lemma WriteHeader_other [http_simps]:
  "rw_Header (WriteHeader code w) = rw_Header w" "rw_Body (WriteHeader code w) = rw_Body w"
  by (simp_all add: WriteHeader_def split: option.splits)

lemma Write_fields [http_simps]:
  "rw_Status (Write b w) = (case rw_Status w of None \<Rightarrow> Some 200 | Some c \<Rightarrow> Some c)"
  "rw_Header (Write b w) = rw_Header w" "rw_Body (Write b w) = rw_Body w @ b"
  "rw_Status w \<noteq> None \<Longrightarrow> rw_Sent (Write b w) = rw_Sent w"
  by (simp_all add: Write_def Let_def http_simps)

lemma set_header_fields [http_simps]:
  "rw_Status (set_header k v w) = rw_Status w" "rw_Body (set_header k v w) = rw_Body w"
  "rw_Sent (set_header k v w) = rw_Sent w" "rw_Header (set_header k v w) = Header_Set (rw_Header w) k v"
  by (simp_all add: set_header_def)

lemma http_Error_status [http_simps]:
  "rw_Status w = None \<Longrightarrow> rw_Status (http_Error msg code w) = Some code"
  by (simp add: http_Error_def Let_def http_simps)

text \<open>A header set before the call is sent, unless the call sets it itself.\<close>

lemma http_Error_get:
  assumes "rw_Status w = None" "CanonicalHeaderKey k \<noteq> CanonicalHeaderKey ''Content-Length''"
    "CanonicalHeaderKey k \<noteq> CanonicalHeaderKey ''Content-Type''"
    "CanonicalHeaderKey k \<noteq> CanonicalHeaderKey ''X-Content-Type-Options''"
  shows "Header_Get (rw_Sent (http_Error msg code w)) k = Header_Get (rw_Header w) k"
proof -
  have "Header_Get (Header_Del h ''Content-Length'') k = Header_Get h k" for h
    using assms(2) by (simp add: Header_Get_def Header_Del_def delete_conv')
  with assms show ?thesis by (simp add: http_Error_def Let_def http_simps)
qed

section \<open>Cookies\<close>

text \<open>\<^verbatim>\<open>strings.Cut\<close> and the white space trimmed by \<^verbatim>\<open>textproto.TrimString\<close>.\<close>

definition Cut :: "string \<Rightarrow> char \<Rightarrow> string \<times> string \<times> bool" where
  "Cut s c = (case IndexByte s c of None \<Rightarrow> (s, [], False)
     | Some i \<Rightarrow> (take i s, drop (Suc i) s, True))"

definition ascii_space :: "char \<Rightarrow> bool" where
  "ascii_space c = (byte_of c \<in> {32, 9, 10, 13})"

definition TrimString :: "string \<Rightarrow> string" where
  "TrimString s = rev (dropWhile ascii_space (rev (dropWhile ascii_space s)))"

definition validCookieValueByte :: "char \<Rightarrow> bool" where
  "validCookieValueByte c = (let b = byte_of c in 32 \<le> b \<and> b < 127 \<and> b \<noteq> 34 \<and> b \<noteq> 59 \<and> b \<noteq> 92)"

definition parseCookieValue :: "string \<Rightarrow> string option" where
  "parseCookieValue raw =
     (let raw' = (if 1 < length raw \<and> byte_of (hd raw) = 34 \<and> byte_of (last raw) = 34
                  then butlast (tl raw) else raw)
      in if list_all validCookieValueByte raw' then Some raw' else None)"

text \<open>The parts of one \<^verbatim>\<open>Cookie\<close> line; a part that is not a valid pair is skipped.\<close>

definition cookie_part :: "string \<Rightarrow> (string \<times> string) option" where
  "cookie_part part0 =
     (let part = TrimString part0 in
      if part = [] then None
      else (let (name0, val0, _) = Cut part (CHR ''=''); name = TrimString name0 in
        if name = [] \<or> \<not> list_all is_token_char name then None
        else map_option (\<lambda>v. (name, v)) (parseCookieValue val0)))"

definition readCookies :: "header \<Rightarrow> (string \<times> string) list" where
  "readCookies h = concat (map (\<lambda>line. List.map_filter cookie_part (Split (TrimString line) (CHR '';'')))
     (Header_Values h ''Cookie''))"

text \<open>\<^verbatim>\<open>Request.Cookie(name)\<close>: the value of the first cookie with the name.\<close>

definition request_Cookie :: "http_request \<Rightarrow> string \<Rightarrow> string option" where
  "request_Cookie r name = (if name = [] then None else map_of (readCookies (rq_Header r)) name)"

record Cookie =
  ck_Name :: string
  ck_Value :: string
  ck_Path :: string
  ck_MaxAge :: int
  ck_HttpOnly :: bool
  ck_SameSiteLax :: bool

definition sanitizeCookieValue :: "string \<Rightarrow> string" where
  "sanitizeCookieValue v =
     (let s = filter validCookieValueByte v in
      if s \<noteq> [] \<and> (CHR '' '' \<in> set s \<or> CHR '','' \<in> set s) then CHR 0x22 # s @ [CHR 0x22] else s)"

definition sanitizeCookiePath :: "string \<Rightarrow> string" where
  "sanitizeCookiePath v = filter (\<lambda>c. 32 \<le> byte_of c \<and> byte_of c < 127 \<and> c \<noteq> CHR '';'') v"

definition Cookie_String :: "Cookie \<Rightarrow> string" where
  "Cookie_String c =
     (if ck_Name c = [] \<or> \<not> list_all is_token_char (ck_Name c) then []
      else ck_Name c @ ''='' @ sanitizeCookieValue (ck_Value c)
        @ (if ck_Path c \<noteq> [] then ''; Path='' @ sanitizeCookiePath (ck_Path c) else [])
        @ (if 0 < ck_MaxAge c then ''; Max-Age='' @ show_int (ck_MaxAge c)
           else if ck_MaxAge c < 0 then ''; Max-Age=0'' else [])
        @ (if ck_HttpOnly c then ''; HttpOnly'' else [])
        @ (if ck_SameSiteLax c then ''; SameSite=Lax'' else []))"

definition SetCookie :: "Cookie \<Rightarrow> response \<Rightarrow> response" where
  "SetCookie c w = (let v = Cookie_String c in
     if v = [] then w else w\<lparr>rw_Header := Header_Add (rw_Header w) ''Set-Cookie'' v\<rparr>)"

text \<open>What a user agent returns for a \<^verbatim>\<open>Set-Cookie\<close> line: the pair before the attributes.\<close>

definition cookie_pair :: "string \<Rightarrow> string" where
  "cookie_pair line = hd (Split line (CHR '';''))"

lemma SetCookie_fields [http_simps]:
  "rw_Status (SetCookie c w) = rw_Status w" "rw_Body (SetCookie c w) = rw_Body w"
  "rw_Sent (SetCookie c w) = rw_Sent w"
  by (simp_all add: SetCookie_def Let_def)

lemma Cut_sep: "c \<notin> set a \<Longrightarrow> Cut (a @ c # b) c = (a, b, True)"
  by (simp add: Cut_def IndexByte_append)

lemma TrimString_id:
  assumes "s \<noteq> []" "\<not> ascii_space (hd s)" "\<not> ascii_space (last s)"
  shows "TrimString s = s"
proof -
  have "dropWhile ascii_space s = s" using assms(1,2) by (cases s) auto
  moreover have "dropWhile ascii_space (rev s) = rev s"
    using assms(1,3) by (cases s rule: rev_cases) auto
  ultimately show ?thesis by (simp add: TrimString_def)
qed

text \<open>A pair of a token and a value without white space, quotes, commas and semicolons comes
  back from the \<^verbatim>\<open>Cookie\<close> header as it was set.\<close>

definition plain_cookie_char :: "char \<Rightarrow> bool" where
  "plain_cookie_char c = (between 33 126 (byte_of c) \<and> byte_of c \<notin> {34, 44, 59, 92})"

lemma plain_valid: "plain_cookie_char c \<Longrightarrow> validCookieValueByte c \<and> \<not> ascii_space c"
  by (auto simp: plain_cookie_char_def validCookieValueByte_def ascii_space_def between_def Let_def)

lemma plain_cookie_not: "plain_cookie_char c \<Longrightarrow> c \<noteq> CHR '' '' \<and> c \<noteq> CHR '','' \<and> c \<noteq> CHR '';''"
  by (auto simp: plain_cookie_char_def between_def)

lemma token_char_not:
  "is_token_char c \<Longrightarrow> c \<noteq> CHR ''='' \<and> c \<noteq> CHR '';'' \<and> \<not> ascii_space c \<and> byte_of c \<noteq> 34"
  by (auto simp: is_token_char_def between_def ascii_space_def Let_def)

lemma sanitize_plain: "list_all plain_cookie_char v \<Longrightarrow> sanitizeCookieValue v = v"
proof -
  assume v: "list_all plain_cookie_char v"
  then have "filter validCookieValueByte v = v"
    by (intro filter_True) (auto simp: list_all_iff plain_valid)
  moreover have "CHR '' '' \<notin> set v" "CHR '','' \<notin> set v"
    using v plain_cookie_not unfolding list_all_iff by blast+
  ultimately show ?thesis by (simp add: sanitizeCookieValue_def)
qed

lemma cookie_part_plain:
  assumes n: "n \<noteq> []" "list_all is_token_char n" and v: "list_all plain_cookie_char v"
  shows "cookie_part (n @ CHR ''='' # v) = Some (n, v)"
proof -
  have nc: "\<And>c. c \<in> set n \<Longrightarrow> c \<noteq> CHR ''='' \<and> c \<noteq> CHR '';'' \<and> \<not> ascii_space c"
    using n(2) token_char_not by (auto simp: list_all_iff)
  have vc: "\<And>c. c \<in> set v \<Longrightarrow> validCookieValueByte c \<and> \<not> ascii_space c \<and> byte_of c \<noteq> 34"
    using v plain_valid by (auto simp: list_all_iff plain_cookie_char_def)
  have "\<not> ascii_space (last (n @ CHR ''='' # v))"
    using vc by (cases v rule: rev_cases) (auto simp: ascii_space_def)
  then have "TrimString (n @ CHR ''='' # v) = n @ CHR ''='' # v"
    using n(1) nc by (intro TrimString_id) (auto simp: hd_append)
  moreover have "Cut (n @ CHR ''='' # v) (CHR ''='') = (n, v, True)" using nc by (intro Cut_sep) blast
  moreover have "TrimString n = n" using n(1) nc by (intro TrimString_id) (auto simp: last_in_set)
  moreover have "parseCookieValue v = Some v"
  proof -
    have "\<not> (1 < length v \<and> byte_of (hd v) = 34 \<and> byte_of (last v) = 34)" using vc [of "hd v"]
      by (cases v) auto
    then show ?thesis using vc by (auto simp: parseCookieValue_def list_all_iff)
  qed
  ultimately show ?thesis using n by (simp add: cookie_part_def Let_def)
qed

lemma request_Cookie_plain:
  assumes n: "n \<noteq> []" "list_all is_token_char n" and v: "list_all plain_cookie_char v"
    and h: "Header_Values (rq_Header r) ''Cookie'' = [n @ CHR ''='' # v]"
  shows "request_Cookie r n = Some v"
proof -
  have "CHR '';'' \<notin> set (n @ CHR ''='' # v)"
    using n(2) v token_char_not plain_cookie_not by (auto simp: list_all_iff)
  moreover have "TrimString (n @ CHR ''='' # v) = n @ CHR ''='' # v"
  proof (rule TrimString_id)
    show "\<not> ascii_space (hd (n @ CHR ''='' # v))"
      using n token_char_not by (cases n) auto
    show "\<not> ascii_space (last (n @ CHR ''='' # v))"
      using v plain_valid by (cases v rule: rev_cases) (auto simp: ascii_space_def)
  qed simp
  ultimately have "readCookies (rq_Header r) = [(n, v)]"
    using cookie_part_plain [OF n v] by (simp add: readCookies_def h Split_none List.map_filter_def)
  with n(1) show ?thesis by (simp add: request_Cookie_def)
qed

lemma Cookie_String_pair:
  assumes "ck_Name c \<noteq> []" "list_all is_token_char (ck_Name c)" "list_all plain_cookie_char (ck_Value c)"
    and "ck_Path c \<noteq> []"
  shows "cookie_pair (Cookie_String c) = ck_Name c @ CHR ''='' # ck_Value c"
proof -
  have "CHR '';'' \<notin> set (ck_Name c @ CHR ''='' # ck_Value c)"
    using assms token_char_not plain_cookie_not by (auto simp: list_all_iff)
  from Split_append [OF this] show ?thesis
    using assms by (simp add: cookie_pair_def Cookie_String_def sanitize_plain)
qed

section \<open>Host and port\<close>

text \<open>\<^verbatim>\<open>net.SplitHostPort\<close>.\<close>

definition SplitHostPort :: "string \<Rightarrow> (string \<times> string) result" where
  "SplitHostPort s =
     (let missingPort = Errorf ''missing port in address'';
          tooManyColons = Errorf ''too many colons in address'';
          finish = (\<lambda>host j k i.
            if CHR ''['' \<in> set (drop j s) then Inl (Errorf ''unexpected '[' in address'')
            else if CHR '']'' \<in> set (drop k s) then Inl (Errorf ''unexpected ']' in address'')
            else Inr (host, drop (Suc i) s))
      in case LastIndexByte s (CHR '':'') of None \<Rightarrow> Inl missingPort
       | Some i \<Rightarrow>
          if hd s = CHR ''['' then
            (case IndexByte s (CHR '']'') of None \<Rightarrow> Inl (Errorf ''missing ']' in address'')
             | Some e \<Rightarrow>
                if Suc e = length s then Inl missingPort
                else if Suc e = i then finish (take (e - 1) (drop 1 s)) 1 (Suc e) i
                else if s ! Suc e = CHR '':'' then Inl tooManyColons else Inl missingPort)
          else if CHR '':'' \<in> set (take i s) then Inl tooManyColons
          else finish (take i s) 0 0 i)"

end
