(* ===== verification/Challenge.thy ===== *)
theory Challenge
  imports Http
begin

text \<open>
  Step-up errors and challenges (\<^verbatim>\<open>pkg/core/stepup/errors.go\<close>, \<^verbatim>\<open>challenge.go\<close>): the
  RFC 9470 challenge, its \<^verbatim>\<open>WWW-Authenticate\<close> form, the 401 response that carries it, and
  the parser a client uses to read it back.
\<close>

section \<open>Errors (errors.go)\<close>

definition ErrCodeInsufficientUserAuthentication :: string where
  "ErrCodeInsufficientUserAuthentication = ''insufficient_user_authentication''"

definition ErrCodeInvalidToken :: string where
  "ErrCodeInvalidToken = ''invalid_token''"

definition ErrCodeInsufficientScope :: string where
  "ErrCodeInsufficientScope = ''insufficient_scope''"

record StepUpError =
  se_Code :: string
  se_Description :: string
  se_ACRValues :: string
  se_MaxAge :: int

definition StepUpError_Error :: "StepUpError \<Rightarrow> string" where
  "StepUpError_Error e = se_Description e"

definition NewInsufficientACRError :: "string \<Rightarrow> int \<Rightarrow> StepUpError" where
  "NewInsufficientACRError requiredACR maxAge =
     \<lparr>se_Code = ErrCodeInsufficientUserAuthentication,
      se_Description = ''higher authentication level required'',
      se_ACRValues = requiredACR, se_MaxAge = maxAge\<rparr>"

section \<open>Challenges (challenge.go)\<close>

record StepUpChallenge =
  ch_ACRValues :: string
  ch_MaxAge :: int
  ch_Error :: string
  ch_ErrorDescription :: string
  ch_Realm :: string

abbreviation DQ :: char where "DQ \<equiv> CHR 0x22"

text \<open>One parameter \<^verbatim>\<open>name="value"\<close>; the value is not escaped.\<close>

definition quoted_param :: "string \<Rightarrow> string \<Rightarrow> string" where
  "quoted_param name v = name @ CHR ''='' # DQ # v @ [DQ]"

definition header_parts :: "StepUpChallenge \<Rightarrow> string list" where
  "header_parts c =
     [quoted_param ''realm'' (if ch_Realm c = [] then ''IAM'' else ch_Realm c)]
     @ (if ch_Error c \<noteq> [] then [quoted_param ''error'' (ch_Error c)] else [])
     @ (if ch_ErrorDescription c \<noteq> []
        then [quoted_param ''error_description'' (ch_ErrorDescription c)] else [])
     @ (if ch_ACRValues c \<noteq> [] then [quoted_param ''acr_values'' (ch_ACRValues c)] else [])
     @ (if 0 < ch_MaxAge c then [''max_age'' @ CHR ''='' # show_int (ch_MaxAge c)] else [])"

definition WWWAuthenticateHeader :: "StepUpChallenge \<Rightarrow> string" where
  "WWWAuthenticateHeader c = ''Bearer '' @ Join (header_parts c) '', ''"

definition challenge_body :: "StepUpChallenge \<Rightarrow> string" where
  "challenge_body c = ''{'' @ DQ # ''error'' @ DQ # '':'' @ Quote (ch_Error c) @ '','' @ DQ # ''error_description''
     @ DQ # '':'' @ Quote (ch_ErrorDescription c) @ ''}''"

definition WriteChallenge :: "StepUpChallenge \<Rightarrow> response \<Rightarrow> response" where
  "WriteChallenge c w =
     Write (challenge_body c)
       (WriteHeader 401
         (set_header ''Content-Type'' ''application/json''
           (set_header ''WWW-Authenticate'' (WWWAuthenticateHeader c) w)))"

text \<open>The switch over the parameter name, and one round of the loop over the parts.\<close>

definition assign_param :: "string \<Rightarrow> string \<Rightarrow> StepUpChallenge \<Rightarrow> StepUpChallenge" where
  "assign_param key val c =
     (if key = ''realm'' then c\<lparr>ch_Realm := val\<rparr>
      else if key = ''error'' then c\<lparr>ch_Error := val\<rparr>
      else if key = ''error_description'' then c\<lparr>ch_ErrorDescription := val\<rparr>
      else if key = ''acr_values'' then c\<lparr>ch_ACRValues := val\<rparr>
      else if key = ''max_age'' then c\<lparr>ch_MaxAge := Sscanf_d val (ch_MaxAge c)\<rparr>
      else c)"

definition parse_part :: "string \<Rightarrow> StepUpChallenge \<Rightarrow> StepUpChallenge" where
  "parse_part part0 c = (case SplitN2 (TrimSpace part0) ''='' of
       [k, v] \<Rightarrow> assign_param (TrimSpace k) (Trim (TrimSpace v) DQ) c
     | _ \<Rightarrow> c)"

definition empty_challenge :: StepUpChallenge where
  "empty_challenge = \<lparr>ch_ACRValues = [], ch_MaxAge = 0, ch_Error = [], ch_ErrorDescription = [],
     ch_Realm = []\<rparr>"

definition ParseWWWAuthenticate :: "string \<Rightarrow> StepUpChallenge result" where
  "ParseWWWAuthenticate header0 =
     (let header = TrimSpace header0 in
      if \<not> HasPrefix header ''Bearer '' then Inl (Errorf ''unsupported scheme, expected Bearer'')
      else Inr (fold parse_part (Split (TrimPrefix header ''Bearer '') (CHR '','')) empty_challenge))"

definition NewStepUpChallenge :: "StepUpError \<Rightarrow> string \<Rightarrow> StepUpChallenge" where
  "NewStepUpChallenge err realm =
     \<lparr>ch_ACRValues = se_ACRValues err, ch_MaxAge = se_MaxAge err, ch_Error = se_Code err,
      ch_ErrorDescription = se_Description err, ch_Realm = realm\<rparr>"

section \<open>Reading a challenge back\<close>

text \<open>Values that survive the unescaped quoting: ASCII without commas and double quotes.\<close>

definition quotable :: "string \<Rightarrow> bool" where
  "quotable v = list_all (\<lambda>c. is_ascii c \<and> c \<noteq> CHR '','' \<and> c \<noteq> DQ) v"

lemma quotable_iff: "quotable v \<longleftrightarrow> ascii v \<and> CHR '','' \<notin> set v \<and> DQ \<notin> set v"
  by (auto simp: quotable_def ascii_iff list_all_iff)

lemma Split_Join_comma:
  assumes "\<forall>p \<in> set ps. CHR '','' \<notin> set p" "ps \<noteq> []"
  shows "Split (Join ps '', '') (CHR '','') = hd ps # map (\<lambda>p. CHR '' '' # p) (tl ps)"
  using assms
proof (induction ps)
  case (Cons p ps)
  show ?case
  proof (cases ps)
    case Nil
    with Cons.prems show ?thesis by (simp add: Split_none)
  next
    case [simp]: (Cons q qs)
    from Cons.IH Cons.prems have "Split (Join ps '', '') (CHR '','') = q # map (\<lambda>p. CHR '' '' # p) qs" by simp
    with Cons.prems show ?thesis by (simp add: Split_append)
  qed
qed simp

lemma Trim_quotes: "DQ \<notin> set v \<Longrightarrow> Trim (DQ # v @ [DQ]) DQ = v"
proof -
  assume v: "DQ \<notin> set v"
  then have "dropWhile (\<lambda>x. x = DQ) (v @ [DQ]) = (if v = [] then [] else v @ [DQ])"
    by (cases v) auto
  moreover have "TrimRight v DQ = v" using v by (intro TrimRight_id) (metis last_in_set)
  ultimately show ?thesis by (simp add: Trim_def TrimRight_def)
qed

definition param_name :: "string \<Rightarrow> bool" where
  "param_name n = (n \<noteq> [] \<and> list_all (\<lambda>c. is_ascii c \<and> \<not> space_char c \<and> c \<noteq> CHR ''='' \<and> c \<noteq> CHR '','') n)"

lemma param_nameD:
  assumes "param_name n"
  shows "ascii n" "CHR ''='' \<notin> set n" "CHR '','' \<notin> set n" "n \<noteq> []" "\<not> space_char (hd n)" "\<not> space_char (last n)"
    "TrimSpace n = n"
proof -
  show a: "ascii n" "CHR ''='' \<notin> set n" "CHR '','' \<notin> set n" "n \<noteq> []"
    using assms by (auto simp: param_name_def ascii_iff list_all_iff)
  then show e: "\<not> space_char (hd n)" "\<not> space_char (last n)"
    using assms by (simp_all add: param_name_def list_all_iff)
  show "TrimSpace n = n" using a e by (intro TrimSpace_id) simp_all
qed

lemma param_names:
  "param_name ''realm''" "param_name ''error''" "param_name ''error_description''"
  "param_name ''acr_values''" "param_name ''max_age''"
  by (simp_all add: param_name_def is_ascii_def space_char_def IsSpace_def between_def)

text \<open>One part, with or without the blank the separator leaves in front of it.\<close>

lemma parse_part_pair:
  assumes n: "param_name n" and v: "ascii v" "v \<noteq> []" "\<not> space_char (hd v)" "\<not> space_char (last v)"
  shows "parse_part (n @ CHR ''='' # v) c = assign_param n (Trim v DQ) c"
    and "parse_part (CHR '' '' # n @ CHR ''='' # v) c = assign_param n (Trim v DQ) c"
proof -
  let ?p = "n @ CHR ''='' # v"
  have asc: "ascii ?p" using n v by (simp add: param_nameD is_ascii_def)
  have t: "TrimSpace ?p = ?p"
    using asc n v by (intro TrimSpace_id) (auto simp: param_nameD hd_append last_append)
  then have tl: "TrimSpace (CHR '' '' # ?p) = ?p"
    using TrimSpace_lead [OF asc, of "CHR '' ''"] by (simp add: space_char_def IsSpace_def is_ascii_def)
  have "SplitN2 ?p ''='' = [n, v]" using n by (intro SplitN2_sep) (simp add: param_nameD)
  moreover have "TrimSpace v = v" using v by (intro TrimSpace_id) auto
  ultimately show "parse_part ?p c = assign_param n (Trim v DQ) c"
    "parse_part (CHR '' '' # ?p) c = assign_param n (Trim v DQ) c"
    using t tl n by (simp_all add: parse_part_def param_nameD(7))
qed

lemma parse_part_quoted:
  assumes "param_name n" "quotable v"
  shows "parse_part (quoted_param n v) c = assign_param n v c"
    and "parse_part (CHR '' '' # quoted_param n v) c = assign_param n v c"
proof -
  have "ascii (DQ # v @ [DQ])" "\<not> space_char (hd (DQ # v @ [DQ]))" "\<not> space_char (last (DQ # v @ [DQ]))"
    using assms by (simp_all add: quotable_iff is_ascii_def space_char_def IsSpace_def between_def)
  then show "parse_part (quoted_param n v) c = assign_param n v c"
    "parse_part (CHR '' '' # quoted_param n v) c = assign_param n v c"
    using parse_part_pair [OF assms(1), of "DQ # v @ [DQ]"] Trim_quotes assms(2)
    by (simp_all add: quoted_param_def quotable_iff)
qed

lemma parse_part_max_age:
  assumes "0 < m" "m < 2 ^ 63"
  shows "parse_part (''max_age'' @ CHR ''='' # show_int m) c = c\<lparr>ch_MaxAge := m\<rparr>"
    and "parse_part (CHR '' '' # ''max_age'' @ CHR ''='' # show_int m) c = c\<lparr>ch_MaxAge := m\<rparr>"
proof -
  let ?v = "show_int m"
  have v: "?v = show_nat (nat m)" using assms by (simp add: show_int_def)
  have d: "\<forall>c \<in> set ?v. is_digit c" using show_nat_digits v by simp
  then have nsp: "\<forall>c \<in> set ?v. is_ascii c \<and> \<not> space_char c \<and> c \<noteq> DQ"
    using digit_ascii by (auto simp: is_digit_def between_def)
  have ne: "?v \<noteq> []" using v by simp
  have "Trim ?v DQ = ?v"
  proof -
    have "dropWhile (\<lambda>x. x = DQ) ?v = ?v" using nsp ne by (auto simp: dropWhile_eq_self_iff)
    moreover have "TrimRight ?v DQ = ?v" using nsp ne by (intro TrimRight_id) auto
    ultimately show ?thesis by (simp add: Trim_def)
  qed
  moreover have "Sscanf_d ?v old = m" for old using Sscanf_show_nat [of "nat m"] assms v by simp
  ultimately have "assign_param ''max_age'' (Trim ?v DQ) c = c\<lparr>ch_MaxAge := m\<rparr>"
    by (simp add: assign_param_def)
  moreover have "ascii ?v" "\<not> space_char (hd ?v)" "\<not> space_char (last ?v)"
    using nsp ne by (auto simp: ascii_iff)
  ultimately show "parse_part (''max_age'' @ CHR ''='' # ?v) c = c\<lparr>ch_MaxAge := m\<rparr>"
    "parse_part (CHR '' '' # ''max_age'' @ CHR ''='' # ?v) c = c\<lparr>ch_MaxAge := m\<rparr>"
    using parse_part_pair [OF param_names(5), of ?v c] ne by simp_all
qed

text \<open>Challenges whose values can be carried: quotable strings, and a limit that fits an integer.\<close>

definition carriable :: "StepUpChallenge \<Rightarrow> bool" where
  "carriable c = (quotable (ch_Realm c) \<and> quotable (ch_Error c) \<and> quotable (ch_ErrorDescription c)
     \<and> quotable (ch_ACRValues c) \<and> 0 \<le> ch_MaxAge c \<and> ch_MaxAge c < 2 ^ 63)"

lemma quotable_IAM: "quotable ''IAM''"
  by (simp add: quotable_def is_ascii_def)

lemma header_parts_cases:
  assumes "carriable c" "p \<in> set (header_parts c)"
  obtains (quoted) n v where "param_name n" "quotable v" "p = quoted_param n v"
  | (max_age) "0 < ch_MaxAge c" "p = ''max_age'' @ CHR ''='' # show_int (ch_MaxAge c)"
  using assms param_names quotable_IAM unfolding header_parts_def carriable_def
  by (auto split: if_splits)

lemma header_parts_blank:
  assumes "carriable c" "p \<in> set (header_parts c)"
  shows "parse_part (CHR '' '' # p) d = parse_part p d"
  using assms(1,2)
proof (cases rule: header_parts_cases)
  case (quoted n v)
  then show ?thesis by (simp add: parse_part_quoted)
next
  case max_age
  with assms(1) parse_part_max_age [of "ch_MaxAge c" d] show ?thesis by (simp add: carriable_def)
qed

lemma header_parts_no_comma:
  assumes "carriable c" "p \<in> set (header_parts c)"
  shows "CHR '','' \<notin> set p"
  using assms(1,2)
proof (cases rule: header_parts_cases)
  case (quoted n v)
  then show ?thesis by (simp add: quoted_param_def quotable_iff param_nameD)
next
  case max_age
  with show_nat_digits [of "nat (ch_MaxAge c)"] show ?thesis
    by (auto simp: show_int_def is_digit_def between_def)
qed

lemma fold_header_parts:
  assumes c: "carriable c"
  shows "fold parse_part (Split (Join (header_parts c) '', '') (CHR '','')) d = fold parse_part (header_parts c) d"
proof -
  obtain p ps where ps: "header_parts c = p # ps" by (cases "header_parts c") (auto simp: header_parts_def)
  have "fold parse_part (map (\<lambda>p. CHR '' '' # p) ps) d = fold parse_part ps d" for d
    using header_parts_blank [OF c] ps by (auto simp: fold_map comp_def intro: fold_cong)
  moreover have "Split (Join (header_parts c) '', '') (CHR '','') = p # map (\<lambda>p. CHR '' '' # p) ps"
    using Split_Join_comma [of "header_parts c"] header_parts_no_comma [OF c] ps by simp
  ultimately show ?thesis using ps by simp
qed

lemma fold_assign:
  assumes c: "carriable c"
  shows "fold parse_part (header_parts c) empty_challenge =
    c\<lparr>ch_Realm := if ch_Realm c = [] then ''IAM'' else ch_Realm c\<rparr>"
  using c quotable_IAM param_names unfolding carriable_def header_parts_def
  by (auto simp: empty_challenge_def parse_part_quoted parse_part_max_age assign_param_def
      simp del: append_Cons)

lemma last_Join: "ps \<noteq> [] \<Longrightarrow> last ps \<noteq> [] \<Longrightarrow> last (Join ps sep) = last (last ps) \<and> Join ps sep \<noteq> []"
  by (induction ps sep rule: Join.induct) auto

lemma set_Join: "set (Join ps sep) \<subseteq> (\<Union>p \<in> set ps. set p) \<union> set sep"
  by (induction ps sep rule: Join.induct) auto

lemma header_parts_ends:
  assumes "carriable c" "p \<in> set (header_parts c)"
  shows "ascii p \<and> p \<noteq> [] \<and> \<not> space_char (last p)"
  using assms(1,2)
proof (cases rule: header_parts_cases)
  case (quoted n v)
  then show ?thesis
    by (simp add: quoted_param_def quotable_iff param_nameD is_ascii_def space_char_def IsSpace_def between_def)
next
  case max_age
  have d: "\<forall>c \<in> set (show_int (ch_MaxAge c)). is_digit c" "show_int (ch_MaxAge c) \<noteq> []"
    using max_age(1) show_nat_digits by (simp_all add: show_int_def)
  then have "is_digit (last (show_int (ch_MaxAge c)))" by simp
  with max_age d digit_ascii show ?thesis by (simp add: ascii_iff is_ascii_def)
qed

lemma TrimSpace_header:
  assumes c: "carriable c"
  shows "TrimSpace (WWWAuthenticateHeader c) = WWWAuthenticateHeader c"
proof -
  have ne: "header_parts c \<noteq> []" by (simp add: header_parts_def)
  have l: "last (header_parts c) \<in> set (header_parts c)" using ne by simp
  have "ascii (Join (header_parts c) '', '')"
  proof -
    have "\<forall>p \<in> set (header_parts c). ascii p" using header_parts_ends [OF c] by blast
    moreover have "ascii '', ''" by (simp add: is_ascii_def)
    ultimately show ?thesis
      using set_Join [of "header_parts c" "'', ''"] unfolding ascii_iff by blast
  qed
  moreover have "\<not> space_char (last (Join (header_parts c) '', ''))" "Join (header_parts c) '', '' \<noteq> []"
    using last_Join [OF ne] header_parts_ends [OF c l] by simp_all
  ultimately show ?thesis
    unfolding WWWAuthenticateHeader_def
    by (intro TrimSpace_id) (simp_all add: is_ascii_def space_char_def IsSpace_def between_def)
qed

text \<open>Trimming and splitting only drop characters, so a parsed value has none that a part lacks.\<close>

lemma set_TrimSpace: "set (TrimSpace s) \<subseteq> set s"
proof -
  have "set (trim_runes rs) \<subseteq> set rs" for rs
    unfolding trim_runes_def by (auto dest!: set_dropWhileD)
  then have "set (concat (map snd (trim_runes (runes s)))) \<subseteq> set (concat (map snd (runes s)))" by auto
  then show ?thesis by (simp only: concat_runes TrimSpace_def)
qed

lemma set_Trim: "set (Trim s c) \<subseteq> set s"
  by (auto simp: Trim_def TrimRight_def dest!: set_dropWhileD)

lemma set_SplitN2: "w \<in> set (SplitN2 s sep) \<Longrightarrow> set w \<subseteq> set s"
  by (auto simp: SplitN2_def split: option.splits dest: in_set_takeD in_set_dropD)

lemma parse_part_no_comma:
  assumes "CHR '','' \<notin> set p" "CHR '','' \<notin> set (ch_ErrorDescription c)"
  shows "CHR '','' \<notin> set (ch_ErrorDescription (parse_part p c))"
proof (cases "\<exists>k v. SplitN2 (TrimSpace p) ''='' = [k, v]")
  case True
  then obtain k v where kv: "SplitN2 (TrimSpace p) ''='' = [k, v]" by blast
  then have "set v \<subseteq> set (TrimSpace p)" by (intro set_SplitN2 [of v _ "''=''"]) simp
  then have "set (Trim (TrimSpace v) DQ) \<subseteq> set p"
    using set_Trim set_TrimSpace by (meson order_trans)
  then have "CHR '','' \<notin> set (Trim (TrimSpace v) DQ)" using assms(1) by blast
  then show ?thesis using kv assms(2) by (simp add: parse_part_def assign_param_def)
next
  case False
  then have "parse_part p c = c" by (auto simp: parse_part_def split: list.splits)
  with assms(2) show ?thesis by simp
qed

lemma fold_parse_no_comma:
  "\<forall>p \<in> set ps. CHR '','' \<notin> set p \<Longrightarrow> CHR '','' \<notin> set (ch_ErrorDescription c) \<Longrightarrow>
   CHR '','' \<notin> set (ch_ErrorDescription (fold parse_part ps c))"
  by (induction ps arbitrary: c) (auto simp: parse_part_no_comma)

lemma parse_header_back:
  assumes "carriable c"
  shows "ParseWWWAuthenticate (WWWAuthenticateHeader c)
    = Inr (c\<lparr>ch_Realm := if ch_Realm c = [] then ''IAM'' else ch_Realm c\<rparr>)"
proof -
  have "TrimPrefix (WWWAuthenticateHeader c) ''Bearer '' = Join (header_parts c) '', ''"
    and "HasPrefix (WWWAuthenticateHeader c) ''Bearer ''"
    unfolding WWWAuthenticateHeader_def by (simp_all only: TrimPrefix_append HasPrefix_append)
  then show ?thesis
    using fold_header_parts [OF assms] fold_assign [OF assms]
    by (simp add: ParseWWWAuthenticate_def TrimSpace_header [OF assms])
qed

text \<open>What the response writer sends for a challenge, given that nothing was written before.\<close>

lemma WriteChallenge_fields [http_simps]:
  assumes "rw_Status w = None"
  shows "rw_Status (WriteChallenge c w) = Some 401"
    and "Header_Get (rw_Sent (WriteChallenge c w)) ''WWW-Authenticate'' = WWWAuthenticateHeader c"
    and "rw_Body (WriteChallenge c w) = rw_Body w @ challenge_body c"
    and "Header_Values (rw_Sent (WriteChallenge c w)) ''Set-Cookie'' = Header_Values (rw_Header w) ''Set-Cookie''"
proof -
  have ne: "CanonicalHeaderKey ''Content-Type'' \<noteq> CanonicalHeaderKey ''WWW-Authenticate''"
    "CanonicalHeaderKey ''Content-Type'' \<noteq> CanonicalHeaderKey ''Set-Cookie''"
    "CanonicalHeaderKey ''WWW-Authenticate'' \<noteq> CanonicalHeaderKey ''Set-Cookie''"
    by (simp_all add: header_key_simps)
  show "Header_Values (rw_Sent (WriteChallenge c w)) ''Set-Cookie'' = Header_Values (rw_Header w) ''Set-Cookie''"
    using assms ne(2,3) by (simp add: WriteChallenge_def http_simps)
  show "rw_Status (WriteChallenge c w) = Some 401"
    "rw_Body (WriteChallenge c w) = rw_Body w @ challenge_body c"
    using assms by (simp_all add: WriteChallenge_def http_simps)
  show "Header_Get (rw_Sent (WriteChallenge c w)) ''WWW-Authenticate'' = WWWAuthenticateHeader c"
    using assms ne(1) by (simp add: WriteChallenge_def http_simps)
qed

section \<open>Properties\<close>

text \<open>The challenge survives the wire.  Parsing the header that is built for a challenge with
  quotable values and a non-negative limit gives the challenge back, an empty realm being
  replaced by \<^verbatim>\<open>IAM\<close>.\<close>

lemma challenge_roundtrip:
  assumes "carriable c"
  shows "ParseWWWAuthenticate (WWWAuthenticateHeader c)
    = Inr (c\<lparr>ch_Realm := if ch_Realm c = [] then ''IAM'' else ch_Realm c\<rparr>)"
  using assms by (rule parse_header_back)

theorem challenge_roundtrip_witness:
  "ParseWWWAuthenticate (WWWAuthenticateHeader (NewStepUpChallenge (NewInsufficientACRError ''gold'' 300) ''shop''))
    = Inr (NewStepUpChallenge (NewInsufficientACRError ''gold'' 300) ''shop'')"
  using challenge_roundtrip [of "NewStepUpChallenge (NewInsufficientACRError ''gold'' 300) ''shop''"]
  by (simp add: carriable_def NewStepUpChallenge_def NewInsufficientACRError_def quotable_def is_ascii_def
      ErrCodeInsufficientUserAuthentication_def)

text \<open>A description with a comma never comes back: header values are not escaped and the
  parser splits at every comma, whatever the other fields are.\<close>

lemma challenge_comma_lost:
  assumes "CHR '','' \<in> set (ch_ErrorDescription c)"
  shows "\<forall>d. ParseWWWAuthenticate (WWWAuthenticateHeader c) = Inr d \<longrightarrow>
    ch_ErrorDescription d \<noteq> ch_ErrorDescription c"
proof (intro allI impI)
  fix d assume "ParseWWWAuthenticate (WWWAuthenticateHeader c) = Inr d"
  then obtain params where d: "d = fold parse_part (Split params (CHR '','')) empty_challenge"
    by (auto simp: ParseWWWAuthenticate_def Let_def split: if_splits)
  have "CHR '','' \<notin> set (ch_ErrorDescription d)"
    unfolding d by (rule fold_parse_no_comma) (auto simp: empty_challenge_def dest: Split_no_sep)
  with assms show "ch_ErrorDescription d \<noteq> ch_ErrorDescription c" by auto
qed

definition wit_comma :: StepUpChallenge where
  "wit_comma = empty_challenge\<lparr>ch_ErrorDescription := ''a, b''\<rparr>"

theorem challenge_comma_lost_witness:
  "\<exists>d. ParseWWWAuthenticate (WWWAuthenticateHeader wit_comma) = Inr d \<and> ch_ErrorDescription d \<noteq> ''a, b''"
proof -
  have t: "TrimSpace (WWWAuthenticateHeader wit_comma) = WWWAuthenticateHeader wit_comma"
    by (rule TrimSpace_id) (simp_all add: WWWAuthenticateHeader_def header_parts_def quoted_param_def wit_comma_def
        empty_challenge_def is_ascii_def space_char_def IsSpace_def between_def)
  have "HasPrefix (WWWAuthenticateHeader wit_comma) ''Bearer ''"
    unfolding WWWAuthenticateHeader_def by (rule HasPrefix_append)
  then obtain d where d: "ParseWWWAuthenticate (WWWAuthenticateHeader wit_comma) = Inr d"
    by (simp add: ParseWWWAuthenticate_def t Let_def)
  have "CHR '','' \<in> set (ch_ErrorDescription wit_comma)" by (simp add: wit_comma_def)
  from challenge_comma_lost [OF this] d show ?thesis by (auto simp: wit_comma_def)
qed

end
