(* ===== verification/Step_Up.thy ===== *)
theory Step_Up
  imports Challenge Json
begin

text \<open>
  The step-up flow (\<^verbatim>\<open>pkg/core/stepup/statemachine.go\<close>): the saved request and its encoding,
  the flow states with their transitions, and the signed state cookie.  The HMAC and the JSON
  text level are parameters; the 16 random bytes of a state id and the clock readings are
  arguments, in the order the code takes them.
\<close>

section \<open>States and saved requests\<close>

definition CookieName :: string where
  "CookieName = ''iam_stepup_state''"

abbreviation cookieMaxAge :: int where "cookieMaxAge \<equiv> 600"

datatype State = StateIdle | StateChallenge | StateCompleted | StateFailed

fun State_String :: "State \<Rightarrow> string" where
  "State_String StateIdle = ''idle''"
| "State_String StateChallenge = ''challenge''"
| "State_String StateCompleted = ''completed''"
| "State_String StateFailed = ''failed''"

record SavedRequest =
  sr_Method :: string
  sr_Path :: string
  sr_Query :: string
  sr_StateID :: string
  sr_SavedAt :: time
  sr_ACRHint :: string
  sr_MaxAge :: int

definition empty_saved :: SavedRequest where
  "empty_saved = \<lparr>sr_Method = [], sr_Path = [], sr_Query = [], sr_StateID = [], sr_SavedAt = zero_time,
     sr_ACRHint = [], sr_MaxAge = 0\<rparr>"

text \<open>The JSON object of a saved request, in field order, given the text of its time.\<close>

definition saved_json :: "string \<Rightarrow> SavedRequest \<Rightarrow> json" where
  "saved_json t sr = JObj [(''Method'', JStr (sr_Method sr)), (''Path'', JStr (sr_Path sr)),
     (''Query'', JStr (sr_Query sr)), (''StateID'', JStr (sr_StateID sr)), (''SavedAt'', JStr t),
     (''ACRHint'', JStr (sr_ACRHint sr)), (''MaxAge'', JInt (sr_MaxAge sr))]"

definition SavedRequest_Encode :: "json_codec \<Rightarrow> SavedRequest \<Rightarrow> string result" where
  "SavedRequest_Encode codec sr = (case time_print codec (sr_SavedAt sr) of
       None \<Rightarrow> Inl (Errorf ''Time.MarshalJSON: year outside of range [0,9999]'')
     | Some t \<Rightarrow> Inr (URLEncoding_Encode (json_print codec (saved_json t sr))))"

definition saved_member :: "json_codec \<Rightarrow> string \<Rightarrow> json \<Rightarrow> SavedRequest \<Rightarrow> SavedRequest result" where
  "saved_member codec k v sr =
     (if EqualFold k ''Method'' then store (into_string v (sr_Method sr)) (\<lambda>x. sr\<lparr>sr_Method := x\<rparr>)
      else if EqualFold k ''Path'' then store (into_string v (sr_Path sr)) (\<lambda>x. sr\<lparr>sr_Path := x\<rparr>)
      else if EqualFold k ''Query'' then store (into_string v (sr_Query sr)) (\<lambda>x. sr\<lparr>sr_Query := x\<rparr>)
      else if EqualFold k ''StateID'' then store (into_string v (sr_StateID sr)) (\<lambda>x. sr\<lparr>sr_StateID := x\<rparr>)
      else if EqualFold k ''SavedAt'' then store (into_time codec v (sr_SavedAt sr)) (\<lambda>x. sr\<lparr>sr_SavedAt := x\<rparr>)
      else if EqualFold k ''ACRHint'' then store (into_string v (sr_ACRHint sr)) (\<lambda>x. sr\<lparr>sr_ACRHint := x\<rparr>)
      else if EqualFold k ''MaxAge'' then store (into_int64 v (sr_MaxAge sr)) (\<lambda>x. sr\<lparr>sr_MaxAge := x\<rparr>)
      else Inr sr)"

definition DecodeSavedRequest :: "json_codec \<Rightarrow> string \<Rightarrow> SavedRequest result" where
  "DecodeSavedRequest codec encoded = (case URLEncoding_Decode encoded of
       Inl e \<Rightarrow> Inl (Wrapf ''invalid encoded state: '' e)
     | Inr b \<Rightarrow> (case json_parse codec b of
           None \<Rightarrow> Inl (Wrapf ''invalid state payload: '' json_syntax_error)
         | Some j \<Rightarrow> (case into_struct (saved_member codec) j empty_saved of
               Inl e \<Rightarrow> Inl (Wrapf ''invalid state payload: '' e) | Inr sr \<Rightarrow> Inr sr)))"

section \<open>The flow\<close>

record FlowState =
  fs_State :: State
  fs_Challenge :: "StepUpChallenge option"
  fs_SavedRequest :: "SavedRequest option"
  fs_StartedAt :: time
  fs_CompletedAt :: time

record StateMachine =
  sm_Timeout :: duration

definition NewStateMachine :: StateMachine where
  "NewStateMachine = \<lparr>sm_Timeout = 10 * Minute\<rparr>"

definition newStateID :: "string \<Rightarrow> string" where
  "newStateID b = hex_EncodeToString b"

text \<open>\<open>now1\<close> and \<open>now2\<close> are the readings for \<^verbatim>\<open>SavedAt\<close> and \<^verbatim>\<open>StartedAt\<close>.\<close>

definition BeginChallenge ::
  "StateMachine \<Rightarrow> string \<Rightarrow> time \<Rightarrow> time \<Rightarrow> http_request \<Rightarrow> StepUpChallenge \<Rightarrow> FlowState result" where
  "BeginChallenge sm entropy now1 now2 r challenge =
     (let saved = \<lparr>sr_Method = rq_Method r, sr_Path = rq_Path r, sr_Query = rq_RawQuery r,
                   sr_StateID = newStateID entropy, sr_SavedAt = now1,
                   sr_ACRHint = ch_ACRValues challenge, sr_MaxAge = ch_MaxAge challenge\<rparr>
      in Inr \<lparr>fs_State = StateChallenge, fs_Challenge = Some challenge, fs_SavedRequest = Some saved,
              fs_StartedAt = now2, fs_CompletedAt = zero_time\<rparr>)"

text \<open>The error, if any, and the flow after the call; \<open>now1\<close> decides the time-out and \<open>now2\<close>
  is recorded.\<close>

definition Complete :: "StateMachine \<Rightarrow> time \<Rightarrow> time \<Rightarrow> FlowState \<Rightarrow> error option \<times> FlowState" where
  "Complete sm now1 now2 flow =
     (if fs_State flow \<noteq> StateChallenge
      then (Some (Errorf (''cannot complete flow in state '' @ State_String (fs_State flow))), flow)
      else if sm_Timeout sm < Since now1 (fs_StartedAt flow)
      then (Some (Errorf ''step-up challenge timed out''), flow\<lparr>fs_State := StateFailed\<rparr>)
      else (None, flow\<lparr>fs_State := StateCompleted, fs_CompletedAt := now2\<rparr>))"

definition Fail :: "StateMachine \<Rightarrow> FlowState \<Rightarrow> FlowState" where
  "Fail sm flow = flow\<lparr>fs_State := StateFailed\<rparr>"

text \<open>The flow in a request context.\<close>

record request_context =
  cx_Flow :: "FlowState option"

definition WithFlowState :: "'a request_context_scheme \<Rightarrow> FlowState \<Rightarrow> 'a request_context_scheme" where
  "WithFlowState ctx flow = ctx\<lparr>cx_Flow := Some flow\<rparr>"

definition FlowStateFromContext :: "'a request_context_scheme \<Rightarrow> FlowState option" where
  "FlowStateFromContext ctx = cx_Flow ctx"

section \<open>The state cookie\<close>

definition signPayload :: "(string \<Rightarrow> string \<Rightarrow> string) \<Rightarrow> string \<Rightarrow> string \<Rightarrow> string" where
  "signPayload hmac payload key = RawURLEncoding_Encode (hmac key payload)"

definition SetStateCookie ::
  "json_codec \<Rightarrow> (string \<Rightarrow> string \<Rightarrow> string) \<Rightarrow> SavedRequest \<Rightarrow> string \<Rightarrow> response \<Rightarrow> error option \<times> response" where
  "SetStateCookie codec hmac saved signingKey w = (case SavedRequest_Encode codec saved of
       Inl e \<Rightarrow> (Some (Wrapf ''encoding saved request: '' e), w)
     | Inr payload \<Rightarrow>
        (let value = payload @ ''.'' @ signPayload hmac payload signingKey in
         (None, SetCookie \<lparr>ck_Name = CookieName, ck_Value = value, ck_Path = ''/'',
            ck_MaxAge = cookieMaxAge, ck_HttpOnly = True, ck_SameSiteLax = True\<rparr> w)))"

definition ClearStateCookie :: "response \<Rightarrow> response" where
  "ClearStateCookie w = SetCookie \<lparr>ck_Name = CookieName, ck_Value = [], ck_Path = ''/'',
     ck_MaxAge = - 1, ck_HttpOnly = True, ck_SameSiteLax = False\<rparr> w"

definition ReadStateCookie ::
  "json_codec \<Rightarrow> (string \<Rightarrow> string \<Rightarrow> string) \<Rightarrow> time \<Rightarrow> http_request \<Rightarrow> string \<Rightarrow> SavedRequest option result" where
  "ReadStateCookie codec hmac now r signingKey = (case request_Cookie r CookieName of
       None \<Rightarrow> Inr None
     | Some value \<Rightarrow> (case SplitN2 value ''.'' of
           [payload, sig] \<Rightarrow>
             if sig \<noteq> signPayload hmac payload signingKey
             then Inl (Errorf ''invalid step-up cookie signature'')
             else (case DecodeSavedRequest codec payload of
                 Inl e \<Rightarrow> Inl (Wrapf ''decoding step-up cookie: '' e)
               | Inr saved \<Rightarrow>
                   if cookieMaxAge * Second < Since now (sr_SavedAt saved)
                   then Inl (Errorf ''step-up cookie expired'')
                   else Inr (Some saved))
         | _ \<Rightarrow> Inl (Errorf ''malformed step-up cookie'')))"

section \<open>Lemmas\<close>

text \<open>The JSON text level keeps a saved request when its object and its time come back.\<close>

definition codec_keeps :: "json_codec \<Rightarrow> SavedRequest \<Rightarrow> bool" where
  "codec_keeps codec sr = (case time_print codec (sr_SavedAt sr) of None \<Rightarrow> False
     | Some t \<Rightarrow> time_parse codec t = Some (sr_SavedAt sr)
         \<and> json_parse codec (json_print codec (saved_json t sr)) = Some (saved_json t sr))"

lemma saved_member_fields:
  "saved_member codec ''Method'' v sr = store (into_string v (sr_Method sr)) (\<lambda>x. sr\<lparr>sr_Method := x\<rparr>)"
  "saved_member codec ''Path'' v sr = store (into_string v (sr_Path sr)) (\<lambda>x. sr\<lparr>sr_Path := x\<rparr>)"
  "saved_member codec ''Query'' v sr = store (into_string v (sr_Query sr)) (\<lambda>x. sr\<lparr>sr_Query := x\<rparr>)"
  "saved_member codec ''StateID'' v sr = store (into_string v (sr_StateID sr)) (\<lambda>x. sr\<lparr>sr_StateID := x\<rparr>)"
  "saved_member codec ''SavedAt'' v sr = store (into_time codec v (sr_SavedAt sr)) (\<lambda>x. sr\<lparr>sr_SavedAt := x\<rparr>)"
  "saved_member codec ''ACRHint'' v sr = store (into_string v (sr_ACRHint sr)) (\<lambda>x. sr\<lparr>sr_ACRHint := x\<rparr>)"
  "saved_member codec ''MaxAge'' v sr = store (into_int64 v (sr_MaxAge sr)) (\<lambda>x. sr\<lparr>sr_MaxAge := x\<rparr>)"
  by (simp_all add: saved_member_def fold_simps)

lemma saved_json_decodes:
  assumes "time_parse codec t = Some (sr_SavedAt sr)" "int64 (sr_MaxAge sr)"
  shows "into_struct (saved_member codec) (saved_json t sr) empty_saved = Inr sr"
  using assms by (simp add: saved_json_def empty_saved_def saved_member_fields)

lemma Encode_Decode:
  assumes "codec_keeps codec sr" "int64 (sr_MaxAge sr)"
  shows "\<exists>p. SavedRequest_Encode codec sr = Inr p \<and> DecodeSavedRequest codec p = Inr sr"
  using assms
  by (auto simp: codec_keeps_def SavedRequest_Encode_def DecodeSavedRequest_def saved_json_decodes
      split: option.splits)

lemma Encode_plain:
  assumes "SavedRequest_Encode codec sr = Inr p"
  shows "list_all plain_cookie_char p" "CHR ''.'' \<notin> set p"
proof -
  have c: "url_safe c \<or> c = CHR ''=''" if "c \<in> set p" for c
    using assms that b64_encode_safe [of c True]
    by (auto simp: SavedRequest_Encode_def URLEncoding_Encode_def split: option.splits)
  have "plain_cookie_char (CHR ''='')" by (simp add: plain_cookie_char_def between_def)
  moreover have "url_safe c \<Longrightarrow> plain_cookie_char c" for c
    by (auto simp: url_safe_def b64_value_def plain_cookie_char_def between_def Let_def split: if_splits)
  ultimately show "list_all plain_cookie_char p" unfolding list_all_iff using c by blast
  have "\<not> url_safe (CHR ''.'')" using url_safe_not by blast
  then show "CHR ''.'' \<notin> set p" using c [of "CHR ''.''"] by auto
qed

lemma CookieName_token: "CookieName \<noteq> []" "list_all is_token_char CookieName"
  by (simp_all add: CookieName_def is_token_char_def between_def)

lemma signPayload_plain: "list_all plain_cookie_char (signPayload hmac p key)"
proof -
  have "url_safe c \<Longrightarrow> plain_cookie_char c" for c
    by (auto simp: url_safe_def b64_value_def plain_cookie_char_def between_def Let_def split: if_splits)
  then show ?thesis
    using b64_encode_raw_safe by (auto simp: signPayload_def RawURLEncoding_Encode_def list_all_iff)
qed

text \<open>The value of the state cookie of a saved request.\<close>

definition state_cookie_value :: "(string \<Rightarrow> string \<Rightarrow> string) \<Rightarrow> string \<Rightarrow> string \<Rightarrow> string" where
  "state_cookie_value hmac key payload = payload @ ''.'' @ signPayload hmac payload key"

lemma SetStateCookie_line:
  assumes "SavedRequest_Encode codec saved = Inr p"
  shows "\<exists>line. SetStateCookie codec hmac saved key w =
      (None, w\<lparr>rw_Header := Header_Add (rw_Header w) ''Set-Cookie'' line\<rparr>)
    \<and> cookie_pair line = CookieName @ CHR ''='' # state_cookie_value hmac key p"
proof -
  define ck where "ck = \<lparr>ck_Name = CookieName, ck_Value = state_cookie_value hmac key p, ck_Path = ''/'',
            ck_MaxAge = cookieMaxAge, ck_HttpOnly = True, ck_SameSiteLax = True\<rparr>"
  have "list_all plain_cookie_char (state_cookie_value hmac key p)"
    using Encode_plain [OF assms] signPayload_plain
    by (simp add: state_cookie_value_def plain_cookie_char_def between_def)
  then have pair: "cookie_pair (Cookie_String ck) = CookieName @ CHR ''='' # state_cookie_value hmac key p"
    using Cookie_String_pair [of ck] CookieName_token by (simp add: ck_def)
  have "Cookie_String ck \<noteq> []"
    using CookieName_token by (simp add: Cookie_String_def ck_def)
  then have "SetStateCookie codec hmac saved key w =
      (None, w\<lparr>rw_Header := Header_Add (rw_Header w) ''Set-Cookie'' (Cookie_String ck)\<rparr>)"
    using assms by (simp add: SetStateCookie_def SetCookie_def Let_def ck_def state_cookie_value_def)
  with pair show ?thesis by blast
qed

lemma ReadStateCookie_value:
  assumes "SavedRequest_Encode codec saved = Inr p" "request_Cookie r CookieName = Some (state_cookie_value hmac key p)"
    and "DecodeSavedRequest codec p = Inr saved" "Since now (sr_SavedAt saved) \<le> cookieMaxAge * Second"
  shows "ReadStateCookie codec hmac now r key = Inr (Some saved)"
proof -
  have "SplitN2 (state_cookie_value hmac key p) ''.'' = [p, signPayload hmac p key]"
    unfolding state_cookie_value_def append_Cons append_Nil
    using Encode_plain(2) [OF assms(1)] by (rule SplitN2_sep)
  with assms show ?thesis by (simp add: ReadStateCookie_def)
qed

lemma SplitN2_pairD:
  assumes "SplitN2 s sep = [a, b]"
  shows "s = a @ sep @ b"
proof -
  obtain i where i: "Index s sep = Some i" and ab: "a = take i s" "b = drop (i + length sep) s"
    using assms by (auto simp: SplitN2_def split: option.splits)
  from Index_SomeD [OF i] obtain t where t: "s = take i s @ sep @ t" "i \<le> length s" by blast
  then have "drop (i + length sep) s = t"
    by (metis add.commute append_eq_conv_conj drop_drop length_take min.absorb2)
  with t ab show ?thesis by simp
qed

lemma ReadStateCookie_SomeD:
  assumes "ReadStateCookie codec hmac now r key = Inr (Some saved)"
  obtains p where "request_Cookie r CookieName = Some (state_cookie_value hmac key p)"
    "DecodeSavedRequest codec p = Inr saved" "Since now (sr_SavedAt saved) \<le> cookieMaxAge * Second"
proof -
  from assms obtain v p sig where v: "request_Cookie r CookieName = Some v" and s: "SplitN2 v ''.'' = [p, sig]"
    and sig: "sig = signPayload hmac p key" and rest: "DecodeSavedRequest codec p = Inr saved"
      "Since now (sr_SavedAt saved) \<le> cookieMaxAge * Second"
    by (auto simp: ReadStateCookie_def split: option.splits list.splits if_splits sum.splits)
  from SplitN2_pairD [OF s] have "v = state_cookie_value hmac key p"
    by (simp add: state_cookie_value_def sig)
  with v rest show ?thesis by (intro that) simp_all
qed

lemma SetStateCookie_status [http_simps]: "rw_Status (snd (SetStateCookie codec hmac saved key w)) = rw_Status w"
  by (simp add: SetStateCookie_def Let_def http_simps split: sum.splits)

lemma cookie_comes_back:
  assumes "codec_keeps codec saved" "int64 (sr_MaxAge saved)"
    and "SetStateCookie codec hmac saved key w = (err, w')"
    and "Header_Values (rq_Header r) ''Cookie'' = [cookie_pair (last (Header_Values (rw_Header w') ''Set-Cookie''))]"
    and "now - sr_SavedAt saved \<le> cookieMaxAge * Second"
  shows "err = None \<and> ReadStateCookie codec hmac now r key = Inr (Some saved)"
proof -
  obtain p where p: "SavedRequest_Encode codec saved = Inr p" "DecodeSavedRequest codec p = Inr saved"
    using Encode_Decode [OF assms(1,2)] by blast
  obtain line where w': "err = None" "w' = w\<lparr>rw_Header := Header_Add (rw_Header w) ''Set-Cookie'' line\<rparr>"
    and pair: "cookie_pair line = CookieName @ CHR ''='' # state_cookie_value hmac key p"
    using SetStateCookie_line [OF p(1), of hmac key w] assms(3) by auto
  have "list_all plain_cookie_char (state_cookie_value hmac key p)"
    using Encode_plain [OF p(1)] signPayload_plain
    by (simp add: state_cookie_value_def plain_cookie_char_def between_def)
  then have "request_Cookie r CookieName = Some (state_cookie_value hmac key p)"
    using request_Cookie_plain [OF CookieName_token] assms(4) w' pair by (simp add: http_simps)
  moreover have "Since now (sr_SavedAt saved) \<le> cookieMaxAge * Second"
    using assms(5) by (simp add: Since_def time_Sub_le_iff int64_def)
  ultimately show ?thesis using w' ReadStateCookie_value [OF p(1) _ p(2)] by blast
qed

section \<open>Properties\<close>

text \<open>C11: a saved request survives the redirect.  The cookie that \<^verbatim>\<open>SetStateCookie\<close> adds to the
  response, returned by the user agent as the only cookie within ten minutes, gives back
  exactly the saved request, for every HMAC and key.\<close>

theorem state_cookie_roundtrip:
  assumes "codec_keeps codec saved" "int64 (sr_MaxAge saved)"
    and "SetStateCookie codec hmac saved key w = (err, w')"
    and "Header_Values (rq_Header r) ''Cookie'' = [cookie_pair (last (Header_Values (rw_Header w') ''Set-Cookie''))]"
    and "now - sr_SavedAt saved \<le> cookieMaxAge * Second"
  shows "err = None \<and> ReadStateCookie codec hmac now r key = Inr (Some saved)"
  using assms by (rule cookie_comes_back)

definition wit_saved :: SavedRequest where
  "wit_saved = \<lparr>sr_Method = ''POST'', sr_Path = ''/api/pay'', sr_Query = [], sr_StateID = ''00ff'',
     sr_SavedAt = 0, sr_ACRHint = ''gold'', sr_MaxAge = 300\<rparr>"

definition wit_codec :: json_codec where
  "wit_codec = \<lparr>json_parse = (\<lambda>s. if s = ''J'' then Some (saved_json ''T'' wit_saved) else None),
     json_decode = (\<lambda>_. None), json_print = (\<lambda>_. ''J''), time_parse = (\<lambda>_. Some 0),
     time_print = (\<lambda>_. Some ''T'')\<rparr>"

definition wit_hmac :: "string \<Rightarrow> string \<Rightarrow> string" where
  "wit_hmac key msg = key @ msg"

definition cookie_request :: "string \<Rightarrow> http_request" where
  "cookie_request line = \<lparr>rq_Method = ''GET'', rq_Path = ''/'', rq_RawQuery = [], rq_RequestURI = ''/'',
     rq_Host = ''h'', rq_RemoteAddr = ''10.0.0.1:80'', rq_TLS = True, rq_PeerCertificates = 0,
     rq_Header = [(''Cookie'', [line])], rq_Body = []\<rparr>"

lemma cookie_request_values: "Header_Values (rq_Header (cookie_request line)) ''Cookie'' = [line]"
  by (simp add: cookie_request_def Header_Values_def header_key_simps)

lemma wit_codec_keeps: "codec_keeps wit_codec wit_saved"
  by (simp add: codec_keeps_def wit_codec_def wit_saved_def)

theorem state_cookie_roundtrip_witness:
  "ReadStateCookie wit_codec wit_hmac (5 * Second)
     (cookie_request (cookie_pair (last (Header_Values
        (rw_Header (snd (SetStateCookie wit_codec wit_hmac wit_saved ''k'' new_response))) ''Set-Cookie'')))) ''k''
   = Inr (Some wit_saved)"
  by (rule state_cookie_roundtrip [OF wit_codec_keeps _ prod.collapse [symmetric] cookie_request_values, THEN conjunct2])
     (simp_all add: wit_saved_def int64_def)

text \<open>C12: a state cookie that is accepted is authentic and fresh.  Its value is a payload and the
  HMAC of that very payload under the key, what is returned is the decoding of that payload,
  it is at most ten minutes old, and the same signature on a payload with a different HMAC is
  refused.\<close>

theorem state_cookie_authentic:
  assumes "ReadStateCookie codec hmac now r key = Inr (Some saved)"
  shows "\<exists>p. request_Cookie r CookieName = Some (p @ ''.'' @ signPayload hmac p key)
    \<and> DecodeSavedRequest codec p = Inr saved \<and> now - sr_SavedAt saved \<le> cookieMaxAge * Second
    \<and> (\<forall>r' p'. CHR ''.'' \<notin> set p' \<and> hmac key p' \<noteq> hmac key p
          \<and> request_Cookie r' CookieName = Some (p' @ ''.'' @ signPayload hmac p key)
        \<longrightarrow> ReadStateCookie codec hmac now r' key = Inl (Errorf ''invalid step-up cookie signature''))"
proof -
  obtain p where p: "request_Cookie r CookieName = Some (state_cookie_value hmac key p)"
    "DecodeSavedRequest codec p = Inr saved" "Since now (sr_SavedAt saved) \<le> cookieMaxAge * Second"
    using ReadStateCookie_SomeD [OF assms] .
  have "now - sr_SavedAt saved \<le> cookieMaxAge * Second"
    using p(3) by (simp add: Since_def time_Sub_le_iff int64_def)
  moreover have "ReadStateCookie codec hmac now r' key = Inl (Errorf ''invalid step-up cookie signature'')"
    if "CHR ''.'' \<notin> set p'" "hmac key p' \<noteq> hmac key p"
      "request_Cookie r' CookieName = Some (p' @ ''.'' @ signPayload hmac p key)" for r' p'
  proof -
    have "SplitN2 (p' @ ''.'' @ signPayload hmac p key) ''.'' = [p', signPayload hmac p key]"
      using SplitN2_sep [OF that(1)] by simp
    with that show ?thesis by (simp add: ReadStateCookie_def signPayload_def RawURLEncoding_inj)
  qed
  ultimately show ?thesis using p by (auto simp: state_cookie_value_def)
qed

lemma wit_cookie_read:
  "ReadStateCookie wit_codec wit_hmac (5 * Second) (cookie_request (CookieName @ CHR ''='' #
     state_cookie_value wit_hmac ''k'' (URLEncoding_Encode ''J''))) ''k'' = Inr (Some wit_saved)"
proof (rule ReadStateCookie_value)
  show e: "SavedRequest_Encode wit_codec wit_saved = Inr (URLEncoding_Encode ''J'')"
    by (simp add: SavedRequest_Encode_def wit_codec_def)
  show "DecodeSavedRequest wit_codec (URLEncoding_Encode ''J'') = Inr wit_saved"
    using Encode_Decode [OF wit_codec_keeps] e by (auto simp: wit_saved_def int64_def)
  show "Since (5 * Second) (sr_SavedAt wit_saved) \<le> cookieMaxAge * Second"
    by (simp add: wit_saved_def Since_def time_Sub_def)
  show "request_Cookie (cookie_request (CookieName @ CHR ''='' # state_cookie_value wit_hmac ''k'' (URLEncoding_Encode ''J'')))
      CookieName = Some (state_cookie_value wit_hmac ''k'' (URLEncoding_Encode ''J''))"
    using Encode_plain [OF e] signPayload_plain
    by (intro request_Cookie_plain [OF CookieName_token _ cookie_request_values])
       (simp add: state_cookie_value_def plain_cookie_char_def between_def)
qed

theorem state_cookie_authentic_witness:
  "\<exists>p. DecodeSavedRequest wit_codec p = Inr wit_saved"
  using state_cookie_authentic [OF wit_cookie_read] by blast

section \<open>The life of a flow\<close>

text \<open>The calls on a flow as labelled steps: a completion with its two clock readings, or a failure.\<close>

datatype flow_event = Completes time time | Fails

inductive flow_path :: "StateMachine \<Rightarrow> FlowState \<Rightarrow> flow_event list \<Rightarrow> FlowState \<Rightarrow> bool" for sm where
  flow_start: "flow_path sm f [] f"
| flow_complete: "flow_path sm (snd (Complete sm now1 now2 f)) es g \<Longrightarrow> flow_path sm f (Completes now1 now2 # es) g"
| flow_fail: "flow_path sm (Fail sm f) es g \<Longrightarrow> flow_path sm f (Fails # es) g"

lemma Complete_fields:
  "fs_SavedRequest (snd (Complete sm now1 now2 f)) = fs_SavedRequest f"
  "fs_StartedAt (snd (Complete sm now1 now2 f)) = fs_StartedAt f"
  by (simp_all add: Complete_def)

lemma Complete_state: "fs_State (snd (Complete sm now1 now2 f)) =
    (if fs_State f = StateChallenge
     then if sm_Timeout sm < Since now1 (fs_StartedAt f) then StateFailed else StateCompleted
     else fs_State f)"
  by (simp add: Complete_def)

lemma Fail_fields:
  "fs_State (Fail sm f) = StateFailed" "fs_SavedRequest (Fail sm f) = fs_SavedRequest f"
  "fs_StartedAt (Fail sm f) = fs_StartedAt f"
  by (simp_all add: Fail_def)

lemmas flow_fields = Complete_fields Complete_state Fail_fields

lemma flow_path_failed: "flow_path sm f es g \<Longrightarrow> fs_State f = StateFailed \<Longrightarrow> fs_State g = StateFailed"
  by (induction rule: flow_path.induct) (simp_all add: flow_fields)

lemma flow_path_completed: "flow_path sm f es g \<Longrightarrow> fs_State f = StateCompleted \<Longrightarrow>
    fs_State g = (if Fails \<in> set es then StateFailed else StateCompleted)"
  by (induction rule: flow_path.induct) (auto simp: flow_fields dest: flow_path_failed)

lemma flow_path_keeps: "flow_path sm f es g \<Longrightarrow>
    fs_SavedRequest g = fs_SavedRequest f \<and> fs_StartedAt g = fs_StartedAt f"
  by (induction rule: flow_path.induct) (simp_all add: flow_fields)

text \<open>C38: the life of a flow.  After any sequence of completions and failures from the start of a
  challenge, the saved request is unchanged, and the flow is completed exactly when the
  sequence starts with a completion at which the challenge is no older than the time-out and
  contains no failure; otherwise it is failed, or still open if nothing happened.\<close>

theorem flow_life:
  assumes "BeginChallenge sm entropy now1 now2 r ch = Inr f" "flow_path sm f es g"
    and "int64 (sm_Timeout sm)" "sm_Timeout sm < max_int64"
  shows "fs_SavedRequest g = fs_SavedRequest f
    \<and> fs_State g = (case es of [] \<Rightarrow> StateChallenge
        | Completes t t' # _ \<Rightarrow> if t - now2 \<le> sm_Timeout sm \<and> Fails \<notin> set es then StateCompleted else StateFailed
        | Fails # _ \<Rightarrow> StateFailed)"
proof
  show "fs_SavedRequest g = fs_SavedRequest f" using flow_path_keeps [OF assms(2)] by simp
  have f: "fs_State f = StateChallenge" "fs_StartedAt f = now2"
    using assms(1) by (auto simp: BeginChallenge_def Let_def)
  have late: "sm_Timeout sm < Since t now2 \<longleftrightarrow> sm_Timeout sm < t - now2" for t
    using assms(3,4) by (simp add: Since_def time_Sub_gt_iff)
  show "fs_State g = (case es of [] \<Rightarrow> StateChallenge
        | Completes t t' # _ \<Rightarrow> if t - now2 \<le> sm_Timeout sm \<and> Fails \<notin> set es then StateCompleted else StateFailed
        | Fails # _ \<Rightarrow> StateFailed)"
    using assms(2)
  proof cases
    case flow_start
    with f show ?thesis by simp
  next
    case (flow_complete t t' es')
    then have "fs_State (snd (Complete sm t t' f)) = (if t - now2 \<le> sm_Timeout sm then StateCompleted else StateFailed)"
      using f late [of t] by (simp add: flow_fields)
    with flow_complete flow_path_failed flow_path_completed show ?thesis by (auto split: if_splits)
  next
    case (flow_fail es')
    with flow_path_failed show ?thesis by (simp add: flow_fields)
  qed
qed

theorem flow_life_witness:
  "\<exists>f g. BeginChallenge NewStateMachine [] 0 0 (cookie_request []) empty_challenge = Inr f
     \<and> flow_path NewStateMachine f [Completes Second Second, Completes Second Second] g
     \<and> fs_State g = StateCompleted"
proof -
  obtain f where f: "BeginChallenge NewStateMachine [] 0 0 (cookie_request []) empty_challenge = Inr f"
    by (simp add: BeginChallenge_def Let_def)
  obtain g where g: "flow_path NewStateMachine f [Completes Second Second, Completes Second Second] g"
    by (meson flow_start flow_complete)
  from flow_life [OF f g] f g show ?thesis by (auto simp: NewStateMachine_def int64_def)
qed

end
