(* ===== verification/Claims.thy ===== *)
theory Claims
  imports Http Rar
begin

text \<open>
  Token claims (\<^verbatim>\<open>pkg/core/token/claims.go\<close>) and RFC 7662 introspection
  (\<^verbatim>\<open>introspect.go\<close>): the normalised claims with their accessors, decoding of the
  introspection response, the mapping to claims, the call to the endpoint, and the
  extraction of the bearer token from a header.  The HTTP client is a parameter: it says
  whether an endpoint address is valid and answers a request with a status and a body.
\<close>

section \<open>Claims (claims.go)\<close>

definition ErrMissingToken :: error where "ErrMissingToken = ErrNew ''missing bearer token''"
definition ErrTokenExpired :: error where "ErrTokenExpired = ErrNew ''token has expired''"
definition ErrTokenInactive :: error where "ErrTokenInactive = ErrNew ''token is not active''"
definition ErrDPoPBindingMismatch :: error where
  "ErrDPoPBindingMismatch = ErrNew ''dpop proof does not match token binding''"

record Confirmation =
  cnf_JKT :: string

record CommonClaims =
  cc_Subject :: string
  cc_Issuer :: string
  cc_Audience :: "string list"
  cc_JTI :: string
  cc_ExpiresAt :: time
  cc_IssuedAt :: time
  cc_Confirmation :: "Confirmation option"
  cc_ACR :: string
  cc_AMR :: "string list"
  cc_SessionID :: string
  cc_AuthTime :: time
  cc_Email :: string
  cc_Username :: string
  cc_Roles :: "string list"
  cc_Scopes :: "string list"
  cc_TenantID :: string
  cc_AuthorizationDetails :: "AuthorizationDetail list"
  cc_Extra :: "(string \<times> gval) list option"
  cc_Active :: bool

definition empty_claims :: CommonClaims where
  "empty_claims = \<lparr>cc_Subject = [], cc_Issuer = [], cc_Audience = [], cc_JTI = [], cc_ExpiresAt = zero_time,
     cc_IssuedAt = zero_time, cc_Confirmation = None, cc_ACR = [], cc_AMR = [], cc_SessionID = [],
     cc_AuthTime = zero_time, cc_Email = [], cc_Username = [], cc_Roles = [], cc_Scopes = [],
     cc_TenantID = [], cc_AuthorizationDetails = [], cc_Extra = None, cc_Active = False\<rparr>"

definition AuthAge :: "time \<Rightarrow> CommonClaims \<Rightarrow> duration" where
  "AuthAge now c = (if IsZero (cc_AuthTime c) then 0 else Since now (cc_AuthTime c))"

definition HasDPoP :: "CommonClaims \<Rightarrow> bool" where
  "HasDPoP c = (case cc_Confirmation c of None \<Rightarrow> False | Some cnf \<Rightarrow> cnf_JKT cnf \<noteq> [])"

definition extraString :: "CommonClaims \<Rightarrow> string \<Rightarrow> string" where
  "extraString c key = (case cc_Extra c of None \<Rightarrow> []
     | Some m \<Rightarrow> (case map_of m key of Some (GString s) \<Rightarrow> s | _ \<Rightarrow> []))"

definition HasPARRequestURI :: "CommonClaims \<Rightarrow> bool" where
  "HasPARRequestURI c = (extraString c ''request_uri'' \<noteq> [] \<or> extraString c ''par_id'' \<noteq> [])"

definition GetAuthAge :: "time \<Rightarrow> CommonClaims \<Rightarrow> duration" where
  "GetAuthAge now c = AuthAge now c"

definition GetNonce :: "CommonClaims \<Rightarrow> string" where
  "GetNonce c = extraString c ''nonce''"

definition HasScope :: "CommonClaims \<Rightarrow> string \<Rightarrow> bool" where
  "HasScope c scope = containsString (cc_Scopes c) scope"

definition HasRole :: "CommonClaims \<Rightarrow> string \<Rightarrow> bool" where
  "HasRole c role = containsString (cc_Roles c) role"

section \<open>Introspection responses (introspect.go)\<close>

record IntrospectionResponse =
  ir_Active :: bool
  ir_Sub :: string
  ir_Iss :: string
  ir_Exp :: int
  ir_IAT :: int
  ir_AuthTime :: int
  ir_ACR :: string
  ir_AMR :: "string list"
  ir_Scope :: string
  ir_ClientID :: string
  ir_Username :: string
  ir_TokenType :: string
  ir_JTI :: string
  ir_Aud :: "string list"
  ir_Cnf :: "Confirmation option"
  ir_AuthorizationDetails :: "AuthorizationDetail list"

definition empty_introspection :: IntrospectionResponse where
  "empty_introspection = \<lparr>ir_Active = False, ir_Sub = [], ir_Iss = [], ir_Exp = 0, ir_IAT = 0,
     ir_AuthTime = 0, ir_ACR = [], ir_AMR = [], ir_Scope = [], ir_ClientID = [], ir_Username = [],
     ir_TokenType = [], ir_JTI = [], ir_Aud = [], ir_Cnf = None, ir_AuthorizationDetails = []\<rparr>"

text \<open>A single string or an array of strings; \<^verbatim>\<open>null\<close> decodes as the empty string.\<close>

definition Audience_UnmarshalJSON :: "json \<Rightarrow> string list result" where
  "Audience_UnmarshalJSON b = (case into_string b [] of Inr single \<Rightarrow> Inr [single]
     | Inl _ \<Rightarrow> (case into_strings b of
           Inl e \<Rightarrow> Inl (Wrapf ''aud must be a string or array of strings: '' e) | Inr many \<Rightarrow> Inr many))"

definition into_confirmation :: "json \<Rightarrow> Confirmation option \<Rightarrow> Confirmation option result" where
  "into_confirmation j old = (if j = JNull then Inr None
     else store (into_struct (\<lambda>k v c. if EqualFold k ''jkt'' then store (into_string v (cnf_JKT c)) (\<lambda>x. c\<lparr>cnf_JKT := x\<rparr>)
                                      else Inr c)
            j (case old of None \<Rightarrow> \<lparr>cnf_JKT = []\<rparr> | Some c \<Rightarrow> c)) Some)"

fun into_details :: "json \<Rightarrow> AuthorizationDetail list result" where
  "into_details (JArr vs) = into_list AuthorizationDetail_UnmarshalJSON vs"
| "into_details JNull = Inr []"
| "into_details _ = Inl json_type_error"

definition introspection_member ::
  "string \<Rightarrow> json \<Rightarrow> IntrospectionResponse \<Rightarrow> IntrospectionResponse result" where
  "introspection_member k v r =
     (if EqualFold k ''active'' then store (into_bool v (ir_Active r)) (\<lambda>x. r\<lparr>ir_Active := x\<rparr>)
      else if EqualFold k ''sub'' then store (into_string v (ir_Sub r)) (\<lambda>x. r\<lparr>ir_Sub := x\<rparr>)
      else if EqualFold k ''iss'' then store (into_string v (ir_Iss r)) (\<lambda>x. r\<lparr>ir_Iss := x\<rparr>)
      else if EqualFold k ''exp'' then store (into_int64 v (ir_Exp r)) (\<lambda>x. r\<lparr>ir_Exp := x\<rparr>)
      else if EqualFold k ''iat'' then store (into_int64 v (ir_IAT r)) (\<lambda>x. r\<lparr>ir_IAT := x\<rparr>)
      else if EqualFold k ''auth_time'' then store (into_int64 v (ir_AuthTime r)) (\<lambda>x. r\<lparr>ir_AuthTime := x\<rparr>)
      else if EqualFold k ''acr'' then store (into_string v (ir_ACR r)) (\<lambda>x. r\<lparr>ir_ACR := x\<rparr>)
      else if EqualFold k ''amr'' then store (into_strings v) (\<lambda>x. r\<lparr>ir_AMR := x\<rparr>)
      else if EqualFold k ''scope'' then store (into_string v (ir_Scope r)) (\<lambda>x. r\<lparr>ir_Scope := x\<rparr>)
      else if EqualFold k ''client_id'' then store (into_string v (ir_ClientID r)) (\<lambda>x. r\<lparr>ir_ClientID := x\<rparr>)
      else if EqualFold k ''username'' then store (into_string v (ir_Username r)) (\<lambda>x. r\<lparr>ir_Username := x\<rparr>)
      else if EqualFold k ''token_type'' then store (into_string v (ir_TokenType r)) (\<lambda>x. r\<lparr>ir_TokenType := x\<rparr>)
      else if EqualFold k ''jti'' then store (into_string v (ir_JTI r)) (\<lambda>x. r\<lparr>ir_JTI := x\<rparr>)
      else if EqualFold k ''aud'' then store (Audience_UnmarshalJSON v) (\<lambda>x. r\<lparr>ir_Aud := x\<rparr>)
      else if EqualFold k ''cnf'' then store (into_confirmation v (ir_Cnf r)) (\<lambda>x. r\<lparr>ir_Cnf := x\<rparr>)
      else if EqualFold k ''authorization_details''
           then store (into_details v) (\<lambda>x. r\<lparr>ir_AuthorizationDetails := x\<rparr>)
      else Inr r)"

definition introToCommonClaims :: "IntrospectionResponse \<Rightarrow> CommonClaims" where
  "introToCommonClaims r = empty_claims\<lparr>cc_Active := ir_Active r, cc_Subject := ir_Sub r,
     cc_Issuer := ir_Iss r, cc_Audience := ir_Aud r, cc_JTI := ir_JTI r, cc_ACR := ir_ACR r,
     cc_AMR := ir_AMR r, cc_Username := ir_Username r, cc_Confirmation := ir_Cnf r,
     cc_ExpiresAt := (if 0 < ir_Exp r then Unix (ir_Exp r) else zero_time),
     cc_IssuedAt := (if 0 < ir_IAT r then Unix (ir_IAT r) else zero_time),
     cc_AuthTime := (if 0 < ir_AuthTime r then Unix (ir_AuthTime r) else zero_time),
     cc_Scopes := (if ir_Scope r \<noteq> [] then Fields (ir_Scope r) else []),
     cc_AuthorizationDetails := ir_AuthorizationDetails r\<rparr>"

section \<open>The endpoint call\<close>

text \<open>\<^verbatim>\<open>url.QueryEscape\<close> and \<^verbatim>\<open>Values.Encode\<close> for the two keys, which sort in this order.\<close>

definition upper_hex :: "nat \<Rightarrow> char" where
  "upper_hex d = (if d < 10 then char_of (48 + d) else char_of (55 + d))"

definition unreserved :: "char \<Rightarrow> bool" where
  "unreserved c = (let b = byte_of c in between 48 57 b \<or> between 65 90 b \<or> between 97 122 b
     \<or> c \<in> set ''-_.~'')"

definition QueryEscape :: "string \<Rightarrow> string" where
  "QueryEscape s = concat (map (\<lambda>c. if unreserved c then [c] else if c = CHR '' '' then ''+''
     else [CHR ''%'', upper_hex (byte_of c div 16), upper_hex (byte_of c mod 16)]) s)"

definition form_pair :: "string \<times> string \<Rightarrow> string" where
  "form_pair kv = QueryEscape (fst kv) @ ''='' @ QueryEscape (snd kv)"

definition form_encode :: "(string \<times> string) list \<Rightarrow> string" where
  "form_encode kvs = Join (map form_pair kvs) ''&''"

record client_request =
  cq_Method :: string
  cq_URL :: string
  cq_ContentType :: string
  cq_BasicAuth :: "(string \<times> string) option"
  cq_Body :: string

record client_response =
  cp_StatusCode :: nat
  cp_Body :: string

record http_client =
  hc_NewRequest :: "string \<Rightarrow> error option"
  hc_Do :: "client_request \<Rightarrow> client_response result"

record IntrospectorConfig =
  ic_Endpoint :: string
  ic_ClientID :: string
  ic_ClientSecret :: string

definition Introspect :: "json_codec \<Rightarrow> http_client \<Rightarrow> IntrospectorConfig \<Rightarrow> string \<Rightarrow> CommonClaims result" where
  "Introspect codec client cfg token =
     (case hc_NewRequest client (ic_Endpoint cfg) of
        Some e \<Rightarrow> Inl (Wrapf ''creating introspection request: '' e)
      | None \<Rightarrow>
        (case hc_Do client \<lparr>cq_Method = ''POST'', cq_URL = ic_Endpoint cfg,
                cq_ContentType = ''application/x-www-form-urlencoded'',
                cq_BasicAuth = Some (ic_ClientID cfg, ic_ClientSecret cfg),
                cq_Body = form_encode [(''token'', token), (''token_type_hint'', ''access_token'')]\<rparr> of
           Inl e \<Rightarrow> Inl (Wrapf ''introspection request failed: '' e)
         | Inr resp \<Rightarrow>
             if cp_StatusCode resp \<noteq> 200
             then Inl (Errorf (''introspection endpoint returned '' @ show_nat (cp_StatusCode resp)))
             else (case json_decode codec (cp_Body resp) of
                 None \<Rightarrow> Inl (Wrapf ''decoding introspection response: '' json_syntax_error)
               | Some j \<Rightarrow> (case into_struct introspection_member j empty_introspection of
                     Inl e \<Rightarrow> Inl (Wrapf ''decoding introspection response: '' e)
                   | Inr intro \<Rightarrow> Inr (introToCommonClaims intro)))))"

text \<open>The introspector with its HTTP client and the timeout of a call; \<open>client_with\<close> makes an HTTP client
  with a timeout.  A call that exceeds the timeout is an error of the client.\<close>

record Introspector =
  it_cfg :: IntrospectorConfig
  it_HTTPClient :: http_client
  it_Timeout :: duration

definition NewIntrospector ::
  "(duration \<Rightarrow> http_client) \<Rightarrow> IntrospectorConfig \<Rightarrow> http_client option \<Rightarrow> duration \<Rightarrow> Introspector" where
  "NewIntrospector client_with cfg httpClient timeout =
     \<lparr>it_cfg = cfg, it_HTTPClient = (case httpClient of None \<Rightarrow> client_with (5 * Second) | Some c \<Rightarrow> c),
      it_Timeout = (if timeout = 0 then 5 * Second else timeout)\<rparr>"

definition Introspector_Introspect :: "json_codec \<Rightarrow> Introspector \<Rightarrow> string \<Rightarrow> CommonClaims result" where
  "Introspector_Introspect codec i token = Introspect codec (it_HTTPClient i) (it_cfg i) token"

section \<open>The bearer token\<close>

definition ExtractBearerToken :: "string \<Rightarrow> string result" where
  "ExtractBearerToken authHeader =
     (if authHeader = [] then Inl ErrMissingToken
      else (case SplitN2 authHeader '' '' of
          [scheme, rest] \<Rightarrow>
            if \<not> EqualFold scheme ''bearer'' then Inl (Errorf ''invalid Authorization header format'')
            else (let token = TrimSpace rest in if token = [] then Inl ErrMissingToken else Inr token)
        | _ \<Rightarrow> Inl (Errorf ''invalid Authorization header format'')))"

section \<open>Lemmas\<close>

lemma introToCommonClaims_fields [simp]:
  "cc_Active (introToCommonClaims r) = ir_Active r" "cc_Subject (introToCommonClaims r) = ir_Sub r"
  "cc_Issuer (introToCommonClaims r) = ir_Iss r" "cc_SessionID (introToCommonClaims r) = []"
  "cc_Extra (introToCommonClaims r) = None" "cc_TenantID (introToCommonClaims r) = []"
  "cc_Roles (introToCommonClaims r) = []" "cc_Email (introToCommonClaims r) = []"
  by (simp_all add: introToCommonClaims_def empty_claims_def)

lemma Introspect_InrD:
  assumes "Introspect codec client cfg token = Inr c"
  obtains r where "c = introToCommonClaims r"
  using assms by (auto simp: Introspect_def split: option.splits sum.splits if_splits)

text \<open>A token without white space that is sent under the bearer scheme is extracted as it is.\<close>

lemma ExtractBearerToken_bearer:
  assumes "EqualFold scheme ''bearer''" "CHR '' '' \<notin> set scheme" "scheme \<noteq> []"
    and "ascii t" "t \<noteq> []" "\<forall>c \<in> set t. \<not> space_char c"
  shows "ExtractBearerToken (scheme @ CHR '' '' # t) = Inr t"
proof -
  have "TrimSpace t = t" using assms by (intro TrimSpace_id) simp_all
  moreover have "SplitN2 (scheme @ CHR '' '' # t) '' '' = [scheme, t]" using assms(2) by (rule SplitN2_sep)
  ultimately show ?thesis using assms by (simp add: ExtractBearerToken_def)
qed

lemma ExtractBearerToken_nonempty: "ExtractBearerToken h = Inr t \<Longrightarrow> t \<noteq> []"
  by (auto simp: ExtractBearerToken_def Let_def split: list.splits if_splits)

lemma AuthAge_unknown: "IsZero (cc_AuthTime c) \<Longrightarrow> AuthAge now c = 0"
  by (simp add: AuthAge_def)

end
