(* ===== verification/Cache.thy ===== *)
theory Cache
  imports Claims
begin

text \<open>
  Token caches (\<^verbatim>\<open>pkg/core/token/cache.go\<close>): the \<^verbatim>\<open>Cache\<close> interface as a record of
  operations on a cache state, its contract as the locale \<open>token_cache\<close>, and the in-memory
  cache with its background clean-up, which is shown to meet the contract.  SHA-256 is the
  parameter \<open>sha\<close>.
\<close>

section \<open>The interface\<close>

text \<open>\<^verbatim>\<open>Get\<close> and \<^verbatim>\<open>Set\<close> read the clock, the first argument.\<close>

record 's cache_ops =
  co_Get :: "time \<Rightarrow> 's \<Rightarrow> string \<Rightarrow> CommonClaims option"
  co_Set :: "time \<Rightarrow> 's \<Rightarrow> string \<Rightarrow> CommonClaims \<Rightarrow> duration \<Rightarrow> error option \<times> 's"
  co_Delete :: "'s \<Rightarrow> string \<Rightarrow> error option \<times> 's"
  co_Flush :: "'s \<Rightarrow> error option \<times> 's"

definition HashToken :: "(string \<Rightarrow> string) \<Rightarrow> string \<Rightarrow> string" where
  "HashToken sha token = hex_EncodeToString (sha token)"

text \<open>The switch on the dynamic type of \<^verbatim>\<open>Extra["hashes"]\<close> of an index entry: a slice of strings,
  or after a JSON round trip a slice of interfaces.\<close>

fun string_values :: "gval list \<Rightarrow> string list" where
  "string_values [] = []"
| "string_values (GString s # vs) = s # string_values vs"
| "string_values (_ # vs) = string_values vs"

definition entry_hashes :: "CommonClaims \<Rightarrow> string list" where
  "entry_hashes entry = (case cc_Extra entry of None \<Rightarrow> []
     | Some m \<Rightarrow> (case map_of m ''hashes'' of Some (GStrings v) \<Rightarrow> v
                   | Some (GSlice v) \<Rightarrow> string_values v | _ \<Rightarrow> []))"

section \<open>The contract\<close>

text \<open>What the clients of a cache rely on.  A value set at \<open>now\<close> is returned, in the form
  \<open>norm\<close> the cache gives it, up to and including \<open>now + ttl\<close> and never after; setting and
  deleting leave other keys alone; what is found at some time was found before; the hashes of an index entry survive \<open>norm\<close>, and so do
  the fields the guard decides on.\<close>

locale token_cache =
  fixes ops :: "'s cache_ops" and norm :: "CommonClaims \<Rightarrow> CommonClaims"
  assumes set_ok: "fst (co_Set ops now s k c ttl) = None"
    and delete_ok: "fst (co_Delete ops s k) = None"
    and get_set: "co_Get ops t (snd (co_Set ops now s k c ttl)) k' =
      (if k' = k then if t \<le> now + ttl then Some (norm c) else None else co_Get ops t s k')"
    and get_delete: "co_Get ops t (snd (co_Delete ops s k)) k' = (if k' = k then None else co_Get ops t s k')"
    and get_flush: "co_Get ops t (snd (co_Flush ops s)) k = None"
    and get_earlier: "t \<le> u \<Longrightarrow> co_Get ops u s k = Some c \<Longrightarrow> co_Get ops t s k = Some c"
    and norm_hashes [simp]: "entry_hashes (norm c) = entry_hashes c"
    and norm_claims [simp]: "cc_JTI (norm c) = cc_JTI c" "cc_Active (norm c) = cc_Active c"
      "cc_ExpiresAt (norm c) = cc_ExpiresAt c" "cc_Issuer (norm c) = cc_Issuer c"
begin

text \<open>Deleting a list of keys.\<close>

lemma get_delete_list:
  "co_Get ops t (fold (\<lambda>k s. snd (co_Delete ops s k)) ks s) k' =
     (if k' \<in> set ks then None else co_Get ops t s k')"
  by (induction ks arbitrary: s) (auto simp: get_delete)

lemma set_pair: "co_Set ops now s k c ttl = (None, snd (co_Set ops now s k c ttl))"
  using set_ok by (metis prod.collapse)

lemma delete_pair: "co_Delete ops s k = (None, snd (co_Delete ops s k))"
  using delete_ok by (metis prod.collapse)

end

section \<open>The in-memory cache\<close>

record memoryCacheEntry =
  me_claims :: CommonClaims
  me_expiresAt :: time

record MemoryCache =
  mc_entries :: "string \<rightharpoonup> memoryCacheEntry"

definition NewMemoryCache :: MemoryCache where
  "NewMemoryCache = \<lparr>mc_entries = Map.empty\<rparr>"

definition MemoryCache_Get :: "time \<Rightarrow> MemoryCache \<Rightarrow> string \<Rightarrow> CommonClaims option" where
  "MemoryCache_Get now m key = (case mc_entries m key of None \<Rightarrow> None
     | Some entry \<Rightarrow> if me_expiresAt entry < now then None else Some (me_claims entry))"

definition MemoryCache_Set ::
  "time \<Rightarrow> MemoryCache \<Rightarrow> string \<Rightarrow> CommonClaims \<Rightarrow> duration \<Rightarrow> error option \<times> MemoryCache" where
  "MemoryCache_Set now m key claims ttl =
     (None, m\<lparr>mc_entries := (mc_entries m)(key \<mapsto> \<lparr>me_claims = claims, me_expiresAt = now + ttl\<rparr>)\<rparr>)"

definition MemoryCache_Delete :: "MemoryCache \<Rightarrow> string \<Rightarrow> error option \<times> MemoryCache" where
  "MemoryCache_Delete m key = (None, m\<lparr>mc_entries := (mc_entries m)(key := None)\<rparr>)"

definition MemoryCache_Flush :: "MemoryCache \<Rightarrow> error option \<times> MemoryCache" where
  "MemoryCache_Flush m = (None, m\<lparr>mc_entries := Map.empty\<rparr>)"

text \<open>One tick of the clean-up loop: every entry that has expired is deleted.\<close>

definition MemoryCache_cleanup :: "time \<Rightarrow> MemoryCache \<Rightarrow> MemoryCache" where
  "MemoryCache_cleanup now m = m\<lparr>mc_entries := (\<lambda>k. case mc_entries m k of None \<Rightarrow> None
     | Some v \<Rightarrow> if me_expiresAt v < now then None else Some v)\<rparr>"

definition memory_ops :: "MemoryCache cache_ops" where
  "memory_ops = \<lparr>co_Get = MemoryCache_Get, co_Set = MemoryCache_Set, co_Delete = MemoryCache_Delete,
     co_Flush = MemoryCache_Flush\<rparr>"

lemma memory_ops_sel [simp]:
  "co_Get memory_ops = MemoryCache_Get" "co_Set memory_ops = MemoryCache_Set"
  "co_Delete memory_ops = MemoryCache_Delete" "co_Flush memory_ops = MemoryCache_Flush"
  by (simp_all add: memory_ops_def)

lemmas memory_defs = MemoryCache_Get_def MemoryCache_Set_def MemoryCache_Delete_def MemoryCache_Flush_def

interpretation mc: token_cache memory_ops id
  by unfold_locales (auto simp: memory_defs split: option.splits if_splits)

section \<open>Sequences of operations\<close>

text \<open>The calls of handlers and the ticks of the clean-up goroutine, which the mutex orders; the
  results of the lookups are collected.\<close>

datatype cache_event =
    EGet time string
  | ESet time string CommonClaims duration
  | EDelete string
  | EFlush
  | ETick time

fun event_times :: "cache_event list \<Rightarrow> time list" where
  "event_times [] = []"
| "event_times (EGet t k # es) = t # event_times es"
| "event_times (ESet t k c ttl # es) = t # event_times es"
| "event_times (ETick t # es) = t # event_times es"
| "event_times (_ # es) = event_times es"

fun cache_run :: "cache_event list \<Rightarrow> MemoryCache \<Rightarrow> CommonClaims option list" where
  "cache_run [] m = []"
| "cache_run (EGet t k # es) m = MemoryCache_Get t m k # cache_run es m"
| "cache_run (ESet t k c ttl # es) m = cache_run es (snd (MemoryCache_Set t m k c ttl))"
| "cache_run (EDelete k # es) m = cache_run es (snd (MemoryCache_Delete m k))"
| "cache_run (EFlush # es) m = cache_run es (snd (MemoryCache_Flush m))"
| "cache_run (ETick t # es) m = cache_run es (MemoryCache_cleanup t m)"

fun is_tick :: "cache_event \<Rightarrow> bool" where
  "is_tick (ETick t) = True"
| "is_tick _ = False"

text \<open>Two caches agree from a time on when no later lookup tells them apart.\<close>

definition agree :: "time \<Rightarrow> MemoryCache \<Rightarrow> MemoryCache \<Rightarrow> bool" where
  "agree t m m' = (\<forall>t' \<ge> t. \<forall>k. MemoryCache_Get t' m k = MemoryCache_Get t' m' k)"

lemma agree_later: "agree t m m' \<Longrightarrow> t \<le> u \<Longrightarrow> agree u m m'"
  by (auto simp: agree_def)

lemma agree_set: "agree t m m' \<Longrightarrow>
    agree t (snd (MemoryCache_Set u m k c ttl)) (snd (MemoryCache_Set u m' k c ttl))"
  using mc.get_set by (simp add: agree_def)

lemma agree_delete: "agree t m m' \<Longrightarrow> agree t (snd (MemoryCache_Delete m k)) (snd (MemoryCache_Delete m' k))"
  using mc.get_delete by (simp add: agree_def)

lemma agree_flush: "agree t (snd (MemoryCache_Flush m)) (snd (MemoryCache_Flush m'))"
  using mc.get_flush by (simp add: agree_def)

lemma agree_cleanup: "agree t m m' \<Longrightarrow> u \<le> t \<Longrightarrow> agree t (MemoryCache_cleanup u m) m'"
  by (fastforce simp: agree_def MemoryCache_Get_def MemoryCache_cleanup_def split: option.splits)

lemma cache_run_agree:
  "sorted (event_times es) \<Longrightarrow> \<forall>t \<in> set (event_times es). u \<le> t \<Longrightarrow> agree u m m' \<Longrightarrow>
   cache_run es m = cache_run (filter (\<lambda>e. \<not> is_tick e) es) m'"
proof (induction es m arbitrary: m' u rule: cache_run.induct)
  case (2 t k es m)
  then have "MemoryCache_Get t m k = MemoryCache_Get t m' k" by (simp add: agree_def)
  with "2.IH" [OF _ _ 2(4)] 2 show ?case by simp
next
  case (3 t k c ttl es m)
  from "3.IH" [OF _ _ agree_set [OF 3(4)]] 3 show ?case by simp
next
  case (4 k es m)
  from "4.IH" [OF _ _ agree_delete [OF 4(4)]] 4 show ?case by simp
next
  case (5 es m)
  from "5.IH" [OF _ _ agree_flush, of u] 5 show ?case by simp
next
  case (6 t es m)
  then have "agree t (MemoryCache_cleanup t m) m'" by (auto intro: agree_cleanup agree_later)
  from "6.IH" [OF _ _ this] 6 show ?case by simp
qed simp

section \<open>Properties\<close>

text \<open>The in-memory cache is a map with expiry.  What was set is returned up to its expiry and
  not after, until it is overwritten or deleted; other keys are unaffected; a flush empties
  the cache.\<close>

lemma MemoryCache_map:
  "MemoryCache_Get t (snd (MemoryCache_Set now m k c ttl)) k' =
     (if k' = k then if t \<le> now + ttl then Some c else None else MemoryCache_Get t m k')
   \<and> MemoryCache_Get t (snd (MemoryCache_Delete m k)) k' = (if k' = k then None else MemoryCache_Get t m k')
   \<and> MemoryCache_Get t (snd (MemoryCache_Flush m)) k' = None
   \<and> MemoryCache_Get t NewMemoryCache k' = None"
  using mc.get_set [of t now m k c ttl k'] mc.get_delete [of t m k k'] mc.get_flush [of t m k']
  by (simp add: NewMemoryCache_def MemoryCache_Get_def)

text \<open>C39: the background clean-up cannot be observed.  In any interleaving of lookups, updates and
  clean-up ticks along an advancing clock, the lookups return what they return without the
  ticks.\<close>

theorem MemoryCache_cleanup_invisible:
  assumes "sorted (event_times es)"
  shows "cache_run es m = cache_run (filter (\<lambda>e. \<not> is_tick e) es) m"
proof (cases "event_times es")
  case Nil
  with assms show ?thesis by (intro cache_run_agree [of _ 0]) (simp_all add: agree_def)
next
  case (Cons t ts)
  with assms show ?thesis by (intro cache_run_agree [of _ t]) (auto simp: agree_def)
qed

theorem MemoryCache_cleanup_invisible_witness:
  "cache_run [ESet 0 ''k'' empty_claims 5, EGet 5 ''k'', ETick 6, EGet 7 ''k''] NewMemoryCache
     = [Some empty_claims, None]"
  using MemoryCache_cleanup_invisible
    [of "[ESet 0 ''k'' empty_claims 5, EGet 5 ''k'', ETick 6, EGet 7 ''k'']" NewMemoryCache]
  by (simp add: memory_defs NewMemoryCache_def)

end
