(* ===== verification/Revocation.thy ===== *)
theory Revocation
  imports Cache
begin

text \<open>
  Revocation (\<^verbatim>\<open>pkg/core/token/revocation.go\<close>) and the cached introspector of
  \<^verbatim>\<open>cache.go\<close>: the secondary index from jti, subject and session to token hashes, which is
  kept in the token cache itself, the webhook that evicts tokens, and the cache-first
  introspection that fills cache and index.  The operations are written against the cache
  interface; their lemmas are proved from the cache contract.
\<close>

section \<open>Events and the index\<close>

record RevocationEvent =
  ev_TokenHash :: string
  ev_JTI :: string
  ev_Subject :: string
  ev_SessionID :: string
  ev_RevokeAll :: bool

definition empty_event :: RevocationEvent where
  "empty_event = \<lparr>ev_TokenHash = [], ev_JTI = [], ev_Subject = [], ev_SessionID = [], ev_RevokeAll = False\<rparr>"

definition jtiIndexPrefix :: string where "jtiIndexPrefix = ''idx:jti:''"
definition subIndexPrefix :: string where "subIndexPrefix = ''idx:sub:''"
definition sidIndexPrefix :: string where "sidIndexPrefix = ''idx:sid:''"

definition indexHashes :: "'s cache_ops \<Rightarrow> time \<Rightarrow> 's \<Rightarrow> string \<Rightarrow> string list" where
  "indexHashes c now s key = (case co_Get c now s key of None \<Rightarrow> [] | Some entry \<Rightarrow> entry_hashes entry)"

definition index_entry :: "string list \<Rightarrow> CommonClaims" where
  "index_entry hashes = empty_claims\<lparr>cc_Extra := Some [(''hashes'', GStrings hashes)]\<rparr>"

definition appendIndexHash :: "'s cache_ops \<Rightarrow> time \<Rightarrow> 's \<Rightarrow> string \<Rightarrow> string \<Rightarrow> duration \<Rightarrow> 's" where
  "appendIndexHash c now s key tokenHash ttl =
     (let hashes = indexHashes c now s key in
      if containsString hashes tokenHash then s
      else snd (co_Set c now s key (index_entry (hashes @ [tokenHash])) ttl))"

definition IndexClaims :: "'s cache_ops \<Rightarrow> time \<Rightarrow> 's \<Rightarrow> string \<Rightarrow> CommonClaims \<Rightarrow> duration \<Rightarrow> 's" where
  "IndexClaims c now s tokenHash claims ttl =
     (if tokenHash = [] \<or> ttl \<le> 0 then s
      else (let s1 = (if cc_JTI claims \<noteq> []
                      then snd (co_Set c now s (jtiIndexPrefix @ cc_JTI claims) (index_entry [tokenHash]) ttl)
                      else s);
                s2 = (if cc_Subject claims \<noteq> []
                      then appendIndexHash c now s1 (subIndexPrefix @ cc_Subject claims) tokenHash ttl else s1)
            in if cc_SessionID claims \<noteq> []
               then appendIndexHash c now s2 (sidIndexPrefix @ cc_SessionID claims) tokenHash ttl else s2))"

definition lookupIndexHash :: "'s cache_ops \<Rightarrow> time \<Rightarrow> 's \<Rightarrow> string \<Rightarrow> string option" where
  "lookupIndexHash c now s key = (case indexHashes c now s key of [] \<Rightarrow> None | h # _ \<Rightarrow> Some h)"

text \<open>The loop over the hashes; the first error is kept.\<close>

fun delete_hashes :: "'s cache_ops \<Rightarrow> string list \<Rightarrow> error option \<times> 's \<Rightarrow> error option \<times> 's" where
  "delete_hashes c [] (firstErr, s) = (firstErr, s)"
| "delete_hashes c (hash # hs) (firstErr, s) =
     (case co_Delete c s hash of (err, s') \<Rightarrow>
        delete_hashes c hs (if firstErr = None then err else firstErr, s'))"

definition deleteIndexedTokens :: "'s cache_ops \<Rightarrow> time \<Rightarrow> 's \<Rightarrow> string \<Rightarrow> error option \<times> 's" where
  "deleteIndexedTokens c now s key =
     (case delete_hashes c (indexHashes c now s key) (None, s) of (firstErr, s') \<Rightarrow>
        (case co_Delete c s' key of (err, s'') \<Rightarrow> (if firstErr = None then err else firstErr, s'')))"

section \<open>The webhook\<close>

definition process :: "'s cache_ops \<Rightarrow> time \<Rightarrow> 's \<Rightarrow> RevocationEvent \<Rightarrow> error option \<times> 's" where
  "process c now s event =
     (if ev_TokenHash event \<noteq> [] then co_Delete c s (ev_TokenHash event)
      else if ev_JTI event \<noteq> [] then
        (case lookupIndexHash c now s (jtiIndexPrefix @ ev_JTI event) of
           Some hash \<Rightarrow> co_Delete c (snd (co_Delete c s (jtiIndexPrefix @ ev_JTI event))) hash
         | None \<Rightarrow> co_Delete c s (ev_JTI event))
      else if ev_SessionID event \<noteq> [] then deleteIndexedTokens c now s (sidIndexPrefix @ ev_SessionID event)
      else if ev_RevokeAll event \<and> ev_Subject event \<noteq> []
      then deleteIndexedTokens c now s (subIndexPrefix @ ev_Subject event)
      else (Some (Errorf ''revocation event has no identifiable token reference''), s))"

definition verifyHMACSHA256 :: "(string \<Rightarrow> string \<Rightarrow> string) \<Rightarrow> string \<Rightarrow> string \<Rightarrow> string \<Rightarrow> bool" where
  "verifyHMACSHA256 hmac sig body secret =
     (if \<not> HasPrefix sig ''sha256='' then False
      else (case hex_DecodeString (TrimPrefix sig ''sha256='') of
          Inl _ \<Rightarrow> False | Inr sigBytes \<Rightarrow> sigBytes = hmac secret body))"

definition event_member :: "string \<Rightarrow> json \<Rightarrow> RevocationEvent \<Rightarrow> RevocationEvent result" where
  "event_member k v e =
     (if EqualFold k ''token_hash'' then store (into_string v (ev_TokenHash e)) (\<lambda>x. e\<lparr>ev_TokenHash := x\<rparr>)
      else if EqualFold k ''jti'' then store (into_string v (ev_JTI e)) (\<lambda>x. e\<lparr>ev_JTI := x\<rparr>)
      else if EqualFold k ''sub'' then store (into_string v (ev_Subject e)) (\<lambda>x. e\<lparr>ev_Subject := x\<rparr>)
      else if EqualFold k ''sid'' then store (into_string v (ev_SessionID e)) (\<lambda>x. e\<lparr>ev_SessionID := x\<rparr>)
      else if EqualFold k ''revoke_all'' then store (into_bool v (ev_RevokeAll e)) (\<lambda>x. e\<lparr>ev_RevokeAll := x\<rparr>)
      else Inr e)"

text \<open>\<open>read\<close> is the outcome of reading the request body; at most one MiB of it is used.\<close>

definition Revocation_ServeHTTP ::
  "json_codec \<Rightarrow> (string \<Rightarrow> string \<Rightarrow> string) \<Rightarrow> 's cache_ops \<Rightarrow> string \<Rightarrow> time \<Rightarrow> http_request \<Rightarrow> string result
     \<Rightarrow> 's \<Rightarrow> response \<Rightarrow> 's \<times> response" where
  "Revocation_ServeHTTP codec hmac c secret now r read s w =
     (if rq_Method r \<noteq> ''POST'' then (s, http_Error ''method not allowed'' 405 w)
      else (case read of Inl _ \<Rightarrow> (s, http_Error ''reading request body'' 400 w)
        | Inr stream \<Rightarrow>
          (let body = take (2 ^ 20) stream in
           if secret \<noteq> [] \<and> \<not> verifyHMACSHA256 hmac (Header_Get (rq_Header r) ''X-Hub-Signature-256'') body secret
           then (s, http_Error ''invalid webhook signature'' 401 w)
           else (case json_parse codec body of None \<Rightarrow> (s, http_Error ''invalid payload'' 400 w)
             | Some j \<Rightarrow> (case into_struct event_member j empty_event of
                  Inl _ \<Rightarrow> (s, http_Error ''invalid payload'' 400 w)
                | Inr event \<Rightarrow> (case process c now s event of
                     (Some _, s') \<Rightarrow> (s', http_Error ''internal error'' 500 w)
                   | (None, s') \<Rightarrow> (s', WriteHeader 204 w)))))))"

text \<open>The handler; \<open>dflt\<close> is the default logger.  What it logs beside its answers is not modelled.\<close>

record ('s, 'l) RevocationHandler =
  rh_cache :: "'s cache_ops"
  rh_logger :: 'l
  rh_secret :: string

definition NewRevocationHandler :: "'l \<Rightarrow> 's cache_ops \<Rightarrow> string \<Rightarrow> 'l option \<Rightarrow> ('s, 'l) RevocationHandler" where
  "NewRevocationHandler dflt cache webhookSecret logger =
     \<lparr>rh_cache = cache, rh_logger = (case logger of None \<Rightarrow> dflt | Some l \<Rightarrow> l), rh_secret = webhookSecret\<rparr>"

definition RevocationHandler_ServeHTTP ::
  "json_codec \<Rightarrow> (string \<Rightarrow> string \<Rightarrow> string) \<Rightarrow> ('s, 'l) RevocationHandler \<Rightarrow> time \<Rightarrow> http_request \<Rightarrow> string result
     \<Rightarrow> 's \<Rightarrow> response \<Rightarrow> 's \<times> response" where
  "RevocationHandler_ServeHTTP codec hmac h now r read s w =
     Revocation_ServeHTTP codec hmac (rh_cache h) (rh_secret h) now r read s w"

section \<open>The cached introspector (cache.go)\<close>

definition clamp_ttl :: "time \<Rightarrow> duration \<Rightarrow> CommonClaims \<Rightarrow> duration" where
  "clamp_ttl now ttl claims =
     (if \<not> IsZero (cc_ExpiresAt claims) \<and> Until now (cc_ExpiresAt claims) < ttl
      then Until now (cc_ExpiresAt claims) else ttl)"

text \<open>Caching and indexing one token, as both introspection paths do it.\<close>

definition cache_token :: "'s cache_ops \<Rightarrow> time \<Rightarrow> 's \<Rightarrow> string \<Rightarrow> CommonClaims \<Rightarrow> duration \<Rightarrow> 's" where
  "cache_token c now s key claims ttl =
     IndexClaims c now (snd (co_Set c now s key claims ttl)) key claims ttl"

definition NewCachedIntrospector_ttl :: "duration \<Rightarrow> duration" where
  "NewCachedIntrospector_ttl ttl = (if ttl = 0 then 30 * Second else ttl)"

definition CachedIntrospector_Introspect ::
  "'s cache_ops \<Rightarrow> (string \<Rightarrow> string) \<Rightarrow> duration \<Rightarrow> (string \<Rightarrow> CommonClaims result) \<Rightarrow> time \<Rightarrow> 's \<Rightarrow> string
     \<Rightarrow> CommonClaims result \<times> 's" where
  "CachedIntrospector_Introspect c sha ci_ttl inner now s token =
     (let key = HashToken sha token in
      case co_Get c now s key of Some claims \<Rightarrow> (Inr claims, s)
      | None \<Rightarrow> (case inner token of Inl e \<Rightarrow> (Inl e, s)
        | Inr claims \<Rightarrow>
           if cc_Active claims
           then (let ttl = clamp_ttl now ci_ttl claims in
                 (Inr claims, if 0 < ttl then cache_token c now s key claims ttl else s))
           else (Inr claims, s)))"

definition Revoke :: "'s cache_ops \<Rightarrow> (string \<Rightarrow> string) \<Rightarrow> 's \<Rightarrow> string \<Rightarrow> 's" where
  "Revoke c sha s token = snd (co_Delete c s (HashToken sha token))"

section \<open>Keys\<close>

lemma entry_hashes_index [simp]: "entry_hashes (index_entry hs) = hs"
  by (simp add: entry_hashes_def index_entry_def empty_claims_def)

lemma prefix_distinct [simp]:
  "jtiIndexPrefix @ a \<noteq> subIndexPrefix @ b" "jtiIndexPrefix @ a \<noteq> sidIndexPrefix @ b"
  "subIndexPrefix @ a \<noteq> sidIndexPrefix @ b" "subIndexPrefix @ a \<noteq> jtiIndexPrefix @ b"
  "sidIndexPrefix @ a \<noteq> jtiIndexPrefix @ b" "sidIndexPrefix @ a \<noteq> subIndexPrefix @ b"
  by (simp_all add: jtiIndexPrefix_def subIndexPrefix_def sidIndexPrefix_def)

text \<open>An index key is never the hash of a token: hashes are hexadecimal.\<close>

definition index_key :: "string \<Rightarrow> bool" where
  "index_key k = HasPrefix k ''idx:''"

lemma index_key_prefix [simp]:
  "index_key (jtiIndexPrefix @ a)" "index_key (subIndexPrefix @ a)" "index_key (sidIndexPrefix @ a)"
  by (simp_all add: index_key_def jtiIndexPrefix_def subIndexPrefix_def sidIndexPrefix_def)

lemma HashToken_not_index [simp]: "\<not> index_key (HashToken sha t)"
proof
  assume "index_key (HashToken sha t)"
  then have "CHR ''i'' \<in> set (HashToken sha t)" by (auto simp: index_key_def HasPrefix_iff)
  then show False by (auto simp: HashToken_def is_digit_def between_def dest: hex_safe)
qed

lemma HashToken_neq_index [simp]:
  "HashToken sha t \<noteq> jtiIndexPrefix @ a" "HashToken sha t \<noteq> subIndexPrefix @ a" "HashToken sha t \<noteq> sidIndexPrefix @ a"
  "jtiIndexPrefix @ a \<noteq> HashToken sha t" "subIndexPrefix @ a \<noteq> HashToken sha t" "sidIndexPrefix @ a \<noteq> HashToken sha t"
  using HashToken_not_index index_key_prefix by metis+

section \<open>What the operations do to a cache that keeps the contract\<close>

context token_cache
begin

lemma get_append_other: "k \<noteq> key \<Longrightarrow> co_Get ops t (appendIndexHash ops now s key h ttl) k = co_Get ops t s k"
  by (simp add: appendIndexHash_def Let_def get_set)

lemma get_index_claims:
  assumes "\<not> index_key k"
  shows "co_Get ops t (IndexClaims ops now s h c ttl) k = co_Get ops t s k"
proof -
  have "k \<noteq> jtiIndexPrefix @ a" "k \<noteq> subIndexPrefix @ a" "k \<noteq> sidIndexPrefix @ a" for a
    using assms by auto
  then show ?thesis by (simp add: IndexClaims_def Let_def get_append_other get_set)
qed

lemma get_index_claims_jti:
  "co_Get ops t (IndexClaims ops now s h c ttl) (jtiIndexPrefix @ j) =
     (if h \<noteq> [] \<and> 0 < ttl \<and> cc_JTI c \<noteq> [] \<and> j = cc_JTI c
      then if t \<le> now + ttl then Some (norm (index_entry [h])) else None
      else co_Get ops t s (jtiIndexPrefix @ j))"
  by (simp add: IndexClaims_def Let_def get_append_other get_set)

text \<open>The subject index lists a token from the moment it is cached until the entry's expiry.\<close>

lemma index_append:
  assumes "h \<notin> set (indexHashes ops now s key)" "t \<le> now + ttl"
  shows "indexHashes ops t (appendIndexHash ops now s key h ttl) key = indexHashes ops now s key @ [h]"
proof -
  have "indexHashes ops t (snd (co_Set ops now s key (index_entry hs) ttl)) key = hs" for hs
    using assms(2) by (simp add: indexHashes_def get_set)
  with assms(1) show ?thesis by (simp add: appendIndexHash_def Let_def)
qed

lemma index_other:
  "k \<noteq> key \<Longrightarrow> indexHashes ops t (snd (co_Set ops now s key e ttl)) k = indexHashes ops t s k"
  "k \<noteq> key \<Longrightarrow> indexHashes ops t (appendIndexHash ops now s key h ttl) k = indexHashes ops t s k"
  by (simp_all add: indexHashes_def get_set get_append_other)

lemma index_claims_sub:
  assumes "h \<noteq> []" "0 < ttl" "cc_Subject c \<noteq> []" "t \<le> now + ttl"
    and "h \<notin> set (indexHashes ops now s (subIndexPrefix @ cc_Subject c))"
  shows "indexHashes ops t (IndexClaims ops now s h c ttl) (subIndexPrefix @ cc_Subject c) =
    indexHashes ops now s (subIndexPrefix @ cc_Subject c) @ [h]"
  using assms by (simp add: IndexClaims_def Let_def index_other index_append)

lemma delete_hashes_eq:
  "delete_hashes ops hs (None, s) = (None, fold (\<lambda>k s. snd (co_Delete ops s k)) hs s)"
proof (induction hs arbitrary: s)
  case (Cons h hs)
  show ?case using Cons by (subst delete_hashes.simps, subst delete_pair) simp
qed simp

lemma delete_indexed:
  "fst (deleteIndexedTokens ops now s key) = None"
  "co_Get ops t (snd (deleteIndexedTokens ops now s key)) k =
     (if k = key \<or> k \<in> set (indexHashes ops now s key) then None else co_Get ops t s k)"
  by (simp_all add: deleteIndexedTokens_def delete_hashes_eq delete_ok get_delete get_delete_list split_beta)

end

section \<open>Reachable caches\<close>

text \<open>An event that names no index key; index keys are internal to the cache.\<close>

definition benign :: "RevocationEvent \<Rightarrow> bool" where
  "benign ev = (\<not> index_key (ev_TokenHash ev) \<and> \<not> index_key (ev_JTI ev))"

text \<open>The caches that arise from an initial one by introspections, whatever the authorization
  server answers within \<open>ok\<close>, revocation events and direct revocations along an advancing
  clock.\<close>

inductive ci_reach ::
  "'s cache_ops \<Rightarrow> (string \<Rightarrow> string) \<Rightarrow> duration \<Rightarrow> (string \<Rightarrow> CommonClaims \<Rightarrow> bool) \<Rightarrow> 's \<Rightarrow> time \<Rightarrow> 's \<Rightarrow> bool"
  for c sha ttl ok s0 where
  ci_init: "ci_reach c sha ttl ok s0 t s0"
| ci_introspect: "ci_reach c sha ttl ok s0 t s \<Longrightarrow> t \<le> now \<Longrightarrow> (\<And>a. inner token = Inr a \<Longrightarrow> ok token a) \<Longrightarrow>
    ci_reach c sha ttl ok s0 now (snd (CachedIntrospector_Introspect c sha ttl inner now s token))"
| ci_process: "ci_reach c sha ttl ok s0 t s \<Longrightarrow> t \<le> now \<Longrightarrow> benign ev \<Longrightarrow>
    ci_reach c sha ttl ok s0 now (snd (process c now s ev))"
| ci_revoke: "ci_reach c sha ttl ok s0 t s \<Longrightarrow> ci_reach c sha ttl ok s0 t (Revoke c sha s token)"

text \<open>What holds in every reachable cache from a time on: a cached token is active, not expired
  and listed under its jti, and the index only lists token hashes.\<close>

definition fresh_claims :: "time \<Rightarrow> CommonClaims \<Rightarrow> bool" where
  "fresh_claims u c = (cc_Active c \<and> (IsZero (cc_ExpiresAt c) \<or> u \<le> cc_ExpiresAt c))"

definition token_entry :: "'s cache_ops \<Rightarrow> (string \<Rightarrow> string) \<Rightarrow> (string \<Rightarrow> string) \<Rightarrow> time \<Rightarrow> 's \<Rightarrow> string \<Rightarrow> CommonClaims \<Rightarrow> bool" where
  "token_entry ops sha jti u s h c = (fresh_claims u c
     \<and> (\<exists>tok. HashToken sha tok = h \<and> cc_JTI c = jti tok)
     \<and> (cc_JTI c \<noteq> [] \<longrightarrow> indexHashes ops u s (jtiIndexPrefix @ cc_JTI c) = [h]))"

definition index_sound :: "'s cache_ops \<Rightarrow> (string \<Rightarrow> string) \<Rightarrow> (string \<Rightarrow> string) \<Rightarrow> time \<Rightarrow> 's \<Rightarrow> bool" where
  "index_sound ops sha jti t s =
     (\<forall>u \<ge> t. (\<forall>tok c. co_Get ops u s (HashToken sha tok) = Some c \<longrightarrow> token_entry ops sha jti u s (HashToken sha tok) c)
        \<and> (\<forall>k. index_key k \<longrightarrow> set (indexHashes ops u s k) \<subseteq> range (HashToken sha)))"

lemma index_soundD:
  assumes "index_sound ops sha jti t s" "t \<le> u"
  shows "co_Get ops u s (HashToken sha tok) = Some c \<Longrightarrow> token_entry ops sha jti u s (HashToken sha tok) c"
    and "index_key k \<Longrightarrow> set (indexHashes ops u s k) \<subseteq> range (HashToken sha)"
  using assms by (simp_all add: index_sound_def)

lemma index_sound_later: "index_sound ops sha jti t s \<Longrightarrow> t \<le> u \<Longrightarrow> index_sound ops sha jti u s"
  by (simp add: index_sound_def)

context token_cache
begin

text \<open>A deletion that spares the jti index of every token that stays keeps the invariant.\<close>

lemma index_sound_delete:
  assumes inv: "index_sound ops sha jti t s"
    and get: "\<And>u k. t \<le> u \<Longrightarrow> co_Get ops u s' k = (if k \<in> D then None else co_Get ops u s k)"
    and D: "\<And>u tok c. t \<le> u \<Longrightarrow> co_Get ops u s (HashToken sha tok) = Some c \<Longrightarrow> HashToken sha tok \<notin> D \<Longrightarrow>
      jtiIndexPrefix @ cc_JTI c \<notin> D"
  shows "index_sound ops sha jti t s'"
proof -
  have ih: "indexHashes ops u s' k = (if k \<in> D then [] else indexHashes ops u s k)" if "t \<le> u" for u k
    using get [OF that] by (simp add: indexHashes_def)
  have "token_entry ops sha jti u s' (HashToken sha tok) c"
    if u: "t \<le> u" and g: "co_Get ops u s' (HashToken sha tok) = Some c" for u tok c
  proof -
    have g': "HashToken sha tok \<notin> D" "co_Get ops u s (HashToken sha tok) = Some c"
      using g get [OF u] by (auto split: if_splits)
    then show ?thesis
      using index_soundD(1) [OF inv u] D [OF u g'(2) g'(1)] ih [OF u] by (simp add: token_entry_def)
  qed
  moreover have "index_key k \<Longrightarrow> set (indexHashes ops u s' k) \<subseteq> range (HashToken sha)" if "t \<le> u" for u k
    using index_soundD(2) [OF inv that] ih [OF that] by simp
  ultimately show ?thesis by (simp add: index_sound_def)
qed

lemma index_sound_delete_key:
  assumes "index_sound ops sha jti t s" "\<not> index_key k"
  shows "index_sound ops sha jti t (snd (co_Delete ops s k))"
proof (rule index_sound_delete [OF assms(1), of _ "{k}"])
  have "jtiIndexPrefix @ a \<noteq> k" for a using assms(2) index_key_prefix(1) by metis
  then show "jtiIndexPrefix @ cc_JTI c \<notin> {k}" for c by simp
qed (simp add: get_delete)

lemma index_sound_delete_indexed:
  assumes inv: "index_sound ops sha jti t s" and now: "t \<le> now"
    and k: "index_key key" "\<And>a. key \<noteq> jtiIndexPrefix @ a"
  shows "index_sound ops sha jti now (snd (deleteIndexedTokens ops now s key))"
proof (rule index_sound_delete [OF index_sound_later [OF inv now], of _ "insert key (set (indexHashes ops now s key))"])
  have "jtiIndexPrefix @ a \<notin> set (indexHashes ops now s key)" for a
    using index_soundD(2) [OF inv now k(1)] HashToken_neq_index(4) by (metis imageE subsetD)
  then show "jtiIndexPrefix @ cc_JTI c \<notin> insert key (set (indexHashes ops now s key))" for c
    using k(2) by auto
qed (simp add: delete_indexed(2))

text \<open>Revocation by jti deletes the listed token together with its index entry.\<close>

lemma index_sound_jti:
  assumes inv: "index_sound ops sha jti t s" and now: "t \<le> now"
    and look: "lookupIndexHash ops now s (jtiIndexPrefix @ j) = Some h" and j: "j \<noteq> []"
  shows "index_sound ops sha jti now (snd (co_Delete ops (snd (co_Delete ops s (jtiIndexPrefix @ j))) h))"
proof (rule index_sound_delete [OF index_sound_later [OF inv now], of _ "{jtiIndexPrefix @ j, h}"])
  obtain hs where hs: "indexHashes ops now s (jtiIndexPrefix @ j) = h # hs"
    using look by (auto simp: lookupIndexHash_def split: list.splits)
  have h: "h \<in> range (HashToken sha)"
    using index_soundD(2) [OF inv now, of "jtiIndexPrefix @ j"] hs by simp
  fix u tok c
  assume u: "now \<le> u" and g: "co_Get ops u s (HashToken sha tok) = Some c"
    and D: "HashToken sha tok \<notin> {jtiIndexPrefix @ j, h}"
  from g get_earlier [OF u] have "co_Get ops now s (HashToken sha tok) = Some c" by blast
  from index_soundD(1) [OF inv now this]
  have "cc_JTI c \<noteq> [] \<longrightarrow> indexHashes ops now s (jtiIndexPrefix @ cc_JTI c) = [HashToken sha tok]"
    by (simp add: token_entry_def)
  moreover have "jtiIndexPrefix @ cc_JTI c \<noteq> h" using h HashToken_neq_index(4) by (metis imageE)
  ultimately show "jtiIndexPrefix @ cc_JTI c \<notin> {jtiIndexPrefix @ j, h}"
    using hs D j by auto
qed (simp add: get_delete)

lemma index_sound_process:
  assumes inv: "index_sound ops sha jti t s" and now: "t \<le> now" and ev: "benign ev"
  shows "index_sound ops sha jti now (snd (process ops now s ev))"
proof -
  note later = index_sound_later [OF inv now]
  have "index_sound ops sha jti now (snd (deleteIndexedTokens ops now s (sidIndexPrefix @ a)))"
    "index_sound ops sha jti now (snd (deleteIndexedTokens ops now s (subIndexPrefix @ a)))" for a
    by (rule index_sound_delete_indexed [OF inv now]; simp)+
  moreover have "index_sound ops sha jti now (snd (co_Delete ops s (ev_TokenHash ev)))"
    "index_sound ops sha jti now (snd (co_Delete ops s (ev_JTI ev)))"
    using ev index_sound_delete_key [OF later] by (simp_all add: benign_def)
  ultimately show ?thesis
    using later index_sound_jti [OF inv now] by (simp add: process_def split: option.splits)
qed

text \<open>Caching a token adds an entry that expires with its index entry and not after the token.\<close>

lemma clamp_ttl_fresh:
  assumes "cc_Active c" "0 < clamp_ttl now ttl c" "u \<le> now + clamp_ttl now ttl c" "int64 ttl"
  shows "fresh_claims u c"
proof (cases "IsZero (cc_ExpiresAt c)")
  case False
  have "clamp_ttl now ttl c \<le> Until now (cc_ExpiresAt c)" using False by (simp add: clamp_ttl_def)
  moreover have "0 < Until now (cc_ExpiresAt c) \<Longrightarrow> Until now (cc_ExpiresAt c) \<le> cc_ExpiresAt c - now"
    by (simp add: Until_def time_Sub_def split: if_splits)
  ultimately show ?thesis using assms by (simp add: fresh_claims_def)
qed (use assms in \<open>simp add: fresh_claims_def\<close>)

lemma get_cache_token: "\<not> index_key k \<Longrightarrow> co_Get ops u (cache_token ops now s key c ttl) k =
    (if k = key then if u \<le> now + ttl then Some (norm c) else None else co_Get ops u s k)"
  by (simp add: cache_token_def get_index_claims get_set)

lemma index_cache_token:
  assumes "\<not> index_key key" "key \<noteq> []" "0 < ttl" "cc_JTI c \<noteq> []"
  shows "indexHashes ops u (cache_token ops now s key c ttl) (jtiIndexPrefix @ j) =
    (if j = cc_JTI c then if u \<le> now + ttl then [key] else [] else indexHashes ops u s (jtiIndexPrefix @ j))"
proof -
  have "jtiIndexPrefix @ j \<noteq> key" using assms(1) by auto
  then show ?thesis
    using assms by (simp add: cache_token_def indexHashes_def get_index_claims_jti get_set)
qed

text \<open>The index keeps listing token hashes only.\<close>

lemma lists_append:
  assumes "\<forall>u \<ge> now. \<forall>k. index_key k \<longrightarrow> set (indexHashes ops u s k) \<subseteq> R" "h \<in> R" "index_key key"
  shows "\<forall>u \<ge> now. \<forall>k. index_key k \<longrightarrow> set (indexHashes ops u (appendIndexHash ops now s key h ttl) k) \<subseteq> R"
proof (intro allI impI)
  fix u k assume u: "now \<le> u" "index_key k"
  have "set (indexHashes ops u (appendIndexHash ops now s key h ttl) k)
      \<subseteq> insert h (set (indexHashes ops now s key) \<union> set (indexHashes ops u s k))"
    by (cases "k = key") (auto simp: appendIndexHash_def Let_def indexHashes_def get_set)
  with assms u show "set (indexHashes ops u (appendIndexHash ops now s key h ttl) k) \<subseteq> R" by blast
qed

lemma lists_set:
  assumes "\<forall>u \<ge> now. \<forall>k. index_key k \<longrightarrow> set (indexHashes ops u s k) \<subseteq> R"
    and "\<not> index_key key \<or> set (entry_hashes e) \<subseteq> R"
  shows "\<forall>u \<ge> now. \<forall>k. index_key k \<longrightarrow> set (indexHashes ops u (snd (co_Set ops now s key e ttl)) k) \<subseteq> R"
  using assms by (auto simp: indexHashes_def get_set split: if_splits)

lemma lists_cache_token:
  assumes inv: "\<forall>u \<ge> now. \<forall>k. index_key k \<longrightarrow> set (indexHashes ops u s k) \<subseteq> R"
    and key: "key \<in> R" "\<not> index_key key"
  shows "\<forall>u \<ge> now. \<forall>k. index_key k \<longrightarrow> set (indexHashes ops u (cache_token ops now s key c ttl) k) \<subseteq> R"
proof -
  note s0 = lists_set [OF inv, of key c ttl]
  note s1 = lists_set [OF s0, of "jtiIndexPrefix @ cc_JTI c" "index_entry [key]" ttl]
  note app = lists_append [OF _ key(1)]
  show ?thesis
    unfolding cache_token_def IndexClaims_def Let_def
    using key s0 s1
      app [OF s0, of "subIndexPrefix @ cc_Subject c" ttl] app [OF s1, of "subIndexPrefix @ cc_Subject c" ttl]
      app [OF s0, of "sidIndexPrefix @ cc_SessionID c" ttl] app [OF s1, of "sidIndexPrefix @ cc_SessionID c" ttl]
      app [OF app [OF s0, of "subIndexPrefix @ cc_Subject c" ttl], of "sidIndexPrefix @ cc_SessionID c" ttl]
      app [OF app [OF s1, of "subIndexPrefix @ cc_Subject c" ttl], of "sidIndexPrefix @ cc_SessionID c" ttl]
    by (simp split: if_split)
qed

lemma index_sound_cache_token:
  assumes inv: "index_sound ops sha jti t s" and now: "t \<le> now"
    and sha: "\<And>tok. sha tok \<noteq> []" and uniq: "\<And>a b. jti a = jti b \<Longrightarrow> jti a \<noteq> [] \<Longrightarrow> HashToken sha a = HashToken sha b"
    and c: "cc_JTI c = jti token" "cc_Active c" and ttl: "ttl = clamp_ttl now ttl0 c" "0 < ttl" "int64 ttl0"
  shows "index_sound ops sha jti now (cache_token ops now s (HashToken sha token) c ttl)"
proof -
  let ?s = "cache_token ops now s (HashToken sha token) c ttl"
  have ne: "HashToken sha token \<noteq> []" using sha hex_length [of "sha token"] by (auto simp: HashToken_def)
  have idx: "indexHashes ops u ?s (jtiIndexPrefix @ j) = (if j = cc_JTI c \<and> j \<noteq> []
      then if u \<le> now + ttl then [HashToken sha token] else [] else indexHashes ops u s (jtiIndexPrefix @ j))" for u j
  proof (cases "cc_JTI c = []")
    case True
    then show ?thesis by (simp add: cache_token_def indexHashes_def get_index_claims_jti get_set)
  next
    case False
    with index_cache_token [OF HashToken_not_index ne ttl(2)] show ?thesis by simp
  qed
  have "token_entry ops sha jti u ?s (HashToken sha tok) d"
    if u: "now \<le> u" and g: "co_Get ops u ?s (HashToken sha tok) = Some d" for u tok d
  proof (cases "HashToken sha tok = HashToken sha token")
    case True
    with g have d: "d = norm c" "u \<le> now + ttl" by (auto simp: get_cache_token split: if_splits)
    then have "fresh_claims u c" using clamp_ttl_fresh c(2) ttl by blast
    with d c True idx show ?thesis by (auto simp: token_entry_def fresh_claims_def)
  next
    case False
    with g have "co_Get ops u s (HashToken sha tok) = Some d" by (simp add: get_cache_token)
    from index_soundD(1) [OF index_sound_later [OF inv now] u this]
    have e: "token_entry ops sha jti u s (HashToken sha tok) d" .
    then obtain tok' where "HashToken sha tok' = HashToken sha tok" "cc_JTI d = jti tok'"
      by (auto simp: token_entry_def)
    with False c uniq [of tok' token] have "cc_JTI d \<noteq> [] \<Longrightarrow> cc_JTI d \<noteq> cc_JTI c" by auto
    with e idx show ?thesis by (auto simp: token_entry_def)
  qed
  moreover have "\<forall>u \<ge> now. \<forall>k. index_key k \<longrightarrow> set (indexHashes ops u s k) \<subseteq> range (HashToken sha)"
    using index_sound_later [OF inv now] by (simp add: index_sound_def)
  ultimately show ?thesis using lists_cache_token [of now s "range (HashToken sha)"] by (simp add: index_sound_def)
qed

lemma reach_sound:
  assumes "ci_reach ops sha ttl (\<lambda>tok a. cc_JTI a = jti tok) s0 t s" "\<And>t k. co_Get ops t s0 k = None" "int64 ttl"
    and "\<And>tok. sha tok \<noteq> []" "\<And>a b. jti a = jti b \<Longrightarrow> jti a \<noteq> [] \<Longrightarrow> HashToken sha a = HashToken sha b"
  shows "index_sound ops sha jti t s"
  using assms(1)
proof induction
  case (ci_init t)
  then show ?case using assms(2) by (simp add: index_sound_def indexHashes_def)
next
  case (ci_introspect t s now inner token)
  note later = index_sound_later [OF ci_introspect.IH ci_introspect.hyps(2)]
  show ?case
    unfolding CachedIntrospector_Introspect_def Let_def
    using later index_sound_cache_token [OF ci_introspect.IH ci_introspect.hyps(2) assms(4,5)
        ci_introspect.hyps(3) _ refl _ assms(3)]
    by (simp split: option.split sum.split)
next
  case (ci_process t s now ev)
  then show ?case using index_sound_process by blast
next
  case (ci_revoke t s token)
  then show ?case unfolding Revoke_def by (intro index_sound_delete_key) simp_all
qed

text \<open>A process step only removes entries.\<close>

lemma get_process: "co_Get ops u (snd (process ops now s ev)) k = Some c \<Longrightarrow> co_Get ops u s k = Some c"
  by (auto simp: process_def get_delete delete_indexed(2) split: option.splits if_splits)

lemma process_ok: "ev_TokenHash ev \<noteq> [] \<or> ev_JTI ev \<noteq> [] \<or> ev_SessionID ev \<noteq> [] \<or> ev_RevokeAll ev \<and> ev_Subject ev \<noteq> []
    \<Longrightarrow> fst (process ops now s ev) = None"
  by (auto simp: process_def delete_ok delete_indexed(1) split: option.splits)

lemma reach_fresh:
  assumes "ci_reach ops sha ttl ok s0 t s" "\<And>t k. co_Get ops t s0 k = None" "int64 ttl" "t \<le> u"
    and "co_Get ops u s (HashToken sha tok) = Some c"
  shows "fresh_claims u c"
  using assms(1,4,5)
proof (induction arbitrary: u c)
  case (ci_init t)
  then show ?case using assms(2) by simp
next
  case (ci_introspect t s now inner token)
  show ?case
  proof (cases "co_Get ops u s (HashToken sha tok) = Some c")
    case True
    with ci_introspect show ?thesis by force
  next
    case False
    with ci_introspect.prems obtain a where a: "cc_Active a" "0 < clamp_ttl now ttl a"
      "co_Get ops u (cache_token ops now s (HashToken sha token) a (clamp_ttl now ttl a)) (HashToken sha tok) = Some c"
      by (auto simp: CachedIntrospector_Introspect_def Let_def split: option.splits sum.splits if_splits)
    with False have "c = norm a" "u \<le> now + clamp_ttl now ttl a" by (auto simp: get_cache_token split: if_splits)
    with a(1,2) clamp_ttl_fresh assms(3) show ?thesis by (auto simp: fresh_claims_def)
  qed
next
  case (ci_process t s now ev)
  then show ?case using get_process by (meson order_trans)
next
  case (ci_revoke t s token)
  then show ?case by (auto simp: Revoke_def get_delete split: if_splits)
qed

lemma reach_no_sid:
  assumes "ci_reach ops sha ttl ok s0 t s" "\<And>t k. co_Get ops t s0 k = None"
    and "\<And>tok a. ok tok a \<Longrightarrow> cc_SessionID a = []" "t \<le> u"
  shows "co_Get ops u s (sidIndexPrefix @ x) = None"
  using assms(1,4)
proof (induction arbitrary: u)
  case (ci_init t)
  then show ?case using assms(2) by simp
next
  case (ci_introspect t s now inner token)
  have "co_Get ops u (cache_token ops now s (HashToken sha token) a d) (sidIndexPrefix @ x) = co_Get ops u s (sidIndexPrefix @ x)"
    if "inner token = Inr a" for a d
    using assms(3) [OF ci_introspect.hyps(3) [OF that]]
    by (simp add: cache_token_def IndexClaims_def Let_def get_append_other get_set)
  with ci_introspect show ?case
    by (auto simp: CachedIntrospector_Introspect_def Let_def split: option.splits sum.splits)
next
  case (ci_process t s now ev)
  then show ?case using get_process by (metis not_None_eq order_trans)
next
  case (ci_revoke t s token)
  then show ?case by (simp add: Revoke_def get_delete)
qed

end

section \<open>Properties\<close>

lemma new_memory_empty [simp]: "MemoryCache_Get t NewMemoryCache k = None"
  by (simp add: NewMemoryCache_def MemoryCache_Get_def)

text \<open>C13: the cache never outlives the token.  After any sequence of introspections, whatever the
  authorization server answers, and revocations, a lookup at the current time or later returns
  only claims that are active and not past their expiry.\<close>

theorem cached_claims_live:
  assumes "ci_reach memory_ops sha ttl (\<lambda>_ _. True) NewMemoryCache t s" "int64 ttl" "t \<le> u"
    and "MemoryCache_Get u s (HashToken sha tok) = Some c"
  shows "cc_Active c \<and> (IsZero (cc_ExpiresAt c) \<or> u \<le> cc_ExpiresAt c)"
  using mc.reach_fresh [OF assms(1) _ assms(2,3)] assms(4) by (simp add: fresh_claims_def)

definition wit_claims :: CommonClaims where
  "wit_claims = empty_claims\<lparr>cc_Active := True, cc_Subject := ''alice'', cc_JTI := ''A''\<rparr>"

definition wit_sha :: "string \<Rightarrow> string" where
  "wit_sha t = CHR ''s'' # t"

definition wit_cache :: MemoryCache where
  "wit_cache = snd (CachedIntrospector_Introspect memory_ops wit_sha (30 * Second) (\<lambda>_. Inr wit_claims) 0 NewMemoryCache ''A'')"

lemma wit_reach: "ok ''A'' wit_claims \<Longrightarrow> ci_reach memory_ops wit_sha (30 * Second) ok NewMemoryCache 0 wit_cache"
  unfolding wit_cache_def by (rule ci_introspect [OF ci_init [where t = 0]]) simp_all

lemma wit_cache_get: "MemoryCache_Get Second wit_cache (HashToken wit_sha ''A'') = Some wit_claims"
proof -
  have eq: "wit_cache = cache_token memory_ops 0 NewMemoryCache (HashToken wit_sha ''A'') wit_claims (30 * Second)"
    by (simp add: wit_cache_def CachedIntrospector_Introspect_def wit_claims_def clamp_ttl_def empty_claims_def
        IsZero_def Let_def)
  show ?thesis unfolding eq
    using mc.get_cache_token [where k = "HashToken wit_sha ''A''" and key = "HashToken wit_sha ''A''" and u = Second
        and now = 0 and ttl = "30 * Second"] by simp
qed

theorem cached_claims_live_witness:
  "MemoryCache_Get Second wit_cache (HashToken wit_sha ''A'') = Some wit_claims
     \<and> cc_Active wit_claims \<and> (IsZero (cc_ExpiresAt wit_claims) \<or> Second \<le> cc_ExpiresAt wit_claims)"
  using cached_claims_live [OF wit_reach _ _ wit_cache_get] wit_cache_get by (simp add: int64_def)

text \<open>C14: revocation by jti is complete.  When a jti identifies a token, then in every reachable
  cache a webhook event for a jti succeeds, and from then on no lookup of any token returns
  claims with that jti, until the token is introspected again.\<close>

theorem jti_revocation_complete:
  assumes "ci_reach memory_ops sha ttl (\<lambda>tok a. cc_JTI a = jti tok) NewMemoryCache t s" "int64 ttl"
    and "\<And>tok. sha tok \<noteq> []" "\<And>a b. jti a = jti b \<Longrightarrow> jti a \<noteq> [] \<Longrightarrow> HashToken sha a = HashToken sha b"
    and "t \<le> now" "ev_TokenHash ev = []" "ev_JTI ev \<noteq> []" "process memory_ops now s ev = (err, s')"
    and "now \<le> u" "MemoryCache_Get u s' (HashToken sha tok) = Some c"
  shows "err = None \<and> cc_JTI c \<noteq> ev_JTI ev"
proof
  show "err = None" using mc.process_ok [of ev now s] assms(7,8) by simp
  have s': "s' = snd (process memory_ops now s ev)" using assms(8) by simp
  have "MemoryCache_Get u s (HashToken sha tok) = Some c"
    using mc.get_process [of u now s ev] assms(10) s' by simp
  then have g: "co_Get memory_ops now s (HashToken sha tok) = Some c" using mc.get_earlier [OF assms(9)] by simp
  have "index_sound memory_ops sha jti t s"
    by (rule mc.reach_sound [OF assms(1) _ assms(2-4)]) simp_all
  then have e: "token_entry memory_ops sha jti now s (HashToken sha tok) c"
    by (rule index_soundD(1) [OF _ assms(5) g])
  show "cc_JTI c \<noteq> ev_JTI ev"
  proof
    assume "cc_JTI c = ev_JTI ev"
    with e assms(7) have "lookupIndexHash memory_ops now s (jtiIndexPrefix @ ev_JTI ev) = Some (HashToken sha tok)"
      by (simp add: token_entry_def lookupIndexHash_def)
    with assms(6,7) s' have "MemoryCache_Get u s' (HashToken sha tok) = None"
      using mc.get_delete by (simp add: process_def)
    with assms(10) show False by simp
  qed
qed

theorem jti_revocation_complete_witness:
  "MemoryCache_Get Second (snd (process memory_ops Second wit_cache (empty_event\<lparr>ev_JTI := ''A''\<rparr>)))
     (HashToken wit_sha ''A'') = None"
proof -
  let ?ev = "empty_event\<lparr>ev_JTI := ''A''\<rparr>"
  let ?g = "MemoryCache_Get Second (snd (process memory_ops Second wit_cache ?ev)) (HashToken wit_sha ''A'')"
  have "cc_JTI c \<noteq> ''A''" if "?g = Some c" for c
    using jti_revocation_complete [where jti = "\<lambda>t. t" and t = 0 and now = Second and u = Second and ev = ?ev,
        OF wit_reach _ _ _ _ _ _ prod.collapse [symmetric] _ that]
    by (simp add: wit_claims_def empty_event_def int64_def wit_sha_def)
  moreover have "c = wit_claims" if "?g = Some c" for c
    using mc.get_process [of Second Second wit_cache ?ev "HashToken wit_sha ''A''" c] that wit_cache_get by simp
  ultimately show ?thesis by (cases ?g) (auto simp: wit_claims_def)
qed

text \<open>Revocation of all tokens of a subject is targeted and reaches the token cached last.  It
  deletes exactly the tokens listed for the subject and the list itself, no other entry of
  the shared cache, and a token that was just cached and was not listed before is gone at any
  later time, whenever the event arrives.\<close>

lemma revoke_all_targeted:
  assumes "ev_TokenHash ev = []" "ev_JTI ev = []" "ev_SessionID ev = []" "ev_RevokeAll ev" "ev_Subject ev = sub" "sub \<noteq> []"
    and "\<not> index_key h" "h \<noteq> []" "0 < ttl" "cc_Subject c = sub"
    and "h \<notin> set (indexHashes memory_ops now m (subIndexPrefix @ sub))"
    and "m' = cache_token memory_ops now m h c ttl" "process memory_ops t m' ev = (err, m'')" "t \<le> u"
  shows "err = None \<and> MemoryCache_Get u m'' h = None
    \<and> (\<forall>k. k \<noteq> subIndexPrefix @ sub \<and> k \<notin> set (indexHashes memory_ops t m' (subIndexPrefix @ sub))
         \<longrightarrow> MemoryCache_Get u m'' k = MemoryCache_Get u m' k)"
proof -
  have p: "process memory_ops t m' ev = deleteIndexedTokens memory_ops t m' (subIndexPrefix @ sub)"
    using assms(1-6) by (simp add: process_def)
  have m'': "err = fst (deleteIndexedTokens memory_ops t m' (subIndexPrefix @ sub))"
    "m'' = snd (deleteIndexedTokens memory_ops t m' (subIndexPrefix @ sub))"
    using p assms(13) by (metis fst_conv, metis snd_conv)
  have get: "MemoryCache_Get u m'' k = (if k = subIndexPrefix @ sub
      \<or> k \<in> set (indexHashes memory_ops t m' (subIndexPrefix @ sub)) then None else MemoryCache_Get u m' k)" for k
    using mc.delete_indexed(2) [of u t m' "subIndexPrefix @ sub" k] m''(2) by simp
  have "err = None" using mc.delete_indexed(1) [of t m' "subIndexPrefix @ sub"] m''(1) by simp
  moreover have "MemoryCache_Get u m'' h = None"
  proof (cases "t \<le> now + ttl")
    case True
    have "indexHashes memory_ops now (snd (MemoryCache_Set now m h c ttl)) (subIndexPrefix @ sub)
        = indexHashes memory_ops now m (subIndexPrefix @ sub)"
      using mc.index_other(1) [of "subIndexPrefix @ sub" h] assms(7) index_key_prefix(2) [of sub] by fastforce
    then have "h \<in> set (indexHashes memory_ops t m' (subIndexPrefix @ sub))"
      using mc.index_claims_sub [of h ttl c t now "snd (MemoryCache_Set now m h c ttl)"] assms True
      by (simp add: cache_token_def)
    with get show ?thesis by simp
  next
    case False
    then have "MemoryCache_Get u m' h = None"
      using mc.get_cache_token [OF assms(7), of u now m h c ttl] assms(12,14) by simp
    with get show ?thesis by simp
  qed
  ultimately show ?thesis using get by simp
qed

theorem revoke_all_targeted_witness:
  "MemoryCache_Get Second (snd (process memory_ops Second (cache_token memory_ops 0 NewMemoryCache ''ff'' wit_claims 5)
     (empty_event\<lparr>ev_RevokeAll := True, ev_Subject := ''alice''\<rparr>))) ''ff'' = None"
  by (rule revoke_all_targeted [where sub = "''alice''", THEN conjunct2, THEN conjunct1,
        OF _ _ _ _ _ _ _ _ _ _ _ refl prod.collapse [symmetric]])
     (simp_all add: empty_event_def wit_claims_def index_key_def indexHashes_def)

definition gap_cache :: MemoryCache where
  "gap_cache =
     (let introspect = (\<lambda>now token s. snd (CachedIntrospector_Introspect memory_ops wit_sha (30 * Second)
                          (\<lambda>_. Inr wit_claims) now s token))
      in introspect (31 * Second) ''A'' (introspect (20 * Second) ''B'' (introspect 0 ''A'' NewMemoryCache)))"

text \<open>Revocation of all tokens of a subject can miss one.  The list of a subject expires with
  the token that was added last and is not renewed when a token that is already listed is
  cached again.  Token A is cached at 0 s, token B at 20 s, and A again at 31 s, each for 30 s;
  the list expires at 50 s, an event at 55 s finds it empty, and A is still served.\<close>

lemma revoke_all_misses:
  "MemoryCache_Get (55 * Second)
     (snd (process memory_ops (55 * Second) gap_cache (empty_event\<lparr>ev_RevokeAll := True, ev_Subject := ''alice''\<rparr>)))
     (HashToken wit_sha ''A'') = Some wit_claims"
proof -
  let ?A = "HashToken wit_sha ''A''" and ?B = "HashToken wit_sha ''B''"
  have AB: "?A \<noteq> ?B" "?A \<noteq> []" "?B \<noteq> []" by (simp_all add: HashToken_def wit_sha_def hex_digit_def)
  have c: "cc_Active wit_claims" "clamp_ttl now 30000000000 wit_claims = 30000000000" "cc_SessionID wit_claims = []"
    "cc_JTI wit_claims = ''A''" "cc_Subject wit_claims = ''alice''" for now
    by (simp_all add: wit_claims_def empty_claims_def clamp_ttl_def IsZero_def)
  show ?thesis
    using AB
    by (simp add: gap_cache_def CachedIntrospector_Introspect_def Let_def c cache_token_def IndexClaims_def
        appendIndexHash_def indexHashes_def process_def deleteIndexedTokens_def memory_defs
        NewMemoryCache_def empty_event_def)
qed

definition codec_none :: json_codec where
  "codec_none = \<lparr>json_parse = (\<lambda>_. None), json_decode = (\<lambda>_. None), json_print = (\<lambda>_. []), time_parse = (\<lambda>_. None),
     time_print = (\<lambda>_. None)\<rparr>"

text \<open>The webhook is authenticated.  With a secret configured, a request changes the cache only
  if it is a POST whose signature header is \<^verbatim>\<open>sha256=\<close> and the hexadecimal HMAC of the first
  MiB of the body under the secret; any other request is answered with an error status and
  leaves the cache as it is.\<close>

lemma webhook_authentic:
  assumes "secret \<noteq> []" "rw_Status w = None" "Revocation_ServeHTTP codec hmac c secret now r (Inr stream) s w = (s', w')"
  shows "rq_Method r = ''POST'' \<and> hex_DecodeString (TrimPrefix (Header_Get (rq_Header r) ''X-Hub-Signature-256'') ''sha256='')
        = Inr (hmac secret (take (2 ^ 20) stream)) \<and> HasPrefix (Header_Get (rq_Header r) ''X-Hub-Signature-256'') ''sha256=''
    \<or> s' = s \<and> rw_Status w' \<in> {Some 401, Some 405}"
  using assms
  by (auto simp: Revocation_ServeHTTP_def verifyHMACSHA256_def Let_def http_simps split: if_splits sum.splits)

definition wit_post :: http_request where
  "wit_post = \<lparr>rq_Method = ''POST'', rq_Path = ''/webhook/revoke'', rq_RawQuery = [], rq_RequestURI = ''/webhook/revoke'',
     rq_Host = ''h'', rq_RemoteAddr = ''10.0.0.1:80'', rq_TLS = True, rq_PeerCertificates = 0,
     rq_Header = [], rq_Body = ''{}''\<rparr>"

theorem webhook_authentic_witness:
  "fst (Revocation_ServeHTTP codec_none (\<lambda>k m. k @ m) memory_ops ''k'' 0 wit_post (Inr ''{}'') NewMemoryCache new_response)
     = NewMemoryCache"
  using webhook_authentic [where secret = "''k''" and r = wit_post and codec = codec_none and hmac = "\<lambda>k m. k @ m"
      and c = memory_ops and now = 0 and s = NewMemoryCache and w = new_response and stream = "''{}''",
      OF _ _ prod.collapse [symmetric]]
  by (simp add: new_response_def wit_post_def Header_Get_def)

text \<open>Revocation by session never reaches an introspected token.  The mapping from an
  introspection response sets no session id, so when every answer comes from it, a session
  event changes no lookup of any token.\<close>

lemma session_revocation_inert:
  assumes "ci_reach memory_ops sha ttl (\<lambda>_ a. \<exists>r. a = introToCommonClaims r) NewMemoryCache t s" "t \<le> now"
    and "ev_TokenHash ev = []" "ev_JTI ev = []" "ev_SessionID ev \<noteq> []"
  shows "MemoryCache_Get u (snd (process memory_ops now s ev)) (HashToken sha tok) = MemoryCache_Get u s (HashToken sha tok)"
proof -
  have "MemoryCache_Get now s (sidIndexPrefix @ ev_SessionID ev) = None"
    using mc.reach_no_sid [OF assms(1) _ _ assms(2)] by force
  then have "indexHashes memory_ops now s (sidIndexPrefix @ ev_SessionID ev) = []"
    by (simp add: indexHashes_def)
  with assms(3-5) show ?thesis
    using mc.delete_indexed(2) [of u now s "sidIndexPrefix @ ev_SessionID ev" "HashToken sha tok"]
    by (simp add: process_def)
qed

theorem session_revocation_inert_witness:
  "\<exists>s. MemoryCache_Get Second (snd (process memory_ops Second s (empty_event\<lparr>ev_SessionID := ''S''\<rparr>))) (HashToken wit_sha ''A'')
     = Some (introToCommonClaims (empty_introspection\<lparr>ir_Active := True, ir_Sub := ''alice''\<rparr>))"
proof -
  let ?c = "introToCommonClaims (empty_introspection\<lparr>ir_Active := True, ir_Sub := ''alice''\<rparr>)"
  let ?s = "snd (CachedIntrospector_Introspect memory_ops wit_sha (30 * Second) (\<lambda>_. Inr ?c) 0 NewMemoryCache ''A'')"
  have reach: "ci_reach memory_ops wit_sha (30 * Second) (\<lambda>_ a. \<exists>r. a = introToCommonClaims r) NewMemoryCache 0 ?s"
    by (rule ci_introspect [OF ci_init [where t = 0]]) auto
  have eq: "?s = cache_token memory_ops 0 NewMemoryCache (HashToken wit_sha ''A'') ?c (30 * Second)"
    by (simp add: CachedIntrospector_Introspect_def clamp_ttl_def introToCommonClaims_def empty_claims_def
        empty_introspection_def IsZero_def Let_def)
  have "MemoryCache_Get Second ?s (HashToken wit_sha ''A'') = Some ?c"
    unfolding eq using mc.get_cache_token [where k = "HashToken wit_sha ''A''" and key = "HashToken wit_sha ''A''"
        and u = Second and now = 0 and ttl = "30 * Second"] by simp
  then have "MemoryCache_Get Second (snd (process memory_ops Second ?s (empty_event\<lparr>ev_SessionID := ''S''\<rparr>)))
      (HashToken wit_sha ''A'') = Some ?c"
    using session_revocation_inert [OF reach, of Second "empty_event\<lparr>ev_SessionID := ''S''\<rparr>" Second "''A''"]
    by (simp add: empty_event_def)
  then show ?thesis by blast
qed

end
