(* ===== verification/Dpop.thy ===== *)
theory Dpop
  imports Cache
begin

text \<open>
  DPoP proof-of-possession (\<^verbatim>\<open>pkg/core/token/dpop.go\<close>, RFC 9449): parsing and signature
  verification of the proof JWT, its checks against the request and the access token, replay
  detection through the token cache, server nonces, RFC 7638 thumbprints and key binding.
  Hashes, curve arithmetic and signature verification are the parameter \<open>crypto\<close>; the text
  of a request URL is the parameter \<open>urlString\<close>.
\<close>

section \<open>Parameters\<close>

datatype curve = P256 | P384 | P521
datatype hash = SHA256 | SHA384 | SHA512

record crypto =
  cr_Sum :: "hash \<Rightarrow> string \<Rightarrow> string"
  cr_HMAC :: "string \<Rightarrow> string \<Rightarrow> string"
  cr_IsOnCurve :: "curve \<Rightarrow> nat \<Rightarrow> nat \<Rightarrow> bool"
  cr_ECDSA_Verify :: "curve \<Rightarrow> nat \<Rightarrow> nat \<Rightarrow> string \<Rightarrow> nat \<Rightarrow> nat \<Rightarrow> bool"
  cr_RSA_VerifyPKCS1v15 :: "nat \<Rightarrow> int \<Rightarrow> hash \<Rightarrow> string \<Rightarrow> string \<Rightarrow> error option"

section \<open>Errors, configuration and proofs\<close>

definition ErrDPoPReplay :: error where "ErrDPoPReplay = ErrNew ''dpop proof replay detected''"
definition ErrDPoPNonceRequired :: error where "ErrDPoPNonceRequired = ErrNew ''dpop nonce required''"
definition ErrDPoPMissingATH :: error where
  "ErrDPoPMissingATH = ErrNew ''dpop proof missing ath (access token hash) claim''"

record NonceProvider =
  np_secret :: string
  np_window :: duration

record DPoPConfig =
  dc_MaxAge :: duration
  dc_RequireHTTPS :: bool
  dc_Nonce :: "NonceProvider option"

definition DefaultDPoPConfig :: DPoPConfig where
  "DefaultDPoPConfig = \<lparr>dc_MaxAge = 60 * Second, dc_RequireHTTPS = True, dc_Nonce = None\<rparr>"

type_synonym jwk = "(string \<times> gval) list"

record DPoPProof =
  dp_Algorithm :: string
  dp_JWK :: jwk
  dp_JTI :: string
  dp_HTM :: string
  dp_HTU :: string
  dp_IAT :: time
  dp_ATH :: string
  dp_Nonce :: string

text \<open>\<^verbatim>\<open>s, _ := jwk[k].(string)\<close>\<close>

definition jwk_string :: "jwk \<Rightarrow> string \<Rightarrow> string" where
  "jwk_string jwk k = (case map_of jwk k of Some (GString s) \<Rightarrow> s | _ \<Rightarrow> [])"

section \<open>Thumbprints (RFC 7638)\<close>

fun thumb_members :: "json_codec \<Rightarrow> jwk \<Rightarrow> bool \<Rightarrow> string list \<Rightarrow> string result" where
  "thumb_members codec jwk first [] = Inr []"
| "thumb_members codec jwk first (m # ms) =
     (if jwk_string jwk m = []
      then Inl (Errorf (''JWK missing required member '' @ Quote m @ '' for thumbprint''))
      else (case thumb_members codec jwk False ms of Inl e \<Rightarrow> Inl e
        | Inr rest \<Rightarrow> Inr ((if first then [] else '','') @ json_print codec (JStr m) @ '':''
            @ json_print codec (JStr (jwk_string jwk m)) @ rest)))"

definition JWKThumbprint :: "json_codec \<Rightarrow> crypto \<Rightarrow> jwk \<Rightarrow> string result" where
  "JWKThumbprint codec cr jwk =
     (let kty = jwk_string jwk ''kty'';
          members = (if kty = ''EC'' then Some [''crv'', ''kty'', ''x'', ''y'']
                     else if kty = ''RSA'' then Some [''e'', ''kty'', ''n'']
                     else if kty = ''OKP'' then Some [''crv'', ''kty'', ''x''] else None)
      in case members of
           None \<Rightarrow> Inl (Errorf (''unsupported JWK kty for thumbprint: '' @ Quote kty))
         | Some ms \<Rightarrow> (case thumb_members codec jwk True ms of Inl e \<Rightarrow> Inl e
             | Inr body \<Rightarrow> Inr (RawURLEncoding_Encode (cr_Sum cr SHA256 (''{'' @ body @ ''}'')))))"

definition Thumbprint :: "json_codec \<Rightarrow> crypto \<Rightarrow> DPoPProof \<Rightarrow> string result" where
  "Thumbprint codec cr p = JWKThumbprint codec cr (dp_JWK p)"

section \<open>Keys\<close>

datatype public_key = ECKey curve nat nat | RSAKey nat int

text \<open>\<^verbatim>\<open>big.Int.SetBytes\<close> is big-endian.\<close>

definition SetBytes :: "string \<Rightarrow> nat" where
  "SetBytes b = foldl (\<lambda>a c. a * 256 + byte_of c) 0 b"

definition curve_of :: "string \<Rightarrow> curve option" where
  "curve_of crv = (if crv = ''P-256'' then Some P256 else if crv = ''P-384'' then Some P384
     else if crv = ''P-521'' then Some P521 else None)"

definition ecKeyFromJWK :: "crypto \<Rightarrow> jwk \<Rightarrow> public_key result" where
  "ecKeyFromJWK cr jwk =
     (let crv = jwk_string jwk ''crv''; xStr = jwk_string jwk ''x''; yStr = jwk_string jwk ''y'' in
      if xStr = [] \<or> yStr = [] then Inl (Errorf ''EC JWK missing x or y'')
      else (case RawURLEncoding_Decode xStr of Inl e \<Rightarrow> Inl (Wrapf ''decoding EC x: '' e)
        | Inr xBytes \<Rightarrow> (case RawURLEncoding_Decode yStr of Inl e \<Rightarrow> Inl (Wrapf ''decoding EC y: '' e)
          | Inr yBytes \<Rightarrow> (case curve_of crv of
                None \<Rightarrow> Inl (Errorf (''unsupported EC curve: '' @ Quote crv))
              | Some curve \<Rightarrow>
                  if \<not> cr_IsOnCurve cr curve (SetBytes xBytes) (SetBytes yBytes)
                  then Inl (Errorf (''EC point is not on curve '' @ crv))
                  else Inr (ECKey curve (SetBytes xBytes) (SetBytes yBytes))))))"

definition rsaKeyFromJWK :: "jwk \<Rightarrow> public_key result" where
  "rsaKeyFromJWK jwk =
     (let nStr = jwk_string jwk ''n''; eStr = jwk_string jwk ''e'' in
      if nStr = [] \<or> eStr = [] then Inl (Errorf ''RSA JWK missing n or e'')
      else (case RawURLEncoding_Decode nStr of Inl e \<Rightarrow> Inl (Wrapf ''decoding RSA n: '' e)
        | Inr nBytes \<Rightarrow> (case RawURLEncoding_Decode eStr of Inl e \<Rightarrow> Inl (Wrapf ''decoding RSA e: '' e)
          | Inr eBytes \<Rightarrow>
             (let e = wrap64 (int (SetBytes eBytes)) in
              if e \<le> 0 then Inl (Errorf ''invalid RSA exponent'') else Inr (RSAKey (SetBytes nBytes) e)))))"

definition PublicKeyFromJWK :: "crypto \<Rightarrow> jwk \<Rightarrow> public_key result" where
  "PublicKeyFromJWK cr jwk =
     (let kty = jwk_string jwk ''kty'' in
      if kty = ''EC'' then ecKeyFromJWK cr jwk else if kty = ''RSA'' then rsaKeyFromJWK jwk
      else Inl (Errorf (''unsupported JWK kty: '' @ Quote kty)))"

section \<open>Signatures\<close>

fun curve_name :: "curve \<Rightarrow> string" where
  "curve_name P256 = ''P-256''" | "curve_name P384 = ''P-384''" | "curve_name P521 = ''P-521''"

fun byteLen :: "curve \<Rightarrow> nat" where
  "byteLen P256 = 32" | "byteLen P384 = 48" | "byteLen P521 = 66"

fun verifyECDSA :: "crypto \<Rightarrow> curve \<Rightarrow> hash \<Rightarrow> public_key \<Rightarrow> string \<Rightarrow> string \<Rightarrow> error option" where
  "verifyECDSA cr curve h (RSAKey n e) input sig =
     Some (Errorf (''expected *ecdsa.PublicKey for '' @ curve_name curve))"
| "verifyECDSA cr curve h (ECKey kc x y) input sig =
     (if length sig \<noteq> 2 * byteLen curve
      then Some (Errorf (''ECDSA signature length '' @ show_nat (length sig) @ '', expected '' @ show_nat (2 * byteLen curve)))
      else if \<not> cr_ECDSA_Verify cr kc x y (cr_Sum cr h input) (SetBytes (take (byteLen curve) sig))
                 (SetBytes (drop (byteLen curve) sig))
      then Some (Errorf ''ECDSA signature verification failed'') else None)"

fun verifyRSAPKCS1v15 :: "crypto \<Rightarrow> hash \<Rightarrow> public_key \<Rightarrow> string \<Rightarrow> string \<Rightarrow> error option" where
  "verifyRSAPKCS1v15 cr h (ECKey c x y) input sig = Some (Errorf ''expected *rsa.PublicKey'')"
| "verifyRSAPKCS1v15 cr h (RSAKey n e) input sig = cr_RSA_VerifyPKCS1v15 cr n e h (cr_Sum cr h input) sig"

definition verifyJWTSignature :: "crypto \<Rightarrow> string \<Rightarrow> public_key \<Rightarrow> string \<Rightarrow> string \<Rightarrow> error option" where
  "verifyJWTSignature cr alg key input sig =
     (if alg = ''ES256'' then verifyECDSA cr P256 SHA256 key input sig
      else if alg = ''ES384'' then verifyECDSA cr P384 SHA384 key input sig
      else if alg = ''ES512'' then verifyECDSA cr P521 SHA512 key input sig
      else if alg = ''RS256'' then verifyRSAPKCS1v15 cr SHA256 key input sig
      else if alg = ''RS384'' then verifyRSAPKCS1v15 cr SHA384 key input sig
      else if alg = ''RS512'' then verifyRSAPKCS1v15 cr SHA512 key input sig
      else Some (Errorf (''unsupported algorithm: '' @ Quote alg)))"

section \<open>Parsing\<close>

record dpop_header =
  dh_Alg :: string
  dh_Typ :: string
  dh_JWK :: jwk

record dpop_payload =
  dl_JTI :: string
  dl_HTM :: string
  dl_HTU :: string
  dl_IAT :: int
  dl_ATH :: string
  dl_Nonce :: string

text \<open>An object is merged into the map that is there, later members first in the list.\<close>

fun into_jwk :: "json \<Rightarrow> jwk \<Rightarrow> jwk result" where
  "into_jwk (JObj kvs) old = Inr (rev (map (\<lambda>kv. (fst kv, json_to_gval (snd kv))) kvs) @ old)"
| "into_jwk JNull old = Inr []"
| "into_jwk _ old = Inl json_type_error"

definition dpop_header_member :: "string \<Rightarrow> json \<Rightarrow> dpop_header \<Rightarrow> dpop_header result" where
  "dpop_header_member k v h =
     (if EqualFold k ''alg'' then store (into_string v (dh_Alg h)) (\<lambda>x. h\<lparr>dh_Alg := x\<rparr>)
      else if EqualFold k ''typ'' then store (into_string v (dh_Typ h)) (\<lambda>x. h\<lparr>dh_Typ := x\<rparr>)
      else if EqualFold k ''jwk'' then store (into_jwk v (dh_JWK h)) (\<lambda>x. h\<lparr>dh_JWK := x\<rparr>)
      else Inr h)"

definition dpop_payload_member :: "string \<Rightarrow> json \<Rightarrow> dpop_payload \<Rightarrow> dpop_payload result" where
  "dpop_payload_member k v p =
     (if EqualFold k ''jti'' then store (into_string v (dl_JTI p)) (\<lambda>x. p\<lparr>dl_JTI := x\<rparr>)
      else if EqualFold k ''htm'' then store (into_string v (dl_HTM p)) (\<lambda>x. p\<lparr>dl_HTM := x\<rparr>)
      else if EqualFold k ''htu'' then store (into_string v (dl_HTU p)) (\<lambda>x. p\<lparr>dl_HTU := x\<rparr>)
      else if EqualFold k ''iat'' then store (into_int64 v (dl_IAT p)) (\<lambda>x. p\<lparr>dl_IAT := x\<rparr>)
      else if EqualFold k ''ath'' then store (into_string v (dl_ATH p)) (\<lambda>x. p\<lparr>dl_ATH := x\<rparr>)
      else if EqualFold k ''nonce'' then store (into_string v (dl_Nonce p)) (\<lambda>x. p\<lparr>dl_Nonce := x\<rparr>)
      else Inr p)"

definition unmarshal_into :: "json_codec \<Rightarrow> (string \<Rightarrow> json \<Rightarrow> 'a \<Rightarrow> 'a result) \<Rightarrow> string \<Rightarrow> 'a \<Rightarrow> 'a result" where
  "unmarshal_into codec member b st = (case json_parse codec b of None \<Rightarrow> Inl json_syntax_error
     | Some j \<Rightarrow> into_struct member j st)"

definition parse_dpop_parts :: "json_codec \<Rightarrow> string \<Rightarrow> string \<Rightarrow> DPoPProof result" where
  "parse_dpop_parts codec p0 p1 =
     (case RawURLEncoding_Decode p0 of Inl e \<Rightarrow> Inl (Wrapf ''decoding header: '' e)
      | Inr headerBytes \<Rightarrow> (case RawURLEncoding_Decode p1 of Inl e \<Rightarrow> Inl (Wrapf ''decoding payload: '' e)
      | Inr payloadBytes \<Rightarrow>
         (case unmarshal_into codec dpop_header_member headerBytes \<lparr>dh_Alg = [], dh_Typ = [], dh_JWK = []\<rparr> of
            Inl e \<Rightarrow> Inl (Wrapf ''parsing header: '' e)
          | Inr header \<Rightarrow>
             if dh_Typ header \<noteq> ''dpop+jwt'' then Inl (Errorf (''invalid DPoP typ: '' @ Quote (dh_Typ header)))
             else (case unmarshal_into codec dpop_payload_member payloadBytes
                     \<lparr>dl_JTI = [], dl_HTM = [], dl_HTU = [], dl_IAT = 0, dl_ATH = [], dl_Nonce = []\<rparr> of
                 Inl e \<Rightarrow> Inl (Wrapf ''parsing payload: '' e)
               | Inr payload \<Rightarrow> Inr \<lparr>dp_Algorithm = dh_Alg header, dp_JWK = dh_JWK header,
                    dp_JTI = dl_JTI payload, dp_HTM = dl_HTM payload, dp_HTU = dl_HTU payload,
                    dp_IAT = Unix (dl_IAT payload), dp_ATH = dl_ATH payload, dp_Nonce = dl_Nonce payload\<rparr>))))"

definition parseDPoPJWT :: "json_codec \<Rightarrow> string \<Rightarrow> DPoPProof result" where
  "parseDPoPJWT codec jwt = (case Split jwt (CHR ''.'') of
       [p0, p1, p2] \<Rightarrow> parse_dpop_parts codec p0 p1
     | _ \<Rightarrow> Inl (Errorf ''invalid JWT format''))"

text \<open>Called on a JWT of three parts only.\<close>

definition verifyDPoPSignature :: "crypto \<Rightarrow> string \<Rightarrow> DPoPProof \<Rightarrow> error option" where
  "verifyDPoPSignature cr jwt proof =
     (let parts = Split jwt (CHR ''.'') in
      case PublicKeyFromJWK cr (dp_JWK proof) of
        Inl e \<Rightarrow> Some (Wrapf ''extracting public key from JWK: '' e)
      | Inr pubKey \<Rightarrow> (case RawURLEncoding_Decode (parts ! 2) of
            Inl e \<Rightarrow> Some (Wrapf ''decoding signature: '' e)
          | Inr sigBytes \<Rightarrow> verifyJWTSignature cr (dp_Algorithm proof) pubKey (parts ! 0 @ ''.'' @ parts ! 1) sigBytes))"

section \<open>Nonces (RFC 9449, section 8)\<close>

definition NewNonceProvider :: "string \<Rightarrow> duration \<Rightarrow> NonceProvider" where
  "NewNonceProvider secret window = \<lparr>np_secret = secret, np_window = (if window \<le> 0 then 5 * Minute else window)\<rparr>"

definition forWindow :: "crypto \<Rightarrow> NonceProvider \<Rightarrow> int \<Rightarrow> string" where
  "forWindow cr n w = RawURLEncoding_Encode (cr_HMAC cr (np_secret n) (show_int w))"

text \<open>Division of the Unix time, truncating towards zero.\<close>

definition window_of :: "time \<Rightarrow> duration \<Rightarrow> int" where
  "window_of now w = sgn now * (\<bar>now\<bar> div w)"

definition Current :: "crypto \<Rightarrow> time \<Rightarrow> NonceProvider \<Rightarrow> string" where
  "Current cr now n = forWindow cr n (window_of now (np_window n))"

definition Valid :: "crypto \<Rightarrow> time \<Rightarrow> NonceProvider \<Rightarrow> string \<Rightarrow> bool" where
  "Valid cr now n nonce = (if nonce = [] then False
     else (let w = window_of now (np_window n) in nonce = forWindow cr n w \<or> nonce = forWindow cr n (w - 1)))"

section \<open>Validation\<close>

definition hashTokenForDPoP :: "crypto \<Rightarrow> string \<Rightarrow> string" where
  "hashTokenForDPoP cr token = RawURLEncoding_Encode (cr_Sum cr SHA256 token)"

definition htuMatches :: "string \<Rightarrow> http_request \<Rightarrow> bool" where
  "htuMatches htu r =
     (let scheme = (if rq_TLS r then ''https'' else ''http'');
          requestBase = scheme @ ''://'' @ rq_Host r @ rq_Path r;
          htuBase = hd (Split (hd (Split htu (CHR ''?''))) (CHR ''#''))
      in EqualFold htuBase requestBase)"

definition ValidateDPoP ::
  "json_codec \<Rightarrow> crypto \<Rightarrow> (http_request \<Rightarrow> string) \<Rightarrow> time \<Rightarrow> http_request \<Rightarrow> string \<Rightarrow> DPoPConfig \<Rightarrow> DPoPProof result" where
  "ValidateDPoP codec cr urlString now r accessToken cfg =
     (let dpopHeader = Header_Get (rq_Header r) ''DPoP'' in
      if dpopHeader = [] then Inl (Errorf ''missing DPoP proof header'')
      else (case parseDPoPJWT codec dpopHeader of
        Inl e \<Rightarrow> Inl (Wrapf ''parsing DPoP proof: '' e)
      | Inr proof \<Rightarrow> (case verifyDPoPSignature cr dpopHeader proof of
          Some e \<Rightarrow> Inl (Wrapf ''DPoP signature verification failed: '' e)
        | None \<Rightarrow>
          (let age = Since now (dp_IAT proof) in
           if \<not> EqualFold (dp_HTM proof) (rq_Method r)
           then Inl (Errorf (''DPoP htm '' @ Quote (dp_HTM proof) @ '' does not match request method '' @ Quote (rq_Method r)))
           else if \<not> EqualFold (dp_HTU proof) (urlString r) \<and> \<not> htuMatches (dp_HTU proof) r
           then Inl (Errorf (''DPoP htu '' @ Quote (dp_HTU proof) @ '' does not match request URI '' @ Quote (urlString r)))
           else if 0 < dc_MaxAge cfg \<and> dc_MaxAge cfg < age
           then Inl (Errorf (''DPoP proof is too old: '' @ Duration_String (Round_Second age) @ '' (max ''
                  @ Duration_String (dc_MaxAge cfg) @ '')''))
           else if now + 5 * Second < dp_IAT proof then Inl (Errorf ''DPoP proof issued in the future'')
           else if dp_ATH proof = [] then Inl ErrDPoPMissingATH
           else if dp_ATH proof \<noteq> hashTokenForDPoP cr accessToken then Inl ErrDPoPBindingMismatch
           else (case dc_Nonce cfg of
               Some n \<Rightarrow> if \<not> Valid cr now n (dp_Nonce proof) then Inl ErrDPoPNonceRequired else Inr proof
             | None \<Rightarrow> Inr proof)))))"

definition dpopJTIPrefix :: string where "dpopJTIPrefix = ''dpop:jti:''"

definition NewDPoPValidator_cfg :: "DPoPConfig \<Rightarrow> DPoPConfig" where
  "NewDPoPValidator_cfg cfg = (if dc_MaxAge cfg \<le> 0 then cfg\<lparr>dc_MaxAge := 60 * Second\<rparr> else cfg)"

definition Validate ::
  "json_codec \<Rightarrow> crypto \<Rightarrow> (http_request \<Rightarrow> string) \<Rightarrow> 's cache_ops \<Rightarrow> DPoPConfig \<Rightarrow> time \<Rightarrow> http_request \<Rightarrow> string
     \<Rightarrow> 's \<Rightarrow> DPoPProof result \<times> 's" where
  "Validate codec cr urlString c cfg now r accessToken s =
     (case ValidateDPoP codec cr urlString now r accessToken cfg of
        Inl e \<Rightarrow> (Inl e, s)
      | Inr proof \<Rightarrow>
         if dp_JTI proof = [] then (Inl (Errorf ''dpop proof missing jti claim''), s)
         else (let key = dpopJTIPrefix @ dp_JTI proof in
           case co_Get c now s key of Some _ \<Rightarrow> (Inl ErrDPoPReplay, s)
           | None \<Rightarrow> (Inr proof, snd (co_Set c now s key empty_claims (dc_MaxAge cfg)))))"

definition VerifyDPoPBinding :: "json_codec \<Rightarrow> crypto \<Rightarrow> DPoPProof \<Rightarrow> CommonClaims \<Rightarrow> error option" where
  "VerifyDPoPBinding codec cr proof claims =
     (case cc_Confirmation claims of
        None \<Rightarrow> Some (Errorf ''access token is not DPoP-bound (no cnf.jkt claim)'')
      | Some cnf \<Rightarrow>
         if cnf_JKT cnf = [] then Some (Errorf ''access token is not DPoP-bound (no cnf.jkt claim)'')
         else (case Thumbprint codec cr proof of
             Inl e \<Rightarrow> Some (Wrapf ''computing proof JWK thumbprint: '' e)
           | Inr thumb \<Rightarrow> if thumb \<noteq> cnf_JKT cnf then Some ErrDPoPBindingMismatch else None))"

section \<open>Lemmas\<close>

lemma ValidateDPoP_InrD:
  assumes "ValidateDPoP codec cr urlString now r token cfg = Inr proof"
  shows "parseDPoPJWT codec (Header_Get (rq_Header r) ''DPoP'') = Inr proof"
    and "verifyDPoPSignature cr (Header_Get (rq_Header r) ''DPoP'') proof = None"
    and "EqualFold (dp_HTM proof) (rq_Method r)"
    and "EqualFold (dp_HTU proof) (urlString r) \<or> htuMatches (dp_HTU proof) r"
    and "0 < dc_MaxAge cfg \<Longrightarrow> Since now (dp_IAT proof) \<le> dc_MaxAge cfg"
    and "dp_IAT proof \<le> now + 5 * Second"
    and "dp_ATH proof = hashTokenForDPoP cr token"
    and "dc_Nonce cfg = Some n \<Longrightarrow> Valid cr now n (dp_Nonce proof)"
  using assms unfolding ValidateDPoP_def Let_def
  by (simp_all split: sum.splits option.splits if_splits)

lemma Validate_InrD:
  assumes "Validate codec cr urlString c cfg now r token s = (Inr proof, s')"
  shows "ValidateDPoP codec cr urlString now r token cfg = Inr proof" "dp_JTI proof \<noteq> []"
    and "co_Get c now s (dpopJTIPrefix @ dp_JTI proof) = None"
    and "s' = snd (co_Set c now s (dpopJTIPrefix @ dp_JTI proof) empty_claims (dc_MaxAge cfg))"
  using assms unfolding Validate_def Let_def by (simp_all split: sum.splits option.splits if_splits)

text \<open>A later call leaves the state as it is or records a jti that was not live.\<close>

lemma Validate_state:
  "snd (Validate codec cr urlString c cfg now r token s) = s \<or>
   (\<exists>k. co_Get c now s k = None
      \<and> snd (Validate codec cr urlString c cfg now r token s) = snd (co_Set c now s k empty_claims (dc_MaxAge cfg)))"
  unfolding Validate_def Let_def by (auto split: sum.splits option.splits)

text \<open>A sequence of calls with their clock readings, requests and access tokens.\<close>

definition validate_calls ::
  "json_codec \<Rightarrow> crypto \<Rightarrow> (http_request \<Rightarrow> string) \<Rightarrow> 's cache_ops \<Rightarrow> DPoPConfig \<Rightarrow> (time \<times> http_request \<times> string) list \<Rightarrow> 's \<Rightarrow> 's" where
  "validate_calls codec cr urlString c cfg calls s =
     fold (\<lambda>(now, r, token) s. snd (Validate codec cr urlString c cfg now r token s)) calls s"

context token_cache
begin

lemma seen_kept:
  assumes "0 < dc_MaxAge cfg" "\<forall>u \<le> T. co_Get ops u s k \<noteq> None"
  shows "\<forall>u \<le> T. co_Get ops u (snd (Validate codec cr urlString ops cfg now r token s)) k \<noteq> None"
  using Validate_state [of codec cr urlString ops cfg now r token s]
proof
  assume "\<exists>k. co_Get ops now s k = None
      \<and> snd (Validate codec cr urlString ops cfg now r token s) = snd (co_Set ops now s k empty_claims (dc_MaxAge cfg))"
  then obtain k' where k': "co_Get ops now s k' = None"
    and s': "snd (Validate codec cr urlString ops cfg now r token s) = snd (co_Set ops now s k' empty_claims (dc_MaxAge cfg))"
    by blast
  show ?thesis
  proof (cases "k' = k")
    case True
    then have "\<not> now \<le> T" using k' assms(2) by auto
    with True s' assms(1) show ?thesis by (simp add: get_set)
  next
    case False
    with s' assms(2) show ?thesis by (simp add: get_set)
  qed
qed (use assms(2) in simp)

lemma seen_kept_calls:
  "0 < dc_MaxAge cfg \<Longrightarrow> \<forall>u \<le> T. co_Get ops u s k \<noteq> None \<Longrightarrow>
   \<forall>u \<le> T. co_Get ops u (validate_calls codec cr urlString ops cfg calls s) k \<noteq> None"
proof (induction calls arbitrary: s)
  case Nil
  then show ?case by (simp add: validate_calls_def)
next
  case (Cons call calls)
  obtain now r token where c: "call = (now, r, token)" by (cases call)
  have "validate_calls codec cr urlString ops cfg (call # calls) s =
      validate_calls codec cr urlString ops cfg calls (snd (Validate codec cr urlString ops cfg now r token s))"
    by (simp add: validate_calls_def c)
  then show ?case using Cons.IH [OF Cons.prems(1) seen_kept [OF Cons.prems]] by presburger
qed

lemma no_replay:
  assumes acc: "Validate codec cr urlString ops cfg now1 r token s = (Inr proof, s1)"
    and cfg: "0 < dc_MaxAge cfg" "dc_MaxAge cfg < max_int64" and iat: "dp_IAT proof \<le> now1"
    and hdr: "Header_Get (rq_Header r') ''DPoP'' = Header_Get (rq_Header r) ''DPoP''"
  shows "\<not> is_ok (fst (Validate codec cr urlString ops cfg now2 r' token' (validate_calls codec cr urlString ops cfg calls s1)))"
proof (rule notI)
  let ?s = "validate_calls codec cr urlString ops cfg calls s1" and ?k = "dpopJTIPrefix @ dp_JTI proof"
  assume "is_ok (fst (Validate codec cr urlString ops cfg now2 r' token' ?s))"
  then obtain proof' s' where acc': "Validate codec cr urlString ops cfg now2 r' token' ?s = (Inr proof', s')"
    by (metis is_ok_iff prod.collapse)
  note v = ValidateDPoP_InrD [OF Validate_InrD(1) [OF acc]] and v' = ValidateDPoP_InrD [OF Validate_InrD(1) [OF acc']]
  have p: "proof' = proof" using v(1) v'(1) hdr by simp
  have "\<forall>u \<le> now1 + dc_MaxAge cfg. co_Get ops u s1 ?k \<noteq> None"
    using Validate_InrD(4) [OF acc] by (simp add: get_set)
  then have "\<not> now2 \<le> now1 + dc_MaxAge cfg"
    using seen_kept_calls [OF cfg(1)] Validate_InrD(3) [OF acc'] p by blast
  moreover have "now2 - dp_IAT proof \<le> dc_MaxAge cfg"
    using v'(5) p cfg by (simp add: Since_def time_Sub_le_iff int64_def)
  ultimately show False using iat by simp
qed

end

section \<open>Properties\<close>

text \<open>C7: an accepted proof is sound.  Its signature verifies under the key it embeds, it names the
  method and address of the request, commits to the access token, is at most the maximum age
  old and at most five seconds in the future, carries a valid nonce when one is required, and
  its jti was not live before and is recorded.\<close>

theorem dpop_accepted:
  assumes "Validate codec cr urlString memory_ops cfg now r token m = (Inr proof, m')"
    and "0 < dc_MaxAge cfg" "dc_MaxAge cfg < max_int64"
  shows "verifyDPoPSignature cr (Header_Get (rq_Header r) ''DPoP'') proof = None
    \<and> EqualFold (dp_HTM proof) (rq_Method r)
    \<and> (EqualFold (dp_HTU proof) (urlString r) \<or> htuMatches (dp_HTU proof) r)
    \<and> dp_ATH proof = hashTokenForDPoP cr token
    \<and> now - dc_MaxAge cfg \<le> dp_IAT proof \<and> dp_IAT proof \<le> now + 5 * Second
    \<and> (\<forall>n. dc_Nonce cfg = Some n \<longrightarrow> Valid cr now n (dp_Nonce proof))
    \<and> dp_JTI proof \<noteq> [] \<and> MemoryCache_Get now m (dpopJTIPrefix @ dp_JTI proof) = None
    \<and> (\<forall>u \<le> now + dc_MaxAge cfg. MemoryCache_Get u m' (dpopJTIPrefix @ dp_JTI proof) \<noteq> None)"
proof -
  note v = Validate_InrD [OF assms(1)]
  note d = ValidateDPoP_InrD [OF v(1)]
  have "now - dc_MaxAge cfg \<le> dp_IAT proof"
    using d(5) assms(2,3) by (simp add: Since_def time_Sub_le_iff int64_def)
  moreover have "\<forall>u \<le> now + dc_MaxAge cfg. MemoryCache_Get u m' (dpopJTIPrefix @ dp_JTI proof) \<noteq> None"
    using v(4) mc.get_set by simp
  ultimately show ?thesis using d v by simp
qed

text \<open>C8: replay protection.  Once a proof that is not dated in the future has been accepted, the same
  proof is never accepted again: not with another request or access token, not at any other
  time, and not after any number of other validations in between.\<close>

theorem dpop_no_replay:
  assumes "Validate codec cr urlString memory_ops cfg now1 r token m = (Inr proof, m1)"
    and "0 < dc_MaxAge cfg" "dc_MaxAge cfg < max_int64" "dp_IAT proof \<le> now1"
    and "Header_Get (rq_Header r') ''DPoP'' = Header_Get (rq_Header r) ''DPoP''"
  shows "\<not> is_ok (fst (Validate codec cr urlString memory_ops cfg now2 r' token'
     (validate_calls codec cr urlString memory_ops cfg calls m1)))"
  using mc.no_replay [OF assms] .

text \<open>The replay window has a gap.  A proof dated up to five seconds in the future stays
  acceptable for longer than its jti is remembered: when the checks of the proof succeed at a
  time and again after the maximum age has passed since, it is accepted at both times.\<close>

lemma dpop_replay_gap:
  assumes "ValidateDPoP codec cr urlString now1 r token cfg = Inr proof"
    and "ValidateDPoP codec cr urlString now2 r token cfg = Inr proof"
    and "dp_JTI proof \<noteq> []" "MemoryCache_Get now1 m (dpopJTIPrefix @ dp_JTI proof) = None"
    and "now1 + dc_MaxAge cfg < now2"
  shows "is_ok (fst (Validate codec cr urlString memory_ops cfg now1 r token m))
    \<and> is_ok (fst (Validate codec cr urlString memory_ops cfg now2 r token
         (snd (Validate codec cr urlString memory_ops cfg now1 r token m))))"
proof -
  have v: "Validate codec cr urlString memory_ops cfg now1 r token m =
      (Inr proof, snd (MemoryCache_Set now1 m (dpopJTIPrefix @ dp_JTI proof) empty_claims (dc_MaxAge cfg)))"
    using assms(1,3,4) by (simp add: Validate_def Let_def)
  have "MemoryCache_Get now2 (snd (MemoryCache_Set now1 m (dpopJTIPrefix @ dp_JTI proof) empty_claims (dc_MaxAge cfg)))
      (dpopJTIPrefix @ dp_JTI proof) = None"
    using mc.get_set assms(5) by simp
  with v assms(2,3) show ?thesis by (simp add: Validate_def Let_def)
qed

text \<open>A bound token needs its key.  Binding succeeds exactly when the token carries a
  confirmation thumbprint and it is the thumbprint of the key that signed the proof; a token
  without confirmation is refused.\<close>

lemma dpop_binding:
  "VerifyDPoPBinding codec cr proof claims = None \<longleftrightarrow>
     HasDPoP claims \<and> Thumbprint codec cr proof = Inr (cnf_JKT (the (cc_Confirmation claims)))"
  by (auto simp: VerifyDPoPBinding_def HasDPoP_def split: option.splits sum.splits)

text \<open>The life of a nonce.  A nonce issued at a time is valid from then on for at least one
  window; and if the HMAC tells windows apart, it is invalid as soon as two windows have
  passed.\<close>

lemma nonce_life:
  assumes "0 < np_window n" "0 \<le> t" "t \<le> u" "\<And>w. cr_HMAC cr (np_secret n) (show_int w) \<noteq> []"
  shows "(u < t + np_window n \<longrightarrow> Valid cr u n (Current cr t n))
    \<and> (t + 2 * np_window n \<le> u \<and> inj (\<lambda>w. cr_HMAC cr (np_secret n) (show_int w)) \<longrightarrow> \<not> Valid cr u n (Current cr t n))"
proof -
  let ?W = "np_window n"
  have w: "window_of t ?W = t div ?W" "window_of u ?W = u div ?W"
    using assms(1-3) by (auto simp: window_of_def sgn_if)
  have le: "t div ?W \<le> u div ?W" using assms(1,3) by (simp add: zdiv_mono1)
  have ne: "forWindow cr n v \<noteq> []" for v
  proof -
    have "length (forWindow cr n v) > 0"
      using assms(4) [of v] by (cases "cr_HMAC cr (np_secret n) (show_int v)") (auto simp: forWindow_def RawURLEncoding_length)
    then show ?thesis by simp
  qed
  have "u div ?W = t div ?W \<or> u div ?W - 1 = t div ?W" if "u < t + ?W"
  proof -
    have "u div ?W \<le> (t + ?W) div ?W" using that assms(1) by (intro zdiv_mono1) simp_all
    then have "u div ?W \<le> t div ?W + 1" using div_add_self2 [of ?W t] assms(1) by linarith
    with le show ?thesis by linarith
  qed
  moreover have "t div ?W + 2 \<le> u div ?W" if "t + 2 * ?W \<le> u"
  proof -
    have "(t + 2 * ?W) div ?W \<le> u div ?W" using that assms(1) by (intro zdiv_mono1) simp_all
    then show ?thesis using assms(1) by simp
  qed
  moreover have "\<not> Valid cr u n (forWindow cr n v)" if "inj (\<lambda>w. cr_HMAC cr (np_secret n) (show_int w))" "v + 2 \<le> u div ?W" for v
  proof -
    have "u div ?W \<noteq> v" "u div ?W - 1 \<noteq> v" using that(2) by linarith+
    then have "forWindow cr n v \<noteq> forWindow cr n (u div ?W)" "forWindow cr n v \<noteq> forWindow cr n (u div ?W - 1)"
      using that(1) by (auto simp: forWindow_def RawURLEncoding_inj dest: injD)
    then show ?thesis by (simp add: Valid_def w)
  qed
  moreover have "Valid cr u n (forWindow cr n v)" if "u div ?W = v \<or> u div ?W - 1 = v" for v
    using that ne by (auto simp: Valid_def w)
  ultimately show ?thesis unfolding Current_def w by blast
qed

section \<open>A concrete proof\<close>

definition wit_crypto :: crypto where
  "wit_crypto = \<lparr>cr_Sum = (\<lambda>_ s. s), cr_HMAC = (\<lambda>k m. k @ m), cr_IsOnCurve = (\<lambda>_ _ _. True),
     cr_ECDSA_Verify = (\<lambda>_ _ _ _ _ _. True), cr_RSA_VerifyPKCS1v15 = (\<lambda>_ _ _ _ _. None)\<rparr>"

definition wit_jwk :: "(string \<times> json) list" where
  "wit_jwk = [(''kty'', JStr ''RSA''), (''n'', JStr ''AQ''), (''e'', JStr ''Aw'')]"

text \<open>The proof is dated three seconds after the epoch and commits to the access token \<^verbatim>\<open>t\<close>.\<close>

definition wit_dpop_codec :: json_codec where
  "wit_dpop_codec = \<lparr>json_parse = (\<lambda>s.
       if s = ''H'' then Some (JObj [(''alg'', JStr ''RS256''), (''typ'', JStr ''dpop+jwt''), (''jwk'', JObj wit_jwk)])
       else if s = ''P'' then Some (JObj [(''jti'', JStr ''j''), (''htm'', JStr ''GET''), (''htu'', JStr ''u''),
         (''iat'', JInt 3), (''ath'', JStr (RawURLEncoding_Encode ''t''))])
       else None),
     json_decode = (\<lambda>_. None), json_print = (\<lambda>_. []), time_parse = (\<lambda>_. None), time_print = (\<lambda>_. None)\<rparr>"

definition wit_jwt :: string where
  "wit_jwt = RawURLEncoding_Encode ''H'' @ CHR ''.'' # RawURLEncoding_Encode ''P'' @ CHR ''.'' # RawURLEncoding_Encode ''S''"

definition wit_dpop_request :: http_request where
  "wit_dpop_request = \<lparr>rq_Method = ''GET'', rq_Path = ''/'', rq_RawQuery = [], rq_RequestURI = ''/'', rq_Host = ''h'',
     rq_RemoteAddr = ''10.0.0.1:80'', rq_TLS = True, rq_PeerCertificates = 0, rq_Header = [(''Dpop'', [wit_jwt])], rq_Body = []\<rparr>"

definition wit_proof :: DPoPProof where
  "wit_proof = \<lparr>dp_Algorithm = ''RS256'', dp_JWK = rev (map (\<lambda>kv. (fst kv, json_to_gval (snd kv))) wit_jwk), dp_JTI = ''j'',
     dp_HTM = ''GET'', dp_HTU = ''u'', dp_IAT = 3 * Second, dp_ATH = RawURLEncoding_Encode ''t'', dp_Nonce = []\<rparr>"

lemma Raw_no_dot: "CHR ''.'' \<notin> set (RawURLEncoding_Encode s)"
  using b64_encode_raw_safe [of s] url_safe_not by (auto simp: RawURLEncoding_Encode_def)

lemma wit_split: "Split wit_jwt (CHR ''.'') = [RawURLEncoding_Encode ''H'', RawURLEncoding_Encode ''P'', RawURLEncoding_Encode ''S'']"
  by (simp add: wit_jwt_def Split_append Split_none Raw_no_dot)

lemma wit_header: "Header_Get (rq_Header wit_dpop_request) ''DPoP'' = wit_jwt"
  by (simp add: wit_dpop_request_def Header_Get_def header_key_simps)

lemma wit_parse: "parseDPoPJWT wit_dpop_codec wit_jwt = Inr wit_proof"
  by (simp add: parseDPoPJWT_def wit_split parse_dpop_parts_def unmarshal_into_def wit_dpop_codec_def
      dpop_header_member_def dpop_payload_member_def fold_simps wit_proof_def Unix_def int64_def)

lemma wit_key: "PublicKeyFromJWK wit_crypto (dp_JWK wit_proof) = Inr (RSAKey 1 3)"
proof -
  have "RawURLEncoding_Decode ''AQ'' = Inr [CHR 0x01]" "RawURLEncoding_Decode ''Aw'' = Inr [CHR 0x03]" by code_simp+
  then show ?thesis
    by (simp add: PublicKeyFromJWK_def rsaKeyFromJWK_def jwk_string_def wit_proof_def wit_jwk_def SetBytes_def wrap64_def)
qed

lemma wit_signature: "verifyDPoPSignature wit_crypto wit_jwt wit_proof = None"
proof -
  have "dp_Algorithm wit_proof = ''RS256''" "cr_RSA_VerifyPKCS1v15 wit_crypto n e h d sg = None" for n e h d sg
    by (simp_all add: wit_proof_def wit_crypto_def)
  then show ?thesis by (simp add: verifyDPoPSignature_def wit_split wit_key verifyJWTSignature_def Let_def)
qed

lemma wit_accept:
  assumes "now - 3 * Second \<le> 60 * Second" "3 * Second \<le> now + 5 * Second"
  shows "ValidateDPoP wit_dpop_codec wit_crypto (\<lambda>_. ''u'') now wit_dpop_request ''t'' DefaultDPoPConfig = Inr wit_proof"
proof -
  have f: "dp_HTM wit_proof = ''GET''" "dp_HTU wit_proof = ''u''" "dp_IAT wit_proof = 3 * Second"
    "dp_ATH wit_proof = hashTokenForDPoP wit_crypto ''t''" "dp_ATH wit_proof \<noteq> []"
    by (simp_all add: wit_proof_def hashTokenForDPoP_def wit_crypto_def) (simp add: RawURLEncoding_Encode_def b64_1_def)
  have ne: "wit_jwt \<noteq> []" by (simp add: wit_jwt_def)
  have age: "Since now (3 * Second) \<le> 60 * Second" using assms(1) by (simp add: Since_def time_Sub_le_iff int64_def)
  show ?thesis
    using assms(2) age ne f(5)
    by (simp add: ValidateDPoP_def wit_header wit_parse wit_signature f(1-4) Let_def DefaultDPoPConfig_def)
       (simp add: wit_dpop_request_def)
qed

lemma wit_Validate:
  assumes "now - 3 * Second \<le> 60 * Second" "3 * Second \<le> now + 5 * Second"
  shows "Validate wit_dpop_codec wit_crypto (\<lambda>_. ''u'') memory_ops DefaultDPoPConfig now wit_dpop_request ''t'' NewMemoryCache
    = (Inr wit_proof, snd (MemoryCache_Set now NewMemoryCache (dpopJTIPrefix @ ''j'') empty_claims (60 * Second)))"
  using wit_accept [OF assms]
  by (simp add: Validate_def Let_def NewMemoryCache_def MemoryCache_Get_def) (simp add: wit_proof_def DefaultDPoPConfig_def)

theorem dpop_accepted_witness:
  "\<exists>m'. Validate wit_dpop_codec wit_crypto (\<lambda>_. ''u'') memory_ops DefaultDPoPConfig (5 * Second) wit_dpop_request ''t'' NewMemoryCache
      = (Inr wit_proof, m')
    \<and> verifyDPoPSignature wit_crypto (Header_Get (rq_Header wit_dpop_request) ''DPoP'') wit_proof = None
    \<and> dp_ATH wit_proof = hashTokenForDPoP wit_crypto ''t''
    \<and> MemoryCache_Get (65 * Second) m' (dpopJTIPrefix @ dp_JTI wit_proof) \<noteq> None"
proof -
  have v: "Validate wit_dpop_codec wit_crypto (\<lambda>_. ''u'') memory_ops DefaultDPoPConfig (5 * Second) wit_dpop_request ''t'' NewMemoryCache
    = (Inr wit_proof, snd (MemoryCache_Set (5 * Second) NewMemoryCache (dpopJTIPrefix @ ''j'') empty_claims (60 * Second)))"
    by (rule wit_Validate) simp_all
  have d: "0 < dc_MaxAge DefaultDPoPConfig" "dc_MaxAge DefaultDPoPConfig < max_int64" "65 * Second \<le> 5 * Second + dc_MaxAge DefaultDPoPConfig"
    by (simp_all add: DefaultDPoPConfig_def)
  from dpop_accepted [OF v d(1,2)] v d(3) show ?thesis by blast
qed

theorem dpop_no_replay_witness:
  "\<not> is_ok (fst (Validate wit_dpop_codec wit_crypto (\<lambda>_. ''u'') memory_ops DefaultDPoPConfig (6 * Second) wit_dpop_request ''t''
     (snd (Validate wit_dpop_codec wit_crypto (\<lambda>_. ''u'') memory_ops DefaultDPoPConfig (5 * Second) wit_dpop_request ''t'' NewMemoryCache))))"
proof -
  have v: "Validate wit_dpop_codec wit_crypto (\<lambda>_. ''u'') memory_ops DefaultDPoPConfig (5 * Second) wit_dpop_request ''t'' NewMemoryCache
    = (Inr wit_proof, snd (MemoryCache_Set (5 * Second) NewMemoryCache (dpopJTIPrefix @ ''j'') empty_claims (60 * Second)))"
    by (rule wit_Validate) simp_all
  have d: "0 < dc_MaxAge DefaultDPoPConfig" "dc_MaxAge DefaultDPoPConfig < max_int64" "dp_IAT wit_proof \<le> 5 * Second"
    by (simp_all add: DefaultDPoPConfig_def wit_proof_def)
  from dpop_no_replay [OF v d refl, of "6 * Second" "''t''" "[]"] show ?thesis
    unfolding v by (simp add: validate_calls_def)
qed

theorem dpop_replay_gap_witness:
  "is_ok (fst (Validate wit_dpop_codec wit_crypto (\<lambda>_. ''u'') memory_ops DefaultDPoPConfig (61 * Second) wit_dpop_request ''t''
     (snd (Validate wit_dpop_codec wit_crypto (\<lambda>_. ''u'') memory_ops DefaultDPoPConfig 0 wit_dpop_request ''t'' NewMemoryCache))))"
  by (rule dpop_replay_gap [OF wit_accept wit_accept, THEN conjunct2])
     (simp_all add: wit_proof_def NewMemoryCache_def MemoryCache_Get_def DefaultDPoPConfig_def)

theorem nonce_life_witness:
  "Valid wit_crypto 10 (NewNonceProvider ''k'' 20) (Current wit_crypto 5 (NewNonceProvider ''k'' 20))"
  using nonce_life [of "NewNonceProvider ''k'' 20" 5 10 wit_crypto]
  by (simp add: NewNonceProvider_def wit_crypto_def)

end
