(* ===== verification/Forms.thy ===== *)
theory Forms
  imports Claims
begin

text \<open>
  The query language of \<^verbatim>\<open>net/url\<close>: \<^verbatim>\<open>QueryUnescape\<close>, \<^verbatim>\<open>ParseQuery\<close> and \<^verbatim>\<open>Values\<close> as the source
  uses them, and the round trip with the encoder of \<^verbatim>\<open>Claims\<close>.  It shows that the forms sent
  by the introspection, PAR and token exchange clients cannot be read in any other way than
  as the fields that were put in, whatever characters these contain.
\<close>

text \<open>\<^verbatim>\<open>url.QueryUnescape\<close> and \<^verbatim>\<open>url.PathUnescape\<close>, which leaves a plus sign alone; an invalid escape
  is an error.\<close>

fun unescape :: "bool \<Rightarrow> string \<Rightarrow> string option" where
  "unescape query [] = Some []"
| "unescape query (c # s) =
     (if c = CHR ''%''
      then (case s of a # b # t \<Rightarrow>
              (case (hex_value a, hex_value b) of
                 (Some x, Some y) \<Rightarrow> map_option ((#) (char_of (16 * x + y))) (unescape query t)
               | _ \<Rightarrow> None)
            | _ \<Rightarrow> None)
      else map_option ((#) (if query \<and> c = CHR ''+'' then CHR '' '' else c)) (unescape query s))"

abbreviation QueryUnescape :: "string \<Rightarrow> string option" where "QueryUnescape \<equiv> unescape True"
abbreviation PathUnescape :: "string \<Rightarrow> string option" where "PathUnescape \<equiv> unescape False"

text \<open>One part between ampersands.\<close>

definition query_part :: "string \<Rightarrow> (string \<times> string) option" where
  "query_part part =
     (if CHR '';'' \<in> set part \<or> part = [] then None
      else (case Cut part (CHR ''='') of (k, v, _) \<Rightarrow>
        (case (QueryUnescape k, QueryUnescape v) of (Some k', Some v') \<Rightarrow> Some (k', v') | _ \<Rightarrow> None)))"

text \<open>\<^verbatim>\<open>URL.Query()\<close>: the pairs that can be read, in order; the others are dropped.\<close>

definition ParseQuery :: "string \<Rightarrow> (string \<times> string) list" where
  "ParseQuery query = List.map_filter query_part (Split query (CHR ''&''))"

section \<open>Round trip\<close>

lemma nibbles: "byte_of c div 16 < 16" "byte_of c mod 16 < 16"
proof -
  show "byte_of c div 16 < 16" using byte_less [of c] by linarith
qed simp

lemma hex_value_upper: "d < 16 \<Longrightarrow> hex_value (upper_hex d) = Some d"
  by (simp add: hex_value_def upper_hex_def between_def Let_def)

lemma unreserved_not: "unreserved c \<Longrightarrow> c \<noteq> CHR ''%'' \<and> c \<noteq> CHR ''+'' \<and> c \<noteq> CHR ''&'' \<and> c \<noteq> CHR ''='' \<and> c \<noteq> CHR '';''"
  by (auto simp: unreserved_def between_def Let_def)

lemma QueryEscape_Cons: "QueryEscape (c # s) = (if unreserved c then [c] else if c = CHR '' '' then ''+''
     else [CHR ''%'', upper_hex (byte_of c div 16), upper_hex (byte_of c mod 16)]) @ QueryEscape s"
  by (simp add: QueryEscape_def)

lemma QueryUnescape_Escape [simp]: "QueryUnescape (QueryEscape s) = Some s"
proof (induction s)
  case Nil
  then show ?case by (simp add: QueryEscape_def)
next
  case (Cons c s)
  have hex: "hex_value (upper_hex (byte_of c div 16)) = Some (byte_of c div 16)"
    "hex_value (upper_hex (byte_of c mod 16)) = Some (byte_of c mod 16)"
    by (rule hex_value_upper, rule nibbles)+
  show ?case
    using Cons unreserved_not [of c] by (simp add: QueryEscape_Cons hex)
qed

lemma upper_hex_plain: "d < 16 \<Longrightarrow> upper_hex d \<notin> {CHR ''&'', CHR ''='', CHR '';''}"
  by (auto simp: upper_hex_def char_of_eq_iff take_bit_eq_mod split: if_splits)

lemma QueryEscape_plain: "c \<in> set (QueryEscape s) \<Longrightarrow> c \<noteq> CHR ''&'' \<and> c \<noteq> CHR ''='' \<and> c \<noteq> CHR '';''"
proof (induction s)
  case Nil
  then show ?case by (simp add: QueryEscape_def)
next
  case (Cons x s)
  from nibbles [of x, THEN upper_hex_plain] Cons show ?case
    using unreserved_not [of x] by (auto simp: QueryEscape_Cons split: if_splits)
qed

lemma query_part_pair: "query_part (form_pair kv) = Some kv"
proof -
  have "CHR '';'' \<notin> set (form_pair kv)" "CHR ''&'' \<notin> set (form_pair kv)" "CHR ''='' \<notin> set (QueryEscape (fst kv))"
    using QueryEscape_plain by (auto simp: form_pair_def)
  moreover from this(3) have "Cut (form_pair kv) (CHR ''='') = (QueryEscape (fst kv), QueryEscape (snd kv), True)"
    using Cut_sep by (simp add: form_pair_def)
  moreover have "form_pair kv \<noteq> []" by (simp add: form_pair_def)
  ultimately show ?thesis by (simp add: query_part_def)
qed

lemma form_pair_no_amp: "w \<in> set (map form_pair kvs) \<Longrightarrow> CHR ''&'' \<notin> set w"
  using QueryEscape_plain by (fastforce simp: form_pair_def)

lemma ParseQuery_form_encode: "ParseQuery (form_encode kvs) = kvs"
proof (cases "kvs = []")
  case True
  then show ?thesis by (simp add: ParseQuery_def form_encode_def List.map_filter_def query_part_def)
next
  case False
  then have "Split (form_encode kvs) (CHR ''&'') = map form_pair kvs"
    using Split_Join [of "map form_pair kvs" "CHR ''&''"] form_pair_no_amp by (simp add: form_encode_def)
  then show ?thesis by (simp add: ParseQuery_def List.map_filter_def query_part_pair o_def)
qed

end
