(* ===== verification/Fapi.thy ===== *)
theory Fapi
  imports Forms
begin

text \<open>
  The FAPI 2.0 profile (\<^verbatim>\<open>pkg/core/fapi/profile.go\<close>, \<^verbatim>\<open>par.go\<close>): validation of a resource
  request against the security profile, token binding, response types, and the pushed
  authorization request of a client.  The interface \<^verbatim>\<open>TokenClaims\<close> is a record of what its
  four methods return; \<open>common_view\<close> is its implementation by \<^verbatim>\<open>CommonClaims\<close>.
\<close>

section \<open>Profile validation (profile.go)\<close>

definition FAPIMaxAuthAge :: duration where
  "FAPIMaxAuthAge = 60 * Second"

record ProfileError =
  pe_Requirement :: string
  pe_Detail :: string

definition ProfileError_Error :: "ProfileError \<Rightarrow> string" where
  "ProfileError_Error e = ''FAPI 2.0 profile violation ['' @ pe_Requirement e @ '']: '' @ pe_Detail e"

record TokenClaims =
  tc_HasDPoP :: bool
  tc_HasPARRequestURI :: bool
  tc_GetAuthAge :: duration
  tc_GetNonce :: string

definition common_view :: "time \<Rightarrow> CommonClaims \<Rightarrow> TokenClaims" where
  "common_view now c = \<lparr>tc_HasDPoP = HasDPoP c, tc_HasPARRequestURI = HasPARRequestURI c,
     tc_GetAuthAge = GetAuthAge now c, tc_GetNonce = GetNonce c\<rparr>"

record ValidationConfig =
  vc_RequireDPoP :: bool
  vc_RequireRequestURI :: bool
  vc_AllowedResponseTypes :: "string list"

definition DefaultFAPI2Config :: ValidationConfig where
  "DefaultFAPI2Config = \<lparr>vc_RequireDPoP = True, vc_RequireRequestURI = True, vc_AllowedResponseTypes = [''code'']\<rparr>"

definition ValidateRequest :: "TokenClaims \<Rightarrow> ValidationConfig \<Rightarrow> ProfileError option" where
  "ValidateRequest claims cfg =
     (if vc_RequireDPoP cfg \<and> \<not> tc_HasDPoP claims
      then Some \<lparr>pe_Requirement = ''DPoP'', pe_Detail = ''token must be DPoP-bound; missing DPoP proof''\<rparr>
      else if vc_RequireRequestURI cfg \<and> \<not> tc_HasPARRequestURI claims
      then Some \<lparr>pe_Requirement = ''PAR'',
             pe_Detail = ''authorization must be initiated via Pushed Authorization Request''\<rparr>
      else if tc_GetNonce claims = []
      then Some \<lparr>pe_Requirement = ''nonce'', pe_Detail = ''token must contain a nonce claim''\<rparr>
      else if 0 < tc_GetAuthAge claims \<and> FAPIMaxAuthAge < tc_GetAuthAge claims
      then Some \<lparr>pe_Requirement = ''auth_time'',
             pe_Detail = ''authentication is too old ('' @ Duration_String (Round_Second (tc_GetAuthAge claims))
               @ '' > '' @ Duration_String FAPIMaxAuthAge @ '' max)''\<rparr>
      else None)"

definition ValidateTokenBinding :: "http_request \<Rightarrow> TokenClaims \<Rightarrow> bool \<Rightarrow> ProfileError option" where
  "ValidateTokenBinding r claims allowMTLS =
     (if tc_HasDPoP claims then None
      else if allowMTLS \<and> rq_TLS r \<and> 0 < rq_PeerCertificates r then None
      else Some \<lparr>pe_Requirement = ''token-binding'',
             pe_Detail = ''token must be sender-constrained via DPoP or mTLS certificate''\<rparr>)"

fun folds_to_any :: "string \<Rightarrow> string list \<Rightarrow> bool" where
  "folds_to_any rt [] = False"
| "folds_to_any rt (a # as) = (if EqualFold rt a then True else folds_to_any rt as)"

definition ValidateResponseType :: "string \<Rightarrow> ValidationConfig \<Rightarrow> error option" where
  "ValidateResponseType responseType cfg =
     (let allowed = (if vc_AllowedResponseTypes cfg = [] then [''code''] else vc_AllowedResponseTypes cfg) in
      if folds_to_any responseType allowed then None
      else Some (Errorf (''FAPI 2.0: response_type '' @ Quote responseType @ '' not allowed; permitted: ''
             @ Join allowed '', '')))"

section \<open>Pushed authorization requests (par.go)\<close>

record PARRequest =
  pq_ResponseType :: string
  pq_ClientID :: string
  pq_RedirectURI :: string
  pq_Scope :: string
  pq_State :: string
  pq_Nonce :: string
  pq_CodeChallenge :: string
  pq_CodeChallengeMethod :: string
  pq_Resource :: string
  pq_AuthorizationDetails :: string
  pq_ClientSecret :: string

record PARResponse =
  pp_RequestURI :: string
  pp_ExpiresIn :: int

record PARError =
  pz_Code :: string
  pz_Description :: string

text \<open>An error of \<^verbatim>\<open>Push\<close> is the decoded error of the endpoint or any other error.\<close>

datatype push_error = PushPAR PARError | PushOther error

definition PARError_Error :: "PARError \<Rightarrow> string" where
  "PARError_Error e = (if pz_Description e \<noteq> [] then ''PAR error '' @ Quote (pz_Code e) @ '': '' @ pz_Description e
     else ''PAR error '' @ Quote (pz_Code e))"

definition validatePARRequest :: "PARRequest \<Rightarrow> error option" where
  "validatePARRequest req =
     (if pq_ClientID req = [] then Some (Errorf ''FAPI 2.0: client_id is required'')
      else if pq_RedirectURI req = [] then Some (Errorf ''FAPI 2.0: redirect_uri is required'')
      else if pq_ResponseType req \<noteq> ''code''
      then Some (Errorf (''FAPI 2.0: response_type must be 'code', got '' @ Quote (pq_ResponseType req)))
      else if pq_Nonce req = [] then Some (Errorf ''FAPI 2.0: nonce is required'')
      else if pq_State req = [] then Some (Errorf ''FAPI 2.0: state is required'')
      else if pq_CodeChallenge req = [] then Some (Errorf ''FAPI 2.0: PKCE code_challenge is required'')
      else if pq_CodeChallengeMethod req \<noteq> ''S256''
      then Some (Errorf (''FAPI 2.0: code_challenge_method must be 'S256', got '' @ Quote (pq_CodeChallengeMethod req)))
      else None)"

text \<open>\<^verbatim>\<open>url.Values\<close> with one value per key; \<^verbatim>\<open>Encode\<close> sorts by key.\<close>

definition buildPARForm :: "PARRequest \<Rightarrow> (string \<times> string) list" where
  "buildPARForm req =
     [(''response_type'', pq_ResponseType req), (''client_id'', pq_ClientID req),
      (''redirect_uri'', pq_RedirectURI req), (''scope'', pq_Scope req), (''state'', pq_State req),
      (''nonce'', pq_Nonce req), (''code_challenge'', pq_CodeChallenge req),
      (''code_challenge_method'', pq_CodeChallengeMethod req)]
     @ (if pq_Resource req \<noteq> [] then [(''resource'', pq_Resource req)] else [])
     @ (if pq_AuthorizationDetails req \<noteq> [] then [(''authorization_details'', pq_AuthorizationDetails req)] else [])"

definition Values_Encode :: "(string \<times> string) list \<Rightarrow> string" where
  "Values_Encode form = form_encode (sort_key fst form)"

definition par_error_member :: "string \<Rightarrow> json \<Rightarrow> PARError \<Rightarrow> PARError result" where
  "par_error_member k v e =
     (if EqualFold k ''error'' then store (into_string v (pz_Code e)) (\<lambda>x. e\<lparr>pz_Code := x\<rparr>)
      else if EqualFold k ''error_description'' then store (into_string v (pz_Description e)) (\<lambda>x. e\<lparr>pz_Description := x\<rparr>)
      else Inr e)"

definition par_response_member :: "string \<Rightarrow> json \<Rightarrow> PARResponse \<Rightarrow> PARResponse result" where
  "par_response_member k v p =
     (if EqualFold k ''request_uri'' then store (into_string v (pp_RequestURI p)) (\<lambda>x. p\<lparr>pp_RequestURI := x\<rparr>)
      else if EqualFold k ''expires_in'' then store (into_int64 v (pp_ExpiresIn p)) (\<lambda>x. p\<lparr>pp_ExpiresIn := x\<rparr>)
      else Inr p)"

definition decode_into :: "json_codec \<Rightarrow> (string \<Rightarrow> json \<Rightarrow> 'a \<Rightarrow> 'a result) \<Rightarrow> string \<Rightarrow> 'a \<Rightarrow> 'a result" where
  "decode_into codec member body st = (case json_decode codec body of None \<Rightarrow> Inl json_syntax_error
     | Some j \<Rightarrow> into_struct member j st)"

definition par_failure :: "json_codec \<Rightarrow> client_response \<Rightarrow> push_error" where
  "par_failure codec resp =
     (let plain = PushOther (Errorf (''PAR endpoint returned '' @ show_nat (cp_StatusCode resp))) in
      case decode_into codec par_error_member (cp_Body resp) \<lparr>pz_Code = [], pz_Description = []\<rparr> of
        Inl _ \<Rightarrow> plain
      | Inr parErr \<Rightarrow> if pz_Code parErr \<noteq> [] then PushPAR parErr else plain)"

definition Push :: "json_codec \<Rightarrow> http_client \<Rightarrow> string \<Rightarrow> PARRequest \<Rightarrow> push_error + PARResponse" where
  "Push codec client endpoint req = (case validatePARRequest req of
       Some e \<Rightarrow> Inl (PushOther e)
     | None \<Rightarrow> (case hc_NewRequest client endpoint of
         Some e \<Rightarrow> Inl (PushOther (Wrapf ''building PAR request: '' e))
       | None \<Rightarrow> (case hc_Do client \<lparr>cq_Method = ''POST'', cq_URL = endpoint,
             cq_ContentType = ''application/x-www-form-urlencoded'',
             cq_BasicAuth = (if pq_ClientID req \<noteq> [] then Some (pq_ClientID req, pq_ClientSecret req) else None),
             cq_Body = Values_Encode (buildPARForm req)\<rparr> of
           Inl e \<Rightarrow> Inl (PushOther (Wrapf ''PAR request: '' e))
         | Inr resp \<Rightarrow>
             if cp_StatusCode resp \<noteq> 201 \<and> cp_StatusCode resp \<noteq> 200 then Inl (par_failure codec resp)
             else (case decode_into codec par_response_member (cp_Body resp) \<lparr>pp_RequestURI = [], pp_ExpiresIn = 0\<rparr> of
                 Inl e \<Rightarrow> Inl (PushOther (Wrapf ''decoding PAR response: '' e))
               | Inr parResp \<Rightarrow>
                   if pp_RequestURI parResp = [] then Inl (PushOther (Errorf ''PAR response missing request_uri''))
                   else Inr parResp))))"

text \<open>The client; \<open>default_client\<close> is the HTTP client with a timeout of ten seconds, which is used when none
  is given.\<close>

record PARClient =
  pc_endpoint :: string
  pc_httpClient :: http_client

definition NewPARClient :: "http_client \<Rightarrow> string \<Rightarrow> http_client option \<Rightarrow> PARClient" where
  "NewPARClient default_client parEndpoint httpClient =
     \<lparr>pc_endpoint = parEndpoint, pc_httpClient = (case httpClient of None \<Rightarrow> default_client | Some c \<Rightarrow> c)\<rparr>"

definition PARClient_Push :: "json_codec \<Rightarrow> PARClient \<Rightarrow> PARRequest \<Rightarrow> push_error + PARResponse" where
  "PARClient_Push codec c req = Push codec (pc_httpClient c) (pc_endpoint c) req"

text \<open>\<^verbatim>\<open>url.Parse\<close> and \<^verbatim>\<open>URL.String\<close> on a URL taken apart into its query and the rest.\<close>

record url_library =
  ul_Parse :: "string \<Rightarrow> (string \<times> string) result"
  ul_String :: "string \<Rightarrow> string \<Rightarrow> string"

text \<open>\<^verbatim>\<open>Values.Set\<close> replaces all values of a key.\<close>

definition Values_Set :: "(string \<times> string) list \<Rightarrow> string \<Rightarrow> string \<Rightarrow> (string \<times> string) list" where
  "Values_Set vals k v = filter (\<lambda>kv. fst kv \<noteq> k) vals @ [(k, v)]"

definition AuthorizationURL :: "url_library \<Rightarrow> string \<Rightarrow> string \<Rightarrow> string \<Rightarrow> string result" where
  "AuthorizationURL lib authEndpoint clientID requestURI = (case ul_Parse lib authEndpoint of
       Inl e \<Rightarrow> Inl (Wrapf ''invalid authorization endpoint: '' e)
     | Inr (rest, rawQuery) \<Rightarrow>
        (let q = ParseQuery rawQuery;
             q = Values_Set q ''client_id'' clientID;
             q = Values_Set q ''request_uri'' requestURI
         in Inr (ul_String lib rest (Values_Encode q))))"

section \<open>Properties\<close>

lemma ParseQuery_Values_Encode: "ParseQuery (Values_Encode form) = sort_key fst form"
  by (simp add: Values_Encode_def ParseQuery_form_encode)

lemma filter_sort_key_eq: "filter (\<lambda>kv. fst kv = k) (sort_key fst form) = filter (\<lambda>kv. fst kv = k) form"
  by (rule sort_key_stable)

text \<open>The authorization URL carries the client and the pushed request exactly once, and every other
  parameter of the endpoint as it was, in its order.\<close>

lemma AuthorizationURL_query:
  assumes "ul_Parse lib authEndpoint = Inr (rest, rawQuery)"
  shows "\<exists>query. AuthorizationURL lib authEndpoint clientID requestURI = Inr (ul_String lib rest query)
    \<and> filter (\<lambda>kv. fst kv = ''client_id'') (ParseQuery query) = [(''client_id'', clientID)]
    \<and> filter (\<lambda>kv. fst kv = ''request_uri'') (ParseQuery query) = [(''request_uri'', requestURI)]
    \<and> (k \<notin> {''client_id'', ''request_uri''} \<longrightarrow>
         filter (\<lambda>kv. fst kv = k) (ParseQuery query) = filter (\<lambda>kv. fst kv = k) (ParseQuery rawQuery))"
proof -
  have other: "filter (\<lambda>kv. fst kv = k) (Values_Set vals k' v) = (if k = k' then [(k', v)] else filter (\<lambda>kv. fst kv = k) vals)"
    for k k' v vals by (auto simp: Values_Set_def intro!: filter_cong)
  let ?q = "Values_Set (Values_Set (ParseQuery rawQuery) ''client_id'' clientID) ''request_uri'' requestURI"
  show ?thesis
    using assms by (intro exI [of _ "Values_Encode ?q"])
      (simp add: AuthorizationURL_def ParseQuery_Values_Encode filter_sort_key_eq other Let_def)
qed

lemma ValidateRequest_None: "ValidateRequest claims cfg = None \<longleftrightarrow>
    (vc_RequireDPoP cfg \<longrightarrow> tc_HasDPoP claims) \<and> (vc_RequireRequestURI cfg \<longrightarrow> tc_HasPARRequestURI claims)
    \<and> tc_GetNonce claims \<noteq> [] \<and> tc_GetAuthAge claims \<le> FAPIMaxAuthAge"
  by (auto simp: ValidateRequest_def FAPIMaxAuthAge_def)

text \<open>A request that passes the default profile is sender-constrained and pushed.  Its token is
  bound to a DPoP key, was authorized through a pushed request, carries a nonce, and its
  authentication, if its time is known, is at most a minute old.\<close>

lemma ValidateRequest_default:
  assumes "ValidateRequest (common_view now c) DefaultFAPI2Config = None"
  shows "(\<exists>cnf. cc_Confirmation c = Some cnf \<and> cnf_JKT cnf \<noteq> [])
     \<and> (extraString c ''request_uri'' \<noteq> [] \<or> extraString c ''par_id'' \<noteq> [])
     \<and> extraString c ''nonce'' \<noteq> []
     \<and> (IsZero (cc_AuthTime c) \<or> now - cc_AuthTime c \<le> 60 * Second)"
proof -
  have age: "now - cc_AuthTime c \<le> Minute" if "Since now (cc_AuthTime c) \<le> Minute"
    using that by (simp add: Since_def time_Sub_le_iff int64_def)
  from assms show ?thesis
    unfolding ValidateRequest_None
    by (auto simp: common_view_def DefaultFAPI2Config_def HasDPoP_def HasPARRequestURI_def GetNonce_def
        GetAuthAge_def AuthAge_def FAPIMaxAuthAge_def split: option.splits if_splits intro: age)
qed

text \<open>No introspected token passes the profile.  The mapping from an introspection response
  keeps no extra claims, so the nonce is always missing and validation fails for every
  response and every configuration.\<close>

lemma introspected_fails_profile:
  assumes "Introspect codec client cfg token = Inr c"
  shows "ValidateRequest (common_view now c) vcfg \<noteq> None"
proof -
  obtain r where "c = introToCommonClaims r" using Introspect_InrD [OF assms] .
  then have "GetNonce c = []" by (simp add: GetNonce_def extraString_def)
  then show ?thesis by (simp add: ValidateRequest_None common_view_def)
qed

definition wit_client :: http_client where
  "wit_client = \<lparr>hc_NewRequest = (\<lambda>_. None), hc_Do = (\<lambda>_. Inr \<lparr>cp_StatusCode = 200, cp_Body = ''{}''\<rparr>)\<rparr>"

definition wit_json_codec :: json_codec where
  "wit_json_codec = \<lparr>json_parse = (\<lambda>_. None), json_decode = (\<lambda>_. Some (JObj [(''active'', JBool True)])),
     json_print = (\<lambda>_. []), time_parse = (\<lambda>_. None), time_print = (\<lambda>_. None)\<rparr>"

theorem introspected_fails_profile_witness:
  "\<exists>c. Introspect wit_json_codec wit_client \<lparr>ic_Endpoint = [], ic_ClientID = [], ic_ClientSecret = []\<rparr> ''t'' = Inr c
     \<and> cc_Active c \<and> ValidateRequest (common_view 0 c) DefaultFAPI2Config \<noteq> None"
proof -
  have "Introspect wit_json_codec wit_client \<lparr>ic_Endpoint = [], ic_ClientID = [], ic_ClientSecret = []\<rparr> ''t''
      = Inr (introToCommonClaims (empty_introspection\<lparr>ir_Active := True\<rparr>))"
    by (simp add: Introspect_def wit_json_codec_def wit_client_def introspection_member_def fold_simps)
  from this introspected_fails_profile [OF this] show ?thesis by auto
qed

text \<open>A request that was pushed successfully met every mandatory requirement before it was sent,
  and the answer carries a request URI.\<close>

lemma Push_valid:
  assumes "Push codec client endpoint req = Inr resp"
  shows "pq_ClientID req \<noteq> [] \<and> pq_RedirectURI req \<noteq> [] \<and> pq_ResponseType req = ''code'' \<and> pq_Nonce req \<noteq> []
     \<and> pq_State req \<noteq> [] \<and> pq_CodeChallenge req \<noteq> [] \<and> pq_CodeChallengeMethod req = ''S256''
     \<and> pp_RequestURI resp \<noteq> []"
proof -
  from assms have v: "validatePARRequest req = None" and "pp_RequestURI resp \<noteq> []"
    by (auto simp: Push_def split: option.splits sum.splits if_splits)
  moreover from v have "pq_ClientID req \<noteq> [] \<and> pq_RedirectURI req \<noteq> [] \<and> pq_ResponseType req = ''code'' \<and> pq_Nonce req \<noteq> []
     \<and> pq_State req \<noteq> [] \<and> pq_CodeChallenge req \<noteq> [] \<and> pq_CodeChallengeMethod req = ''S256''"
    unfolding validatePARRequest_def by (simp split: if_splits)
  ultimately show ?thesis by simp
qed

end
