(* ===== verification/Tenant.thy ===== *)
theory Tenant
  imports Claims
begin

text \<open>
  Tenants (\<^verbatim>\<open>pkg/tenant/registry.go\<close>, \<^verbatim>\<open>resolver.go\<close>, \<^verbatim>\<open>session.go\<close>) and the provider
  interface (\<^verbatim>\<open>pkg/providers/provider.go\<close>): the registry as an association list with one
  entry per tenant, its contract as the locale \<open>tenant_registry\<close>, the resolvers and the chain
  of resolvers.  A provider is a record of what its methods return when they are called.
\<close>

section \<open>Providers\<close>

record Provider =
  pv_Name :: string
  pv_Issuer :: string
  pv_Introspect :: "string \<Rightarrow> CommonClaims result"
  pv_JWKS :: "string result"
  pv_RefreshConfig :: "error option"

section \<open>The registry (registry.go)\<close>

record TenantConfig =
  tn_ID :: string
  tn_Provider :: Provider

record Registry =
  rg_tenants :: "(string \<times> TenantConfig) list"

definition NewRegistry :: Registry where
  "NewRegistry = \<lparr>rg_tenants = []\<rparr>"

definition Register :: "Registry \<Rightarrow> string \<Rightarrow> Provider \<Rightarrow> Registry" where
  "Register r tenantID provider =
     r\<lparr>rg_tenants := AList.update tenantID \<lparr>tn_ID = tenantID, tn_Provider = provider\<rparr> (rg_tenants r)\<rparr>"

definition Unregister :: "Registry \<Rightarrow> string \<Rightarrow> Registry" where
  "Unregister r tenantID = r\<lparr>rg_tenants := AList.delete tenantID (rg_tenants r)\<rparr>"

definition Registry_Get :: "Registry \<Rightarrow> string \<Rightarrow> Provider result" where
  "Registry_Get r tenantID = (case map_of (rg_tenants r) tenantID of
       None \<Rightarrow> Inl (Errorf (''tenant '' @ Quote tenantID @ '' not found in registry''))
     | Some cfg \<Rightarrow> Inr (tn_Provider cfg))"

definition Registry_List :: "Registry \<Rightarrow> string list" where
  "Registry_List r = map fst (rg_tenants r)"

text \<open>The errors of the providers that could not refresh, by tenant.\<close>

definition RefreshAll :: "Registry \<Rightarrow> (string \<times> error) list" where
  "RefreshAll r = List.map_filter (\<lambda>(tid, cfg). map_option (Pair tid) (pv_RefreshConfig (tn_Provider cfg))) (rg_tenants r)"

text \<open>The contract: a registration is found until it is replaced or removed, others are untouched,
  and the listing has exactly the registered tenants, each once.\<close>

locale tenant_registry =
  fixes get :: "'r \<Rightarrow> string \<Rightarrow> Provider result" and register :: "'r \<Rightarrow> string \<Rightarrow> Provider \<Rightarrow> 'r"
    and unregister :: "'r \<Rightarrow> string \<Rightarrow> 'r" and listing :: "'r \<Rightarrow> string list" and wf :: "'r \<Rightarrow> bool"
  assumes get_register: "get (register r t p) t' = (if t' = t then Inr p else get r t')"
    and get_unregister: "wf r \<Longrightarrow> t' \<noteq> t \<Longrightarrow> get (unregister r t) t' = get r t'"
    and gone: "\<not> is_ok (get (unregister r t) t)"
    and wf_register: "wf r \<Longrightarrow> wf (register r t p)"
    and wf_unregister: "wf r \<Longrightarrow> wf (unregister r t)"
    and listing: "wf r \<Longrightarrow> distinct (listing r) \<and> set (listing r) = {t. is_ok (get r t)}"
begin

text \<open>Of a series of registrations of one tenant the last one counts.\<close>

lemma last_registration:
  "ps \<noteq> [] \<Longrightarrow> get (foldl (\<lambda>r p. register r t p) r ps) t = Inr (last ps)"
  by (induction ps arbitrary: r rule: rev_induct) (auto simp: get_register)

lemma register_listing: "wf r \<Longrightarrow> set (listing (register r t p)) = insert t (set (listing r))"
  using listing [of r] listing [OF wf_register, of r t p] by (auto simp: get_register)

lemma unregister_listing: "wf r \<Longrightarrow> set (listing (unregister r t)) = set (listing r) - {t}"
  using listing [of r] listing [OF wf_unregister, of r t] get_unregister gone by (auto split: if_splits) metis+

end

definition registry_wf :: "Registry \<Rightarrow> bool" where
  "registry_wf r = distinct (map fst (rg_tenants r))"

lemma Registry_Get_ok: "is_ok (Registry_Get r t) \<longleftrightarrow> map_of (rg_tenants r) t \<noteq> None"
  by (auto simp: Registry_Get_def split: option.splits)

interpretation reg: tenant_registry Registry_Get Register Unregister Registry_List registry_wf
proof unfold_locales
  fix r :: Registry and t t' :: string and p :: Provider
  show "Registry_Get (Register r t p) t' = (if t' = t then Inr p else Registry_Get r t')"
    by (simp add: Registry_Get_def Register_def map_of_update)
  show "Registry_Get (Unregister r t) t' = Registry_Get r t'" if "t' \<noteq> t"
    using that by (simp add: Registry_Get_def Unregister_def delete_conv')
  show "\<not> is_ok (Registry_Get (Unregister r t) t)"
    by (simp add: Registry_Get_ok Unregister_def delete_conv')
  show "registry_wf r \<Longrightarrow> registry_wf (Register r t p)"
    by (simp add: registry_wf_def Register_def distinct_update)
  show "registry_wf r \<Longrightarrow> registry_wf (Unregister r t)"
    by (simp add: registry_wf_def Unregister_def distinct_delete)
  show "registry_wf r \<Longrightarrow> distinct (Registry_List r) \<and> set (Registry_List r) = {t. is_ok (Registry_Get r t)}"
    by (auto simp: registry_wf_def Registry_List_def Registry_Get_ok map_of_eq_None_iff)
qed

section \<open>Resolvers (resolver.go)\<close>

text \<open>A resolver returns a tenant, an error, or indexes a slice out of range and panics.\<close>

datatype resolved = Resolved string | Unresolved error | Panics

datatype Resolver =
    HeaderResolver string
  | SubdomainResolver string
  | PathResolver int
  | StaticResolver string
  | ChainResolver "Resolver list"
  | CustomResolver "http_request \<Rightarrow> resolved"

definition NewHeaderResolver :: "string \<Rightarrow> Resolver" where
  "NewHeaderResolver header = HeaderResolver (if header = [] then ''X-Tenant-ID'' else header)"

definition header_resolve :: "string \<Rightarrow> http_request \<Rightarrow> resolved" where
  "header_resolve h r = (let tid = Header_Get (rq_Header r) h in
     if tid = [] then Unresolved (Errorf (''missing tenant header '' @ Quote h)) else Resolved tid)"

definition subdomain_resolve :: "string \<Rightarrow> http_request \<Rightarrow> resolved" where
  "subdomain_resolve base r =
     (let host = (case LastIndexByte (rq_Host r) (CHR '':'') of Some idx \<Rightarrow> take idx (rq_Host r) | None \<Rightarrow> rq_Host r);
          suffix = ''.'' @ base
      in if \<not> HasSuffix host suffix
         then Unresolved (Errorf (''host '' @ Quote host @ '' is not a subdomain of '' @ Quote base))
         else (let tenant = TrimSuffix host suffix in
               if tenant = [] then Unresolved (Errorf ''empty tenant in subdomain'') else Resolved tenant))"

definition path_resolve :: "int \<Rightarrow> http_request \<Rightarrow> resolved" where
  "path_resolve seg r =
     (let parts = Split (TrimPrefix (rq_Path r) ''/'') (CHR ''/'');
          none = Unresolved (Errorf (''no tenant found at path segment '' @ show_int seg))
      in if int (length parts) \<le> seg then none
         else if seg < 0 then Panics
         else if parts ! nat seg = [] then none else Resolved (parts ! nat seg))"

definition static_resolve :: "string \<Rightarrow> resolved" where
  "static_resolve tid = (if tid = [] then Unresolved (Errorf ''static resolver has no tenant configured'') else Resolved tid)"

text \<open>The chain takes the first non-empty tenant; \<^verbatim>\<open>lastErr\<close> is overwritten in every round, also
  by the missing error of an empty tenant.\<close>

fun Resolve :: "Resolver \<Rightarrow> http_request \<Rightarrow> resolved"
and chain_loop :: "Resolver list \<Rightarrow> http_request \<Rightarrow> error option \<Rightarrow> resolved" where
  "Resolve (HeaderResolver h) r = header_resolve h r"
| "Resolve (SubdomainResolver base) r = subdomain_resolve base r"
| "Resolve (PathResolver seg) r = path_resolve seg r"
| "Resolve (StaticResolver tid) r = static_resolve tid"
| "Resolve (CustomResolver f) r = f r"
| "Resolve (ChainResolver rs) r = chain_loop rs r None"
| "chain_loop [] r lastErr = Unresolved (case lastErr of Some e \<Rightarrow> e
     | None \<Rightarrow> Errorf ''no resolver could determine tenant'')"
| "chain_loop (x # xs) r lastErr = (case Resolve x r of
       Panics \<Rightarrow> Panics
     | Resolved tid \<Rightarrow> if tid \<noteq> [] then Resolved tid else chain_loop xs r None
     | Unresolved e \<Rightarrow> chain_loop xs r (Some e))"

section \<open>The tenant in the context (session.go)\<close>

record tenant_context =
  cx_Tenant :: "string option"

definition WithTenantID :: "'a tenant_context_scheme \<Rightarrow> string \<Rightarrow> 'a tenant_context_scheme" where
  "WithTenantID ctx tenantID = ctx\<lparr>cx_Tenant := Some tenantID\<rparr>"

definition TenantIDFromContext :: "'a tenant_context_scheme \<Rightarrow> string \<times> bool" where
  "TenantIDFromContext ctx = (case cx_Tenant ctx of None \<Rightarrow> ([], False) | Some tid \<Rightarrow> (tid, tid \<noteq> []))"

section \<open>Lemmas\<close>

lemma chain_loop_first:
  "chain_loop rs r e = Resolved tid \<longleftrightarrow> tid \<noteq> [] \<and> (\<exists>us x vs. rs = us @ x # vs \<and> Resolve x r = Resolved tid
     \<and> (\<forall>u \<in> set us. (\<exists>e. Resolve u r = Unresolved e) \<or> Resolve u r = Resolved []))"
proof (induction rs arbitrary: e)
  case (Cons y rs)
  have split: "(\<exists>us x vs. y # rs = us @ x # vs \<and> P us x) \<longleftrightarrow> P [] y \<or> (\<exists>us x vs. rs = us @ x # vs \<and> P (y # us) x)" for P
    by (auto simp: Cons_eq_append_conv)
  show ?case
    unfolding split using Cons by (cases "Resolve y r") auto
qed simp

lemma subdomain_resolve_host:
  assumes "CHR '':'' \<notin> set port" "CHR '':'' \<notin> set (t @ ''.'' @ base) \<and> rq_Host r = t @ ''.'' @ base
      \<or> rq_Host r = (t @ ''.'' @ base) @ CHR '':'' # port" "t \<noteq> []"
  shows "subdomain_resolve base r = Resolved t"
proof -
  have "(case LastIndexByte (rq_Host r) (CHR '':'') of Some idx \<Rightarrow> take idx (rq_Host r) | None \<Rightarrow> rq_Host r) = t @ ''.'' @ base"
    using assms(2)
  proof
    assume h: "CHR '':'' \<notin> set (t @ ''.'' @ base) \<and> rq_Host r = t @ ''.'' @ base"
    then have "LastIndexByte (rq_Host r) (CHR '':'') = None" by (simp add: LastIndexByte_None)
    with h show ?thesis by simp
  next
    assume "rq_Host r = (t @ ''.'' @ base) @ CHR '':'' # port"
    with LastIndexByte_append [OF assms(1), of "t @ ''.'' @ base"] show ?thesis by simp
  qed
  moreover have "HasSuffix (t @ ''.'' @ base) (''.'' @ base)" unfolding HasSuffix_iff by blast
  moreover have "TrimSuffix (t @ ''.'' @ base) (''.'' @ base) = t" by (rule TrimSuffix_append)
  ultimately show ?thesis using assms(3) by (simp add: subdomain_resolve_def Let_def)
qed

section \<open>Properties\<close>

text \<open>The registry is a map from tenants to providers.  After a registration the tenant's
  provider is the registered one and all others are unchanged; after removal the tenant is
  unknown; the listing holds exactly the tenants that can be looked up, each once.\<close>

lemma Registry_map:
  assumes "registry_wf r"
  shows "Registry_Get (Register r t p) t' = (if t' = t then Inr p else Registry_Get r t')
    \<and> \<not> is_ok (Registry_Get (Unregister r t) t)
    \<and> (t' \<noteq> t \<longrightarrow> Registry_Get (Unregister r t) t' = Registry_Get r t')
    \<and> set (Registry_List (Register r t p)) = insert t (set (Registry_List r))
    \<and> set (Registry_List (Unregister r t)) = set (Registry_List r) - {t}
    \<and> registry_wf (Register r t p) \<and> registry_wf (Unregister r t)"
  using assms reg.get_register reg.gone reg.get_unregister reg.register_listing reg.unregister_listing
    reg.wf_register reg.wf_unregister by auto

definition wit_provider :: Provider where
  "wit_provider = \<lparr>pv_Name = ''generic'', pv_Issuer = ''https://as'', pv_Introspect = (\<lambda>_. Inr empty_claims),
     pv_JWKS = Inr [], pv_RefreshConfig = None\<rparr>"

theorem Registry_map_witness:
  "set (Registry_List (Unregister (Register NewRegistry ''acme'' wit_provider) ''acme'')) = {}"
  using Registry_map [of "Register NewRegistry ''acme'' wit_provider" "''acme''" wit_provider "''acme''"]
  by (simp add: registry_wf_def Registry_List_def NewRegistry_def Register_def)

text \<open>A chain resolves to a tenant exactly when some resolver of it does and every earlier one
  failed or returned the empty tenant; the result is never empty, so without a matching
  resolver the chain fails closed.\<close>

lemma ChainResolver_first:
  "Resolve (ChainResolver rs) r = Resolved tid \<longleftrightarrow> tid \<noteq> [] \<and> (\<exists>us x vs. rs = us @ x # vs
     \<and> Resolve x r = Resolved tid
     \<and> (\<forall>u \<in> set us. (\<exists>e. Resolve u r = Unresolved e) \<or> Resolve u r = Resolved []))"
  using chain_loop_first [of rs r None tid] by simp

definition wit_tenant_request :: http_request where
  "wit_tenant_request = \<lparr>rq_Method = ''GET'', rq_Path = ''/'', rq_RawQuery = [], rq_RequestURI = ''/'', rq_Host = ''h'',
     rq_RemoteAddr = ''10.0.0.1:80'', rq_TLS = True, rq_PeerCertificates = 0, rq_Header = [], rq_Body = []\<rparr>"

theorem ChainResolver_first_witness:
  "Resolve (ChainResolver [HeaderResolver ''X-Tenant-ID'', StaticResolver ''acme'', StaticResolver ''other'']) wit_tenant_request
     = Resolved ''acme''"
  unfolding ChainResolver_first
proof (intro conjI exI)
  show "[HeaderResolver ''X-Tenant-ID'', StaticResolver ''acme'', StaticResolver ''other'']
      = [HeaderResolver ''X-Tenant-ID''] @ StaticResolver ''acme'' # [StaticResolver ''other'']" by simp
qed (simp_all add: static_resolve_def header_resolve_def wit_tenant_request_def Header_Get_def)

end
