(* ===== verification/Rate_Limit.thy ===== *)
theory Rate_Limit
  imports Http Complex_Main
begin

text \<open>
  The rate limiter of the gateway (\<^verbatim>\<open>internal/gateway/ratelimit.go\<close>): one token bucket per
  client address.  A \<^verbatim>\<open>float64\<close> is the real number it denotes; every arithmetic operation is
  the exact one followed by \<open>rnd\<close>, the rounding of the machine, which is a parameter.
\<close>

section \<open>The limiter\<close>

record bucket =
  bk_tokens :: real
  bk_lastSeen :: time

record rateLimiter =
  rl_rps :: real
  rl_burst :: real
  rl_buckets :: "string \<rightharpoonup> bucket"

text \<open>The conversion \<^verbatim>\<open>int(rps)\<close> truncates; \<open>rps\<close> is positive where the source calls this.\<close>

definition newRateLimiter :: "real \<Rightarrow> int \<Rightarrow> rateLimiter" where
  "newRateLimiter rps burst0 =
     (let burst = (if burst0 \<le> 0 then (if \<lfloor>rps\<rfloor> < 1 then 1 else \<lfloor>rps\<rfloor>) else burst0)
      in \<lparr>rl_rps = rps, rl_burst = of_int burst, rl_buckets = Map.empty\<rparr>)"

text \<open>\<^verbatim>\<open>Duration.Seconds\<close>: whole seconds plus the fraction, division truncating.\<close>

definition Seconds :: "(real \<Rightarrow> real) \<Rightarrow> duration \<Rightarrow> real" where
  "Seconds rnd d =
     (let sec = sgn d * (\<bar>d\<bar> div Second); nsec = sgn d * (\<bar>d\<bar> mod Second)
      in rnd (of_int sec + rnd (of_int nsec / 1000000000)))"

definition allow :: "(real \<Rightarrow> real) \<Rightarrow> time \<Rightarrow> string \<Rightarrow> rateLimiter \<Rightarrow> bool \<times> rateLimiter" where
  "allow rnd now key rl = (case rl_buckets rl key of
       None \<Rightarrow> (True, rl\<lparr>rl_buckets := (rl_buckets rl)(key \<mapsto> \<lparr>bk_tokens = rnd (rl_burst rl - 1), bk_lastSeen = now\<rparr>)\<rparr>)
     | Some b \<Rightarrow>
        (let elapsed = Seconds rnd (time_Sub now (bk_lastSeen b));
             t0 = rnd (bk_tokens b + rnd (elapsed * rl_rps rl));
             t1 = (if rl_burst rl < t0 then rl_burst rl else t0)
         in if t1 < 1
            then (False, rl\<lparr>rl_buckets := (rl_buckets rl)(key \<mapsto> \<lparr>bk_tokens = t1, bk_lastSeen = now\<rparr>)\<rparr>)
            else (True, rl\<lparr>rl_buckets := (rl_buckets rl)(key \<mapsto> \<lparr>bk_tokens = rnd (t1 - 1), bk_lastSeen = now\<rparr>)\<rparr>)))"

text \<open>One tick of the clean-up loop: buckets idle for more than five minutes are deleted.\<close>

definition cleanup :: "time \<Rightarrow> rateLimiter \<Rightarrow> rateLimiter" where
  "cleanup now rl = (let cutoff = now - 5 * Minute in
     rl\<lparr>rl_buckets := (\<lambda>k. case rl_buckets rl k of None \<Rightarrow> None
        | Some b \<Rightarrow> if bk_lastSeen b < cutoff then None else Some b)\<rparr>)"

definition clientKey :: "http_request \<Rightarrow> string" where
  "clientKey r = (case SplitHostPort (rq_RemoteAddr r) of Inl _ \<Rightarrow> rq_RemoteAddr r | Inr (host, _) \<Rightarrow> host)"

section \<open>Sequences of requests\<close>

text \<open>The requests and clean-up ticks in the order the mutex gives them.\<close>

datatype rl_event = Request time string | Tick time

fun rl_time :: "rl_event \<Rightarrow> time" where
  "rl_time (Request t k) = t"
| "rl_time (Tick t) = t"

fun rl_step :: "(real \<Rightarrow> real) \<Rightarrow> rl_event \<Rightarrow> rateLimiter \<Rightarrow> rateLimiter" where
  "rl_step rnd (Request t k) rl = snd (allow rnd t k rl)"
| "rl_step rnd (Tick t) rl = cleanup t rl"

text \<open>The number of requests with a key that are allowed.\<close>

fun admitted :: "(real \<Rightarrow> real) \<Rightarrow> string \<Rightarrow> rl_event list \<Rightarrow> rateLimiter \<Rightarrow> nat" where
  "admitted rnd key [] rl = 0"
| "admitted rnd key (e # es) rl =
     (case e of Request t k \<Rightarrow> if k = key \<and> fst (allow rnd t k rl) then 1 else 0 | Tick t \<Rightarrow> 0)
     + admitted rnd key es (rl_step rnd e rl)"

section \<open>Lemmas\<close>

text \<open>Monotone rounding that keeps the integers the limiter uses.\<close>

definition rounding :: "(real \<Rightarrow> real) \<Rightarrow> bool" where
  "rounding rnd = (mono rnd \<and> (\<forall>i :: int. \<bar>i\<bar> \<le> 2 ^ 53 \<longrightarrow> rnd (of_int i) = of_int i))"

text \<open>The state a limiter is in at a time: every bucket holds between none and the burst size, and
  was seen in the past.\<close>

definition rl_ok :: "time \<Rightarrow> rateLimiter \<Rightarrow> bool" where
  "rl_ok now rl = (1 \<le> rl_burst rl \<and> 0 \<le> rl_rps rl \<and> (\<exists>n :: int. rl_burst rl = of_int n \<and> n \<le> 2 ^ 53)
     \<and> (\<forall>k b. rl_buckets rl k = Some b \<longrightarrow> 0 \<le> bk_tokens b \<and> bk_tokens b \<le> rl_burst rl \<and> bk_lastSeen b \<le> now))"

lemma allow_fields [simp]:
  "rl_rps (snd (allow rnd now key rl)) = rl_rps rl" "rl_burst (snd (allow rnd now key rl)) = rl_burst rl"
  by (simp_all add: allow_def Let_def split: option.splits)

lemma cleanup_fields [simp]: "rl_rps (cleanup now rl) = rl_rps rl" "rl_burst (cleanup now rl) = rl_burst rl"
  by (simp_all add: cleanup_def Let_def)

lemma allow_other: "k \<noteq> key \<Longrightarrow> rl_buckets (snd (allow rnd now key rl)) k = rl_buckets rl k"
  by (simp add: allow_def Let_def split: option.splits)

lemma allow_some: "\<exists>b. rl_buckets (snd (allow rnd now key rl)) key = Some b"
  by (simp add: allow_def Let_def split: option.splits)

lemma rounding_nonneg: "rounding rnd \<Longrightarrow> 0 \<le> x \<Longrightarrow> 0 \<le> rnd x"
proof -
  assume r: "rounding rnd" "0 \<le> x"
  then have "rnd (of_int 0) = of_int 0" unfolding rounding_def by (elim conjE allE [of _ 0]) simp
  moreover have "rnd 0 \<le> rnd x" using r unfolding rounding_def by (auto intro: monoD)
  ultimately show ?thesis by simp
qed

lemma Seconds_nonneg: "rounding rnd \<Longrightarrow> 0 \<le> d \<Longrightarrow> 0 \<le> Seconds rnd d"
proof -
  assume r: "rounding rnd" and d: "0 \<le> d"
  have "0 \<le> rnd (of_int (sgn d * (\<bar>d\<bar> mod Second)) / 1000000000)"
    using d by (intro rounding_nonneg [OF r]) (simp add: sgn_if)
  moreover have "0 \<le> sgn d * (\<bar>d\<bar> div Second)" using d by (simp add: sgn_if pos_imp_zdiv_nonneg_iff)
  then have "0 \<le> (of_int (sgn d * (\<bar>d\<bar> div Second)) :: real)" by linarith
  ultimately show "0 \<le> Seconds rnd d"
    unfolding Seconds_def Let_def by (intro rounding_nonneg [OF r]) linarith
qed

lemma rl_okD:
  assumes "rl_ok t rl" "t \<le> now" "rl_buckets rl k = Some b"
  shows "0 \<le> bk_tokens b \<and> bk_tokens b \<le> rl_burst rl \<and> bk_lastSeen b \<le> now"
proof -
  from assms(1,3) have "0 \<le> bk_tokens b" "bk_tokens b \<le> rl_burst rl" "bk_lastSeen b \<le> t"
    unfolding rl_ok_def by blast+
  with assms(2) show ?thesis by simp
qed

lemma allow_bucket:
  assumes r: "rounding rnd" and ok: "rl_ok t rl" and t: "t \<le> now"
    and b: "rl_buckets (snd (allow rnd now key rl)) key = Some b"
  shows "0 \<le> bk_tokens b \<and> bk_tokens b \<le> rl_burst rl \<and> bk_lastSeen b \<le> now"
proof -
  obtain n :: int where n: "rl_burst rl = of_int n" "n \<le> 2 ^ 53" "1 \<le> rl_burst rl" using ok by (auto simp: rl_ok_def)
  have top: "rnd (rl_burst rl) = rl_burst rl" using r n by (auto simp: rounding_def)
  have down: "0 \<le> rnd (x - 1) \<and> rnd (x - 1) \<le> rl_burst rl" if "1 \<le> x" "x \<le> rl_burst rl" for x
  proof
    show "0 \<le> rnd (x - 1)" using rounding_nonneg [OF r] that by simp
    have "rnd (x - 1) \<le> rnd (rl_burst rl)" using r that by (auto simp: rounding_def intro: monoD)
    then show "rnd (x - 1) \<le> rl_burst rl" using top by simp
  qed
  show ?thesis
  proof (cases "rl_buckets rl key")
    case None
    with b down [of "rl_burst rl"] n show ?thesis by (auto simp: allow_def)
  next
    case (Some c)
    with rl_okD [OF ok t] ok have c: "0 \<le> bk_tokens c" "bk_lastSeen c \<le> now" "0 \<le> rl_rps rl"
      by (simp_all add: rl_ok_def)
    then have "0 \<le> time_Sub now (bk_lastSeen c)" by (simp add: time_Sub_def)
    then have "0 \<le> rnd (bk_tokens c + rnd (Seconds rnd (time_Sub now (bk_lastSeen c)) * rl_rps rl))"
      using c by (intro rounding_nonneg [OF r] add_nonneg_nonneg mult_nonneg_nonneg Seconds_nonneg [OF r])
    with Some b down n show ?thesis by (auto simp: allow_def Let_def split: if_splits)
  qed
qed

lemma rl_ok_step:
  assumes r: "rounding rnd" and ok: "rl_ok t rl" and t: "t \<le> rl_time e"
  shows "rl_ok (rl_time e) (rl_step rnd e rl)"
proof (cases e)
  case (Request now key)
  have "0 \<le> bk_tokens b \<and> bk_tokens b \<le> rl_burst rl \<and> bk_lastSeen b \<le> now"
    if "rl_buckets (snd (allow rnd now key rl)) k = Some b" for k b
    using that allow_bucket [OF r ok, of now key b] allow_other [of k key] rl_okD [OF ok, of now k b] t Request
    by (cases "k = key") simp_all
  with ok Request show ?thesis by (simp add: rl_ok_def)
next
  case (Tick now)
  have "0 \<le> bk_tokens b \<and> bk_tokens b \<le> rl_burst rl \<and> bk_lastSeen b \<le> now"
    if "rl_buckets (cleanup now rl) k = Some b" for k b
    using that rl_okD [OF ok, of now k b] t Tick by (simp add: cleanup_def Let_def split: option.splits if_splits)
  with ok Tick show ?thesis by (simp add: rl_ok_def)
qed

lemma rl_ok_new: "0 \<le> rps \<Longrightarrow> rps \<le> 2 ^ 53 \<Longrightarrow> burst \<le> 2 ^ 53 \<Longrightarrow> rl_ok t (newRateLimiter rps burst)"
  by (auto simp: rl_ok_def newRateLimiter_def Let_def floor_le_iff intro!: exI)

section \<open>The tokens available at a time\<close>

text \<open>The accuracy of the machine: a result exceeds the exact one by at most the relative error \<open>u\<close> and the
  absolute error \<open>\<eta>\<close> of an underflow.  For \<^verbatim>\<open>float64\<close> these are \<open>2 powr -53\<close> and \<open>2 powr -1075\<close>; exact arithmetic
  has zero for both.\<close>

definition accurate :: "real \<Rightarrow> real \<Rightarrow> (real \<Rightarrow> real) \<Rightarrow> bool" where
  "accurate u \<eta> rnd = (0 \<le> u \<and> u \<le> 1 \<and> 0 \<le> \<eta> \<and> (\<forall>x \<ge> 0. rnd x \<le> (1 + u) * x + \<eta>))"

text \<open>What the errors of one call of \<^verbatim>\<open>allow\<close> can add to a bucket.\<close>

definition slack :: "real \<Rightarrow> real \<Rightarrow> rateLimiter \<Rightarrow> real" where
  "slack u \<eta> rl = 2 * u * rl_burst rl + (12 * rl_rps rl + 4) * \<eta>"

text \<open>The full burst without a bucket, otherwise what the bucket holds after refilling, where the refill
  may be too large by the factor \<open>\<kappa>\<close>.\<close>

definition available :: "real \<Rightarrow> time \<Rightarrow> string \<Rightarrow> rateLimiter \<Rightarrow> real" where
  "available \<kappa> t key rl = (case rl_buckets rl key of None \<Rightarrow> rl_burst rl
     | Some b \<Rightarrow> min (rl_burst rl) (bk_tokens b + \<kappa> * (of_int (time_Sub t (bk_lastSeen b)) / 1000000000 * rl_rps rl)))"


lemma accurateD: "accurate u \<eta> rnd \<Longrightarrow> 0 \<le> x \<Longrightarrow> rnd x \<le> (1 + u) * x + \<eta>"
  by (simp add: accurate_def)

text \<open>Rounding in three places: the elapsed seconds, the refill, and the new balance.\<close>

lemma Seconds_le:
  assumes acc: "accurate u \<eta> rnd" and r: "rounding rnd" and d: "0 \<le> d"
  shows "Seconds rnd d \<le> (1 + u)\<^sup>2 * (of_int d / 1000000000) + 3 * \<eta>"
proof -
  define s f :: real where sf: "s = of_int (d div Second)" "f = of_int (d mod Second) / 1000000000"
  have u: "0 \<le> u" "u \<le> 1" "0 \<le> \<eta>" using acc by (simp_all add: accurate_def)
  have "(of_int d :: real) = of_int (d div Second * Second + d mod Second)" by simp
  also have "\<dots> = of_int (d div Second) * 1000000000 + of_int (d mod Second)" by (simp only: of_int_add of_int_mult of_int_numeral)
  finally have e: "of_int d / 1000000000 = s + f" by (simp add: sf field_simps)
  have s: "0 \<le> s" using d by (simp add: sf pos_imp_zdiv_nonneg_iff)
  have f: "0 \<le> f" by (simp add: sf)
  have in1: "rnd f \<le> (1 + u) * f + \<eta>" "0 \<le> rnd f" using accurateD [OF acc f] rounding_nonneg [OF r f] by simp_all
  have "Seconds rnd d = rnd (s + rnd f)" using d by (auto simp: Seconds_def Let_def sgn_if sf)
  also have "\<dots> \<le> (1 + u) * (s + rnd f) + \<eta>" using accurateD [OF acc] s in1(2) by simp
  also have "\<dots> \<le> (1 + u) * ((1 + u) * s + ((1 + u) * f + \<eta>)) + \<eta>"
    using in1(1) u s by (intro add_right_mono mult_left_mono add_mono) (simp_all add: mult_le_cancel_right1)
  also have "\<dots> = (1 + u)\<^sup>2 * (s + f) + (2 + u) * \<eta>" by (simp add: power2_eq_square algebra_simps)
  also have "\<dots> \<le> (1 + u)\<^sup>2 * (s + f) + 3 * \<eta>" using u by (simp add: mult_right_mono)
  finally show ?thesis by (simp add: e)
qed

lemma refill_le:
  assumes acc: "accurate u \<eta> rnd" and r: "rounding rnd" and d: "0 \<le> d" and p: "0 \<le> p"
  shows "rnd (Seconds rnd d * p) \<le> (1 + u) ^ 3 * (of_int d / 1000000000 * p) + 6 * p * \<eta> + \<eta>"
proof -
  define e :: real where "e = of_int d / 1000000000"
  have u: "0 \<le> u" "u \<le> 1" "0 \<le> \<eta>" using acc by (simp_all add: accurate_def)
  have "rnd (Seconds rnd d * p) \<le> (1 + u) * (Seconds rnd d * p) + \<eta>"
    using accurateD [OF acc] Seconds_nonneg [OF r d] p by simp
  also have "\<dots> \<le> (1 + u) * (((1 + u)\<^sup>2 * e + 3 * \<eta>) * p) + \<eta>"
    using Seconds_le [OF acc r d] u p by (intro add_right_mono mult_left_mono mult_right_mono) (simp_all add: e_def)
  also have "\<dots> = (1 + u) ^ 3 * (e * p) + (1 + u) * (3 * p * \<eta>) + \<eta>"
    by (simp add: power3_eq_cube power2_eq_square algebra_simps)
  also have "\<dots> \<le> (1 + u) ^ 3 * (e * p) + 2 * (3 * p * \<eta>) + \<eta>"
    using u p by (intro add_right_mono add_left_mono mult_right_mono) simp_all
  finally show ?thesis by (simp add: e_def)
qed

lemma balance_le:
  assumes acc: "accurate u \<eta> rnd" and r: "rounding rnd" and d: "0 \<le> d" and p: "0 \<le> p" and b: "0 \<le> b" "b \<le> B"
  shows "rnd (b + rnd (Seconds rnd d * p)) \<le> b + (1 + u) ^ 4 * (of_int d / 1000000000 * p) + u * B + (12 * p + 3) * \<eta>"
proof -
  define e :: real where "e = of_int d / 1000000000 * p"
  have u: "0 \<le> u" "u \<le> 1" "0 \<le> \<eta>" using acc by (simp_all add: accurate_def)
  have "0 \<le> rnd (Seconds rnd d * p)" using Seconds_nonneg [OF r d] p by (intro rounding_nonneg [OF r]) simp
  then have "rnd (b + rnd (Seconds rnd d * p)) \<le> (1 + u) * (b + rnd (Seconds rnd d * p)) + \<eta>"
    using accurateD [OF acc] b by simp
  also have "\<dots> \<le> (1 + u) * (b + ((1 + u) ^ 3 * e + 6 * p * \<eta> + \<eta>)) + \<eta>"
    using refill_le [OF acc r d p] u by (intro add_right_mono mult_left_mono add_left_mono) (simp_all add: e_def)
  also have "\<dots> = b + u * b + (1 + u) ^ 4 * e + (1 + u) * ((6 * p + 1) * \<eta>) + \<eta>"
    by (simp add: power4_eq_xxxx power3_eq_cube algebra_simps)
  also have "\<dots> \<le> b + u * B + (1 + u) ^ 4 * e + 2 * ((6 * p + 1) * \<eta>) + \<eta>"
    using u p b by (intro add_right_mono add_mono mult_right_mono mult_left_mono order_refl) simp_all
  finally show ?thesis by (simp add: e_def algebra_simps)
qed

lemma available_range:
  assumes "rl_ok t rl" "0 \<le> \<kappa>"
  shows "0 \<le> available \<kappa> t key rl \<and> available \<kappa> t key rl \<le> rl_burst rl"
proof (cases "rl_buckets rl key")
  case None
  with assms show ?thesis by (auto simp: available_def rl_ok_def)
next
  case (Some b)
  with rl_okD [OF assms(1) order_refl] assms have "0 \<le> bk_tokens b" "bk_lastSeen b \<le> t" "0 \<le> rl_rps rl" "0 \<le> rl_burst rl"
    by (auto simp: rl_ok_def)
  then have "0 \<le> bk_tokens b + \<kappa> * (of_int (time_Sub t (bk_lastSeen b)) / 1000000000 * rl_rps rl)"
    using assms(2) by (simp add: time_Sub_def)
  with Some \<open>0 \<le> rl_burst rl\<close> show ?thesis by (simp add: available_def)
qed

lemma available_grows:
  assumes "rl_ok t rl" "t \<le> v" "0 \<le> \<kappa>"
  shows "available \<kappa> v key rl \<le> available \<kappa> t key rl + \<kappa> * (of_int (v - t) / 1000000000 * rl_rps rl)"
proof -
  have rps: "0 \<le> rl_rps rl" using assms(1) by (simp add: rl_ok_def)
  have refill: "0 \<le> \<kappa> * (of_int (v - t) / 1000000000 * rl_rps rl)" using assms(2,3) rps by simp
  show ?thesis
  proof (cases "rl_buckets rl key")
    case None
    with refill show ?thesis by (simp add: available_def)
  next
    case (Some b)
    let ?e = "\<lambda>t. of_int (time_Sub t (bk_lastSeen b)) / 1000000000 * rl_rps rl"
    have "time_Sub v (bk_lastSeen b) \<le> time_Sub t (bk_lastSeen b) + (v - t)"
      using assms(2) rl_okD [OF assms(1) order_refl Some] by (auto simp: time_Sub_def)
    then have "of_int (time_Sub v (bk_lastSeen b)) / 1000000000
        \<le> (of_int (time_Sub t (bk_lastSeen b)) / 1000000000 + of_int (v - t) / 1000000000 :: real)"
      by (simp add: add_divide_distrib [symmetric] divide_right_mono)
    from mult_right_mono [OF this rps] have "?e v \<le> ?e t + of_int (v - t) / 1000000000 * rl_rps rl"
      by (simp only: distrib_right)
    from mult_left_mono [OF this assms(3)] have "\<kappa> * ?e v \<le> \<kappa> * ?e t + \<kappa> * (of_int (v - t) / 1000000000 * rl_rps rl)"
      by (simp only: distrib_left)
    with refill Some show ?thesis by (simp add: available_def)
  qed
qed

text \<open>An admitted request takes one token, a refused one none, up to the errors of the call.\<close>

lemma available_allow:
  assumes acc: "accurate u \<eta> rnd" and r: "rounding rnd" and ok: "rl_ok t rl" and t: "t \<le> now"
  shows "available ((1 + u) ^ 4) now key (snd (allow rnd now key rl)) \<le>
    available ((1 + u) ^ 4) now key rl - (if fst (allow rnd now key rl) then 1 else 0) + slack u \<eta> rl"
proof -
  have u: "0 \<le> u" "u \<le> 1" "0 \<le> \<eta>" using acc by (simp_all add: accurate_def)
  have rl: "1 \<le> rl_burst rl" "0 \<le> rl_rps rl" using ok by (simp_all add: rl_ok_def)
  have z: "time_Sub now now = 0" by (simp add: time_Sub_def)
  have take1: "rnd (x - 1) \<le> x - 1 + u * rl_burst rl + \<eta>" if "1 \<le> x" "x \<le> rl_burst rl" for x
  proof -
    have "u * (x - 1) \<le> u * rl_burst rl" using u that by (intro mult_left_mono) simp_all
    with accurateD [OF acc, of "x - 1"] that show ?thesis by (simp add: algebra_simps)
  qed
  have small: "u * rl_burst rl + \<eta> \<le> slack u \<eta> rl" "u * rl_burst rl + (12 * rl_rps rl + 3) * \<eta> + (u * rl_burst rl + \<eta>) = slack u \<eta> rl"
    "0 \<le> u * rl_burst rl + \<eta>"
    using u rl by (simp_all add: slack_def algebra_simps)
  show ?thesis
  proof (cases "rl_buckets rl key")
    case None
    then show ?thesis using take1 [of "rl_burst rl"] rl small by (simp add: allow_def available_def z)
  next
    case (Some b)
    with rl_okD [OF ok t] have b: "0 \<le> bk_tokens b" "bk_tokens b \<le> rl_burst rl" "bk_lastSeen b \<le> now" by simp_all
    then have d: "0 \<le> time_Sub now (bk_lastSeen b)" by (simp add: time_Sub_def)
    define t0 where "t0 = rnd (bk_tokens b + rnd (Seconds rnd (time_Sub now (bk_lastSeen b)) * rl_rps rl))"
    define t1 where "t1 = (if rl_burst rl < t0 then rl_burst rl else t0)"
    define A where "A = available ((1 + u) ^ 4) now key rl"
    have "t0 \<le> bk_tokens b + (1 + u) ^ 4 * (of_int (time_Sub now (bk_lastSeen b)) / 1000000000 * rl_rps rl)
        + (u * rl_burst rl + (12 * rl_rps rl + 3) * \<eta>)"
      using balance_le [OF acc r d rl(2) b(1,2)] by (simp add: t0_def algebra_simps)
    then have t1: "t1 \<le> A + (u * rl_burst rl + (12 * rl_rps rl + 3) * \<eta>)" "t1 \<le> rl_burst rl"
      using Some small u rl by (auto simp: t1_def A_def available_def min_def)
    have "allow rnd now key rl = (if t1 < 1
        then (False, rl\<lparr>rl_buckets := (rl_buckets rl)(key \<mapsto> \<lparr>bk_tokens = t1, bk_lastSeen = now\<rparr>)\<rparr>)
        else (True, rl\<lparr>rl_buckets := (rl_buckets rl)(key \<mapsto> \<lparr>bk_tokens = rnd (t1 - 1), bk_lastSeen = now\<rparr>)\<rparr>))"
      using Some by (simp add: allow_def Let_def t0_def t1_def)
    then show ?thesis
      unfolding A_def [symmetric] using take1 [of t1] t1 small by (cases "t1 < 1") (simp_all add: available_def z)
  qed
qed

lemma available_allow_other: "k \<noteq> key \<Longrightarrow> available \<kappa> t key (snd (allow rnd now k rl)) = available \<kappa> t key rl"
  using allow_other [of key k] by (simp add: available_def split: option.split)

text \<open>Deleting an idle bucket gives nothing away when the bucket would be full by then.\<close>

lemma available_cleanup:
  assumes ok: "rl_ok t rl" and t: "t \<le> now" and full: "rl_burst rl \<le> 300 * rl_rps rl" and \<kappa>: "1 \<le> \<kappa>"
  shows "available \<kappa> now key (cleanup now rl) = available \<kappa> now key rl"
proof (cases "rl_buckets rl key")
  case None
  then show ?thesis by (simp add: available_def cleanup_def Let_def)
next
  case (Some b)
  have "rl_burst rl \<le> bk_tokens b + \<kappa> * (of_int (time_Sub now (bk_lastSeen b)) / 1000000000 * rl_rps rl)"
    if "bk_lastSeen b < now - 5 * Minute"
  proof -
    have "300 * Second \<le> time_Sub now (bk_lastSeen b)" using that by (simp add: time_Sub_def)
    then have "300 \<le> (of_int (time_Sub now (bk_lastSeen b)) / 1000000000 :: real)" by linarith
    then have "300 * rl_rps rl \<le> of_int (time_Sub now (bk_lastSeen b)) / 1000000000 * rl_rps rl"
      using ok by (intro mult_right_mono) (simp_all add: rl_ok_def)
    moreover from this have "of_int (time_Sub now (bk_lastSeen b)) / 1000000000 * rl_rps rl
        \<le> \<kappa> * (of_int (time_Sub now (bk_lastSeen b)) / 1000000000 * rl_rps rl)"
      using \<kappa> ok mult_right_mono [of 1 \<kappa> "of_int (time_Sub now (bk_lastSeen b)) / 1000000000 * rl_rps rl"]
      by (simp add: rl_ok_def)
    ultimately show ?thesis using full rl_okD [OF ok t Some] by linarith
  qed
  with Some show ?thesis by (auto simp: available_def cleanup_def Let_def min_def)
qed

lemma step_fields [simp]: "rl_rps (rl_step rnd e rl) = rl_rps rl" "rl_burst (rl_step rnd e rl) = rl_burst rl"
  by (cases e; simp)+

lemma slack_step [simp]: "slack u \<eta> (rl_step rnd e rl) = slack u \<eta> rl"
  by (simp add: slack_def)

text \<open>The requests of a client.\<close>

fun requests :: "string \<Rightarrow> rl_event list \<Rightarrow> nat" where
  "requests key [] = 0"
| "requests key (Request t k # es) = (if k = key then 1 else 0) + requests key es"
| "requests key (Tick t # es) = requests key es"

lemma admitted_bound:
  assumes acc: "accurate u \<eta> rnd" and r: "rounding rnd"
    and "sorted (map rl_time es)" "\<forall>e \<in> set es. t \<le> rl_time e \<and> rl_time e \<le> t1" "t \<le> t1" "rl_ok t rl"
    and "rl_burst rl \<le> 300 * rl_rps rl"
  shows "of_nat (admitted rnd key es rl) \<le> available ((1 + u) ^ 4) t key rl
    + (1 + u) ^ 4 * (of_int (t1 - t) / 1000000000 * rl_rps rl) + of_nat (requests key es) * slack u \<eta> rl"
  using assms(3-)
proof (induction es arbitrary: t rl)
  case Nil
  have "0 \<le> (1 + u) ^ 4" using acc by (simp add: accurate_def)
  then have "0 \<le> available ((1 + u) ^ 4) t key rl" "0 \<le> (1 + u) ^ 4 * (of_int (t1 - t) / 1000000000 * rl_rps rl)"
    using available_range [of t rl "(1 + u) ^ 4"] Nil by (auto simp: rl_ok_def)
  then show ?case by simp
next
  case (Cons e es)
  let ?u = "rl_time e" and ?rl = "rl_step rnd e rl" and ?k = "(1 + u) ^ 4"
  define n :: nat where "n = (case e of Request t k \<Rightarrow> if k = key \<and> fst (allow rnd t k rl) then 1 else 0 | Tick t \<Rightarrow> 0)"
  define m :: nat where "m = (case e of Request t k \<Rightarrow> if k = key then 1 else 0 | Tick t \<Rightarrow> 0)"
  have k1: "1 \<le> ?k" using acc by (simp add: accurate_def)
  have u: "t \<le> ?u" "?u \<le> t1" using Cons.prems(2) by auto
  have "available ?k ?u key ?rl \<le> available ?k ?u key rl - of_nat n + of_nat m * slack u \<eta> rl"
  proof (cases e)
    case (Request now k)
    show ?thesis
    proof (cases "k = key")
      case True
      with available_allow [OF acc r Cons.prems(4), of now key] u(1) Request show ?thesis by (simp add: n_def m_def split: if_splits)
    next
      case False
      with available_allow_other Request show ?thesis by (simp add: n_def m_def)
    qed
  next
    case (Tick now)
    with available_cleanup [OF Cons.prems(4) _ Cons.prems(5) k1] u(1) show ?thesis by (simp add: n_def m_def)
  qed
  moreover have "of_nat (admitted rnd key es ?rl) \<le> available ?k ?u key ?rl
      + ?k * (of_int (t1 - ?u) / 1000000000 * rl_rps rl) + of_nat (requests key es) * slack u \<eta> rl"
    using Cons.IH [of ?u ?rl] Cons.prems u rl_ok_step [OF r Cons.prems(4) u(1)] by simp
  moreover have "available ?k ?u key rl \<le> available ?k t key rl + ?k * (of_int (?u - t) / 1000000000 * rl_rps rl)"
    using available_grows [OF Cons.prems(4) u(1)] k1 by simp
  moreover have "?k * (of_int (t1 - ?u) / 1000000000 * rl_rps rl) + ?k * (of_int (?u - t) / 1000000000 * rl_rps rl)
      = ?k * (of_int (t1 - t) / 1000000000 * rl_rps rl)"
    by (simp add: field_simps)
  moreover have "real (admitted rnd key (e # es) rl) = of_nat n + of_nat (admitted rnd key es ?rl)" by (simp add: n_def)
  moreover have "of_nat (requests key (e # es)) * slack u \<eta> rl = of_nat m * slack u \<eta> rl + of_nat (requests key es) * slack u \<eta> rl"
    by (cases e) (simp_all add: m_def algebra_simps)
  ultimately show ?case unfolding of_nat_add by linarith
qed

text \<open>The bounds hold after every sequence of events along an advancing clock.\<close>

lemma rl_ok_later: "rl_ok t rl \<Longrightarrow> t \<le> u \<Longrightarrow> rl_ok u rl"
  unfolding rl_ok_def by (meson order_trans)

lemma rl_ok_run:
  assumes "rounding rnd" "rl_ok t rl" "\<forall>e \<in> set es. t \<le> rl_time e \<and> rl_time e \<le> u" "t \<le> u" "sorted (map rl_time es)"
  shows "rl_ok u (fold (rl_step rnd) es rl)"
  using assms
proof (induction es arbitrary: t rl)
  case Nil
  then show ?case using rl_ok_later by simp
next
  case (Cons e es)
  then have "rl_ok (rl_time e) (rl_step rnd e rl)" using rl_ok_step by simp
  with Cons show ?case by simp
qed

lemma run_fields: "rl_rps (fold (rl_step rnd) es rl) = rl_rps rl" "rl_burst (fold (rl_step rnd) es rl) = rl_burst rl"
  by (induction es arbitrary: rl) auto

lemma time_bounds: obtains t u where "t \<le> u" "\<forall>e \<in> set es. t \<le> rl_time e \<and> rl_time e \<le> u"
proof
  let ?T = "insert 0 (rl_time ` set es)"
  show "Min ?T \<le> Max ?T" by (rule order_trans [of _ 0]) simp_all
  show "\<forall>e \<in> set es. Min ?T \<le> rl_time e \<and> rl_time e \<le> Max ?T" by simp
qed





section \<open>Properties\<close>

text \<open>Buckets stay within bounds, for every monotone rounding that is exact on small integers.
  After any sequence of requests and clean-ups along an advancing clock each bucket holds at
  least zero and at most the burst size, so no client can save up more than one burst.\<close>

lemma bucket_bounds:
  assumes "rounding rnd" "0 \<le> rps" "rps \<le> 2 ^ 53" "burst \<le> 2 ^ 53" "sorted (map rl_time es)"
    and "rl = fold (rl_step rnd) es (newRateLimiter rps burst)" "rl_buckets rl key = Some b"
  shows "0 \<le> bk_tokens b \<and> bk_tokens b \<le> rl_burst (newRateLimiter rps burst)"
proof -
  obtain t u where tu: "t \<le> u" "\<forall>e \<in> set es. t \<le> rl_time e \<and> rl_time e \<le> u" by (rule time_bounds)
  then have "rl_ok u rl" using rl_ok_run [OF assms(1) rl_ok_new] assms(2-6) by blast
  from rl_okD [OF this order_refl assms(7)] show ?thesis using assms(6) by (simp add: run_fields)
qed

text \<open>C32: the rate is enforced, also by a machine that rounds.  Let the burst be at most five minutes' worth of
  tokens, and let the rounding be monotone, exact on the integers up to \<open>2 ^ 53\<close> and accurate up to a
  relative error \<open>u\<close> and an absolute error \<open>\<eta>\<close>.  After any history and in every window of time a client gets at
  most one burst plus the refill of the window, increased by the factor \<open>(1 + u) ^ 4\<close> and by the
  errors of its own requests in the window, whatever other clients do and whenever idle buckets are
  deleted.  With exact arithmetic this is one burst plus the refill.\<close>

theorem throughput_bound:
  assumes "rounding rnd" "accurate u \<eta> rnd"
    and "0 \<le> rps" "rps \<le> 2 ^ 53" "burst \<le> 2 ^ 53" "rl_burst (newRateLimiter rps burst) \<le> 300 * rps"
    and "sorted (map rl_time (pre @ es))" "\<forall>e \<in> set pre. rl_time e \<le> t0"
    and "\<forall>e \<in> set es. t0 \<le> rl_time e \<and> rl_time e \<le> t1" "t0 \<le> t1"
  shows "of_nat (admitted rnd key es (fold (rl_step rnd) pre (newRateLimiter rps burst)))
    \<le> rl_burst (newRateLimiter rps burst) + (1 + u) ^ 4 * (of_int (t1 - t0) / 1000000000 * rps)
      + of_nat (requests key es) * (2 * u * rl_burst (newRateLimiter rps burst) + (12 * rps + 4) * \<eta>)"
proof -
  let ?rl = "fold (rl_step rnd) pre (newRateLimiter rps burst)"
  obtain t v where tv: "t \<le> v" "\<forall>e \<in> set pre. t \<le> rl_time e \<and> rl_time e \<le> v" by (rule time_bounds)
  have "\<forall>e \<in> set pre. min t t0 \<le> rl_time e \<and> rl_time e \<le> t0" using tv assms(8) by auto
  then have ok: "rl_ok t0 ?rl"
    using rl_ok_run [OF assms(1) rl_ok_new [OF assms(3-5), of "min t t0"]] assms(7) by (simp add: sorted_append)
  have new: "rl_rps (newRateLimiter rps burst) = rps" by (simp add: newRateLimiter_def Let_def)
  have k: "0 \<le> (1 + u) ^ 4" using assms(2) by (simp add: accurate_def)
  have "of_nat (admitted rnd key es ?rl) \<le> available ((1 + u) ^ 4) t0 key ?rl
      + (1 + u) ^ 4 * (of_int (t1 - t0) / 1000000000 * rl_rps ?rl) + of_nat (requests key es) * slack u \<eta> ?rl"
    using assms(6,7,9,10) ok new by (intro admitted_bound [OF assms(2,1)]) (simp_all add: run_fields sorted_append)
  moreover have "available ((1 + u) ^ 4) t0 key ?rl \<le> rl_burst (newRateLimiter rps burst)"
    using available_range [OF ok k, of key] by (simp add: run_fields)
  ultimately show ?thesis by (simp add: run_fields new slack_def)
qed

text \<open>A machine that rounds up to multiples of 1/1024.\<close>

definition coarse :: "real \<Rightarrow> real" where
  "coarse x = of_int \<lceil>1024 * x\<rceil> / 1024"

lemma coarse_rounding: "rounding coarse" "accurate 0 (1 / 1024) coarse"
proof -
  have int: "coarse (of_int i) = of_int i" for i
  proof -
    have "(1024 * of_int i :: real) = of_int (1024 * i)" by simp
    then have "\<lceil>1024 * of_int i :: real\<rceil> = 1024 * i" by (metis ceiling_of_int)
    then show ?thesis by (simp add: coarse_def)
  qed
  have "mono coarse" by (auto simp: mono_def coarse_def divide_right_mono ceiling_mono)
  with int show "rounding coarse" by (simp add: rounding_def)
  have "coarse x \<le> x + 1 / 1024" for x
    using ceiling_correct [of "1024 * x"] by (simp add: coarse_def field_simps)
  then show "accurate 0 (1 / 1024) coarse" by (simp add: accurate_def)
qed

theorem throughput_bound_witness:
  "of_nat (admitted coarse ''a'' [Request 0 ''a'', Request 0 ''a'', Request 0 ''b'', Request 0 ''a'', Tick Second]
      (newRateLimiter 2 0)) \<le> (4 + 84 / 1024 :: real)"
  using throughput_bound [OF coarse_rounding, of 2 0 "[]"
      "[Request 0 ''a'', Request 0 ''a'', Request 0 ''b'', Request 0 ''a'', Tick Second]" 0 Second "''a''"]
  by (simp add: newRateLimiter_def del: admitted.simps)



text \<open>The answer to a refused request says \<^verbatim>\<open>Retry-After: 1\<close>, whatever the rate.  Below one request per
  second, a client that waits that long is refused again.\<close>

lemma retry_after_too_early:
  "map (\<lambda>t. fst (allow (\<lambda>x. x) t ''a'' (fold (rl_step (\<lambda>x. x)) [Request 0 ''a''] (newRateLimiter (1 / 2) 1)))) [0, Second, 2 * Second]
     = [False, False, True]"
  by (simp add: allow_def newRateLimiter_def Seconds_def time_Sub_def sgn_if Let_def)

end
