(* ===== verification/Audit_Log.thy ===== *)
theory Audit_Log
  imports Http
begin

text \<open>
  Security audit events (\<^verbatim>\<open>pkg/telemetry/audit.go\<close>): the event, the logger that fans an event
  out to its sinks, and the events of a policy decision and of a step-up challenge.  A sink is
  its write outcome for an event and the events it has taken; the trace id of a context is an
  argument.
\<close>

definition AuditTokenRejected :: string where "AuditTokenRejected = ''iam.token.rejected''"
definition AuditStepUpIssued :: string where "AuditStepUpIssued = ''iam.stepup.challenge_issued''"
definition AuditPolicyDenied :: string where "AuditPolicyDenied = ''iam.policy.denied''"
definition AuditPolicyAllowed :: string where "AuditPolicyAllowed = ''iam.policy.allowed''"

record AuditEvent =
  ae_EventID :: string
  ae_Type :: string
  ae_Timestamp :: time
  ae_TraceID :: string
  ae_TenantID :: string
  ae_ClientIP :: string
  ae_Resource :: string
  ae_Method :: string
  ae_Subject :: string
  ae_ACR :: string
  ae_AMR :: "string list"
  ae_SessionID :: string
  ae_PolicyName :: string
  ae_RequiredACR :: string
  ae_Reason :: string
  ae_Allowed :: bool

definition empty_audit :: AuditEvent where
  "empty_audit = \<lparr>ae_EventID = [], ae_Type = [], ae_Timestamp = zero_time, ae_TraceID = [], ae_TenantID = [],
     ae_ClientIP = [], ae_Resource = [], ae_Method = [], ae_Subject = [], ae_ACR = [], ae_AMR = [],
     ae_SessionID = [], ae_PolicyName = [], ae_RequiredACR = [], ae_Reason = [], ae_Allowed = False\<rparr>"

record AuditSink =
  as_error :: "AuditEvent \<Rightarrow> error option"
  as_events :: "AuditEvent list"

type_synonym AuditLogger = "AuditSink list"

definition sink_Write :: "AuditEvent \<Rightarrow> AuditSink \<Rightarrow> error option \<times> AuditSink" where
  "sink_Write event s = (case as_error s event of
       Some e \<Rightarrow> (Some e, s) | None \<Rightarrow> (None, s\<lparr>as_events := as_events s @ [event]\<rparr>))"

definition AddSink :: "AuditSink \<Rightarrow> AuditLogger \<Rightarrow> AuditLogger" where
  "AddSink sink a = a @ [sink]"

text \<open>The event as it is delivered, and delivery to every sink; an error of one is only logged.\<close>

definition stamped :: "time \<Rightarrow> string \<Rightarrow> AuditEvent \<Rightarrow> AuditEvent" where
  "stamped now trace event =
     (let e1 = (if IsZero (ae_Timestamp event) then event\<lparr>ae_Timestamp := now\<rparr> else event)
      in if ae_TraceID e1 = [] then e1\<lparr>ae_TraceID := trace\<rparr> else e1)"

definition Emit :: "time \<Rightarrow> string \<Rightarrow> AuditEvent \<Rightarrow> AuditLogger \<Rightarrow> AuditLogger" where
  "Emit now trace event a = map (\<lambda>s. snd (sink_Write (stamped now trace event) s)) a"

definition newEventID :: "time \<Rightarrow> string" where
  "newEventID now = show_int now"

definition EmitStepUpChallenge ::
  "time \<Rightarrow> string \<Rightarrow> string \<Rightarrow> string \<Rightarrow> string \<Rightarrow> string \<Rightarrow> string \<Rightarrow> AuditLogger \<Rightarrow> AuditLogger" where
  "EmitStepUpChallenge now trace sub tenantID resource method requiredACR =
     Emit now trace (empty_audit\<lparr>ae_EventID := newEventID now, ae_Type := AuditStepUpIssued, ae_TenantID := tenantID,
       ae_Subject := sub, ae_Resource := resource, ae_Method := method, ae_RequiredACR := requiredACR, ae_Allowed := False\<rparr>)"

definition policy_event ::
  "time \<Rightarrow> string \<Rightarrow> string \<Rightarrow> string \<Rightarrow> string \<Rightarrow> string \<Rightarrow> string \<Rightarrow> bool \<Rightarrow> AuditEvent" where
  "policy_event now sub tenantID resource method policyName reason allowed =
     empty_audit\<lparr>ae_EventID := newEventID now, ae_Type := (if allowed then AuditPolicyAllowed else AuditPolicyDenied),
       ae_TenantID := tenantID, ae_Subject := sub, ae_Resource := resource, ae_Method := method,
       ae_PolicyName := policyName, ae_Reason := reason, ae_Allowed := allowed\<rparr>"

definition EmitPolicyDecision ::
  "time \<Rightarrow> string \<Rightarrow> string \<Rightarrow> string \<Rightarrow> string \<Rightarrow> string \<Rightarrow> string \<Rightarrow> string \<Rightarrow> bool \<Rightarrow> AuditLogger \<Rightarrow> AuditLogger" where
  "EmitPolicyDecision now trace sub tenantID resource method policyName reason allowed =
     Emit now trace (policy_event now sub tenantID resource method policyName reason allowed)"

section \<open>Properties\<close>

text \<open>A failing sink costs only its own copy.  Emitting an event appends it to the events of
  every sink that takes it and changes no other sink, wherever the failing ones stand.\<close>

lemma Emit_isolated:
  assumes "i < length a"
  shows "length (Emit now trace event a) = length a
    \<and> as_events (Emit now trace event a ! i) = as_events (a ! i) @
        (case as_error (a ! i) (stamped now trace event) of None \<Rightarrow> [stamped now trace event] | Some _ \<Rightarrow> [])"
  using assms by (simp add: Emit_def sink_Write_def split: option.splits)

end
