(* ===== verification/Guard.thy ===== *)
theory Guard
  imports Policy Step_Up Revocation Dpop Fapi Tenant Rate_Limit Audit_Log
begin

text \<open>
  The resource server guard (\<^verbatim>\<open>internal/gateway/guard.go\<close>), which composes the other
  components: rate limit, tenant resolution, provider, bearer token, DPoP, cache-first
  introspection, issuer binding, FAPI profile, policy, replay of a saved request after step-up,
  and header hygiene before the request goes upstream.  One request is one call of
  \<open>Guard_ServeHTTP\<close> at one clock reading; its result is an answer or the request that is
  handed to the upstream handler with the response written so far.
\<close>

section \<open>Configuration and state\<close>

text \<open>What the guard's environment provides: JSON text, cryptography, the text of a URL, and the
  rounding of floating point numbers.\<close>

record environment =
  en_codec :: json_codec
  en_crypto :: crypto
  en_urlString :: "http_request \<Rightarrow> string"
  en_rnd :: "real \<Rightarrow> real"

text \<open>What one call draws from its surroundings: the clock, sixteen random bytes, a trace id.\<close>

record call =
  ca_now :: time
  ca_entropy :: string
  ca_trace :: string

record Guard =
  g_registry :: Registry
  g_resolver :: Resolver
  g_policyEngine :: "Engine option"
  g_realm :: string
  g_sm :: StateMachine
  g_cache :: bool
  g_enableDPoP :: bool
  g_dpopCfg :: DPoPConfig
  g_dpopNonce :: "NonceProvider option"
  g_webhookSecret :: string
  g_cookieSecret :: string
  g_fapiCfg :: "ValidationConfig option"

text \<open>The mutable parts; \<open>gs_replay\<close> is the validator's own replay cache, used when the guard has
  no cache.  Counters are the increments with their labels.\<close>

record 's guard_state =
  gs_cache :: 's
  gs_replay :: MemoryCache
  gs_limiter :: "rateLimiter option"
  gs_audit :: "AuditLogger option"
  gs_metrics :: "(string \<times> string list) list option"

record 's GuardConfig =
  gc_Registry :: Registry
  gc_Resolver :: Resolver
  gc_PolicyEngine :: "Engine option"
  gc_Realm :: string
  gc_Audit :: "AuditLogger option"
  gc_Metrics :: "(string \<times> string list) list option"
  gc_Cache :: "'s option"
  gc_EnableDPoP :: bool
  gc_DPoPNonceSecret :: string
  gc_WebhookSecret :: string
  gc_CookieSecret :: string
  gc_FAPI :: "ValidationConfig option"
  gc_RateLimitRPS :: real
  gc_RateLimitBurst :: int

text \<open>\<open>unused\<close> stands for the cache state of a guard without cache.\<close>

definition NewGuard :: "'s \<Rightarrow> 's GuardConfig \<Rightarrow> Guard \<times> 's guard_state" where
  "NewGuard unused cfg =
     (let realm = (if gc_Realm cfg = [] then ''IAM'' else gc_Realm cfg);
          nonce = (if gc_EnableDPoP cfg \<and> gc_DPoPNonceSecret cfg \<noteq> []
                   then Some (NewNonceProvider (gc_DPoPNonceSecret cfg) 0) else None);
          dpopCfg = NewDPoPValidator_cfg (DefaultDPoPConfig\<lparr>dc_Nonce := nonce\<rparr>)
      in (\<lparr>g_registry = gc_Registry cfg, g_resolver = gc_Resolver cfg, g_policyEngine = gc_PolicyEngine cfg,
           g_realm = realm, g_sm = NewStateMachine, g_cache = (gc_Cache cfg \<noteq> None),
           g_enableDPoP = gc_EnableDPoP cfg, g_dpopCfg = dpopCfg, g_dpopNonce = nonce,
           g_webhookSecret = gc_WebhookSecret cfg, g_cookieSecret = gc_CookieSecret cfg, g_fapiCfg = gc_FAPI cfg\<rparr>,
          \<lparr>gs_cache = (case gc_Cache cfg of None \<Rightarrow> unused | Some c \<Rightarrow> c), gs_replay = NewMemoryCache,
           gs_limiter = (if 0 < gc_RateLimitRPS cfg
                         then Some (newRateLimiter (gc_RateLimitRPS cfg) (gc_RateLimitBurst cfg)) else None),
           gs_audit = gc_Audit cfg, gs_metrics = gc_Metrics cfg\<rparr>))"

section \<open>Answers\<close>

datatype outcome = Answered response | Forwarded http_request string response | Panicked

definition emit :: "(AuditLogger \<Rightarrow> AuditLogger) \<Rightarrow> 's guard_state \<Rightarrow> 's guard_state" where
  "emit f st = st\<lparr>gs_audit := map_option f (gs_audit st)\<rparr>"

definition count :: "string \<Rightarrow> string list \<Rightarrow> 's guard_state \<Rightarrow> 's guard_state" where
  "count name labels st = st\<lparr>gs_metrics := map_option (\<lambda>m. m @ [(name, labels)]) (gs_metrics st)\<rparr>"

definition issueChallenge ::
  "Guard \<Rightarrow> call \<Rightarrow> http_request \<Rightarrow> string \<Rightarrow> string \<Rightarrow> string \<Rightarrow> int \<Rightarrow> response \<Rightarrow> 's guard_state
     \<Rightarrow> response \<times> 's guard_state" where
  "issueChallenge g ca r errCode desc acrValues maxAge w st =
     (let ch = \<lparr>ch_ACRValues = acrValues, ch_MaxAge = maxAge, ch_Error = errCode, ch_ErrorDescription = desc,
                ch_Realm = g_realm g\<rparr>;
          st' = emit (Emit (ca_now ca) (ca_trace ca) (empty_audit\<lparr>ae_Type := AuditTokenRejected,
                   ae_Resource := rq_Path r, ae_Method := rq_Method r, ae_Reason := desc\<rparr>)) st
      in (WriteChallenge ch w, st'))"

definition reject ::
  "Guard \<Rightarrow> call \<Rightarrow> http_request \<Rightarrow> string \<Rightarrow> string \<Rightarrow> response \<Rightarrow> 's guard_state \<Rightarrow> outcome \<times> 's guard_state" where
  "reject g ca r errCode desc w st =
     (case issueChallenge g ca r errCode desc [] 0 w st of (w', st') \<Rightarrow> (Answered w', st'))"

definition handleDenial ::
  "environment \<Rightarrow> Guard \<Rightarrow> call \<Rightarrow> http_request \<Rightarrow> string \<Rightarrow> string \<Rightarrow> PolicyResult \<Rightarrow> response \<Rightarrow> 's guard_state
     \<Rightarrow> response \<times> 's guard_state" where
  "handleDenial en g ca r subject tenantID result w st =
     (let policyName = (case res_MatchedPolicy result of None \<Rightarrow> [] | Some p \<Rightarrow> pol_Name p);
          st1 = emit (EmitPolicyDecision (ca_now ca) (ca_trace ca) subject tenantID (rq_Path r) (rq_Method r)
                   policyName (res_Reason result) False) st;
          st2 = count ''StepUpTotal'' [tenantID, res_RequiredACR result, rq_Method r]
                  (count ''PolicyDeniedTotal'' [tenantID, policyName, res_Reason result] st1);
          challenge = NewStepUpChallenge (NewInsufficientACRError (res_RequiredACR result) (res_RequiredMaxAge result))
                        (g_realm g);
          w1 = (case BeginChallenge (g_sm g) (ca_entropy ca) (ca_now ca) (ca_now ca) r challenge of
                  Inl _ \<Rightarrow> w
                | Inr flow \<Rightarrow>
                   (case fs_SavedRequest flow of
                      Some saved \<Rightarrow>
                        if g_cookieSecret g \<noteq> []
                        then snd (SetStateCookie (en_codec en) (cr_HMAC (en_crypto en)) saved (g_cookieSecret g) w)
                        else w
                    | None \<Rightarrow> w))
      in (WriteChallenge challenge w1, st2))"

section \<open>Introspection\<close>

definition guard_introspect ::
  "environment \<Rightarrow> 's cache_ops \<Rightarrow> Guard \<Rightarrow> call \<Rightarrow> Provider \<Rightarrow> string \<Rightarrow> 's guard_state
     \<Rightarrow> CommonClaims result \<times> 's guard_state" where
  "guard_introspect en c g ca provider rawToken st =
     (let key = HashToken (cr_Sum (en_crypto en) SHA256) rawToken in
      case (if g_cache g then co_Get c (ca_now ca) (gs_cache st) key else None) of
        Some cached \<Rightarrow> (Inr cached, st)
      | None \<Rightarrow> (case pv_Introspect provider rawToken of Inl e \<Rightarrow> (Inl e, st)
        | Inr claims \<Rightarrow>
           if g_cache g \<and> cc_Active claims
           then (let ttl = clamp_ttl (ca_now ca) (30 * Second) claims in
                 (Inr claims, if 0 < ttl then st\<lparr>gs_cache := cache_token c (ca_now ca) (gs_cache st) key claims ttl\<rparr> else st))
           else (Inr claims, st)))"

text \<open>DPoP validation runs on the guard's cache, or on the validator's own.\<close>

definition guard_dpop ::
  "environment \<Rightarrow> 's cache_ops \<Rightarrow> Guard \<Rightarrow> call \<Rightarrow> http_request \<Rightarrow> string \<Rightarrow> 's guard_state
     \<Rightarrow> DPoPProof result \<times> 's guard_state" where
  "guard_dpop en c g ca r rawToken st =
     (if g_cache g
      then (case Validate (en_codec en) (en_crypto en) (en_urlString en) c (g_dpopCfg g) (ca_now ca) r rawToken (gs_cache st) of
              (res, s) \<Rightarrow> (res, st\<lparr>gs_cache := s\<rparr>))
      else (case Validate (en_codec en) (en_crypto en) (en_urlString en) memory_ops (g_dpopCfg g) (ca_now ca) r rawToken (gs_replay st) of
              (res, s) \<Rightarrow> (res, st\<lparr>gs_replay := s\<rparr>)))"

section \<open>Policy and replay\<close>

definition policy_request :: "time \<Rightarrow> string \<Rightarrow> string \<Rightarrow> CommonClaims \<Rightarrow> PolicyRequest" where
  "policy_request now method path claims =
     \<lparr>pr_Method = method, pr_Path = path, pr_TokenACR = cc_ACR claims, pr_TokenAMR = cc_AMR claims,
      pr_TokenScopes = cc_Scopes claims, pr_AuthAge = AuthAge now claims,
      pr_AuthorizationDetails = cc_AuthorizationDetails claims\<rparr>"

definition replayed_request :: "http_request \<Rightarrow> SavedRequest \<Rightarrow> http_request" where
  "replayed_request r saved = r\<lparr>rq_Method := sr_Method saved, rq_Path := sr_Path saved, rq_RawQuery := sr_Query saved,
     rq_RequestURI := (if sr_Query saved \<noteq> [] then sr_Path saved @ ''?'' @ sr_Query saved else sr_Path saved)\<rparr>"

text \<open>The end of a step-up flow whose policy check has passed.\<close>

definition finish_flow ::
  "Guard \<Rightarrow> call \<Rightarrow> http_request \<Rightarrow> SavedRequest \<Rightarrow> FlowState \<Rightarrow> response \<Rightarrow> 's guard_state
     \<Rightarrow> (response + http_request) \<times> 's guard_state" where
  "finish_flow g ca r saved flow w st =
     (case Complete (g_sm g) (ca_now ca) (ca_now ca) flow of (err, flow') \<Rightarrow>
        if err \<noteq> None \<or> fs_State flow' \<noteq> StateCompleted
        then (case issueChallenge g ca r ErrCodeInvalidToken ''step-up flow expired'' (sr_ACRHint saved) (sr_MaxAge saved)
                (ClearStateCookie w) st of (w', st') \<Rightarrow> (Inl w', st'))
        else (Inr (replayed_request r saved), st))"

definition completeStepUp ::
  "Guard \<Rightarrow> call \<Rightarrow> http_request \<Rightarrow> SavedRequest \<Rightarrow> CommonClaims \<Rightarrow> string \<Rightarrow> response \<Rightarrow> 's guard_state
     \<Rightarrow> (response + http_request) \<times> 's guard_state" where
  "completeStepUp g ca r saved claims tenantID w st =
     (let flow = \<lparr>fs_State = StateChallenge, fs_Challenge = None, fs_SavedRequest = Some saved,
                  fs_StartedAt = sr_SavedAt saved, fs_CompletedAt = zero_time\<rparr> in
      case g_policyEngine g of None \<Rightarrow> finish_flow g ca r saved flow w st
      | Some eng \<Rightarrow>
         (case Evaluate eng (policy_request (ca_now ca) (sr_Method saved) (sr_Path saved) claims) of
            Inl _ \<Rightarrow> (Inl (http_Error ''policy evaluation error'' 500 w), st)
          | Inr result \<Rightarrow>
             if \<not> res_Allowed result
             then (let st1 = emit (EmitPolicyDecision (ca_now ca) (ca_trace ca) (cc_Subject claims) tenantID (sr_Path saved)
                              (sr_Method saved) [] (res_Reason result) False) st
                   in case issueChallenge g ca r ErrCodeInsufficientUserAuthentication
                        (''step-up incomplete: '' @ res_Reason result) (res_RequiredACR result) (res_RequiredMaxAge result)
                        (ClearStateCookie w) st1 of (w', st') \<Rightarrow> (Inl w', st'))
             else finish_flow g ca r saved flow w st))"

section \<open>Forwarding\<close>

fun delete_iam :: "string list \<Rightarrow> header \<Rightarrow> header" where
  "delete_iam [] h = h"
| "delete_iam (name # names) h =
     delete_iam names (if HasPrefix (ToLower name) ''x-iam-'' then Header_Del h name else h)"

definition sanitizeForwardHeaders :: "header \<Rightarrow> header" where
  "sanitizeForwardHeaders h0 = (let h = Header_Del h0 ''X-Tenant-ID'' in delete_iam (map fst h) h)"

definition identity_headers :: "CommonClaims \<Rightarrow> string \<Rightarrow> header \<Rightarrow> header" where
  "identity_headers claims tenantID h0 =
     (let h1 = Header_Set (sanitizeForwardHeaders h0) ''X-Iam-Subject'' (cc_Subject claims);
          h2 = Header_Set h1 ''X-Iam-Tenant'' tenantID;
          h3 = (if cc_ACR claims \<noteq> [] then Header_Set h2 ''X-Iam-Acr'' (cc_ACR claims) else h2)
      in if cc_Scopes claims \<noteq> [] then Header_Set h3 ''X-Iam-Scopes'' (Join (cc_Scopes claims) '' '') else h3)"

definition forward :: "CommonClaims \<Rightarrow> string \<Rightarrow> http_request \<Rightarrow> response \<Rightarrow> outcome" where
  "forward claims tenantID r w =
     Forwarded (r\<lparr>rq_Header := identity_headers claims tenantID (rq_Header r)\<rparr>) tenantID w"

section \<open>The handler\<close>

text \<open>Step 6: the cookie, after the policy has allowed the request, then steps 7 and 8.\<close>

definition serve_cookie ::
  "environment \<Rightarrow> Guard \<Rightarrow> call \<Rightarrow> http_request \<Rightarrow> CommonClaims \<Rightarrow> string \<Rightarrow> response \<Rightarrow> 's guard_state
     \<Rightarrow> outcome \<times> 's guard_state" where
  "serve_cookie en g ca r claims tenantID w st =
     (if g_cookieSecret g = [] then (forward claims tenantID r w, st)
      else (case ReadStateCookie (en_codec en) (cr_HMAC (en_crypto en)) (ca_now ca) r (g_cookieSecret g) of
          Inr (Some saved) \<Rightarrow>
            if sr_Path saved \<noteq> [] \<and> sr_Path saved \<noteq> rq_Path r
            then (case completeStepUp g ca r saved claims tenantID w st of
                (Inl w', st') \<Rightarrow> (Answered w', st')
              | (Inr r', st') \<Rightarrow> (forward claims tenantID r' (ClearStateCookie w), st'))
            else (forward claims tenantID r (ClearStateCookie w), st)
        | _ \<Rightarrow> (forward claims tenantID r (ClearStateCookie w), st)))"

text \<open>Step 5: policy evaluation.\<close>

definition serve_policy ::
  "environment \<Rightarrow> Guard \<Rightarrow> call \<Rightarrow> http_request \<Rightarrow> CommonClaims \<Rightarrow> string \<Rightarrow> response \<Rightarrow> 's guard_state
     \<Rightarrow> outcome \<times> 's guard_state" where
  "serve_policy en g ca r claims tenantID w st = (case g_policyEngine g of
       None \<Rightarrow> serve_cookie en g ca r claims tenantID w st
     | Some eng \<Rightarrow>
        (case Evaluate eng (policy_request (ca_now ca) (rq_Method r) (rq_Path r) claims) of
           Inl _ \<Rightarrow> (Answered (http_Error ''policy evaluation error'' 500 w), st)
         | Inr result \<Rightarrow>
            if \<not> res_Allowed result
            then (case handleDenial en g ca r (cc_Subject claims) tenantID result w st of (w', st') \<Rightarrow> (Answered w', st'))
            else serve_cookie en g ca r claims tenantID w
                   (emit (EmitPolicyDecision (ca_now ca) (ca_trace ca) (cc_Subject claims) tenantID (rq_Path r) (rq_Method r)
                      [] [] True) st)))"

text \<open>Steps 4a to 4c: what the introspected claims must satisfy.\<close>

definition binding_error :: "environment \<Rightarrow> Guard \<Rightarrow> call \<Rightarrow> Provider \<Rightarrow> DPoPProof option \<Rightarrow> CommonClaims \<Rightarrow> string option" where
  "binding_error en g ca provider dpopProof claims =
     (if pv_Issuer provider \<noteq> [] \<and> cc_Issuer claims \<noteq> pv_Issuer provider
      then Some (if cc_Issuer claims = [] then ''introspection response missing iss; cannot bind token to tenant''
                 else ''token issuer does not match tenant provider'')
      else (case (case dpopProof of None \<Rightarrow> None | Some proof \<Rightarrow> VerifyDPoPBinding (en_codec en) (en_crypto en) proof claims) of
          Some e \<Rightarrow> Some (''DPoP binding failed: '' @ error_text e)
        | None \<Rightarrow> (case g_fapiCfg g of None \<Rightarrow> None
            | Some cfg \<Rightarrow> map_option ProfileError_Error (ValidateRequest (common_view (ca_now ca) claims) cfg))))"

text \<open>Step 4: introspection.\<close>

definition serve_token ::
  "environment \<Rightarrow> 's cache_ops \<Rightarrow> Guard \<Rightarrow> call \<Rightarrow> http_request \<Rightarrow> string \<Rightarrow> Provider \<Rightarrow> string \<Rightarrow> DPoPProof option
     \<Rightarrow> response \<Rightarrow> 's guard_state \<Rightarrow> outcome \<times> 's guard_state" where
  "serve_token en c g ca r tenantID provider rawToken dpopProof w st =
     (case guard_introspect en c g ca provider rawToken st of
        (Inl _, st') \<Rightarrow> reject g ca r ErrCodeInvalidToken ''token inactive or validation failed'' w st'
      | (Inr claims, st') \<Rightarrow>
         if \<not> cc_Active claims then reject g ca r ErrCodeInvalidToken ''token inactive or validation failed'' w st'
         else (case binding_error en g ca provider dpopProof claims of
             Some reason \<Rightarrow> reject g ca r ErrCodeInvalidToken reason w st'
           | None \<Rightarrow> serve_policy en g ca r claims tenantID w st'))"

text \<open>Step 3a: proof of possession.\<close>

definition serve_dpop ::
  "environment \<Rightarrow> 's cache_ops \<Rightarrow> Guard \<Rightarrow> call \<Rightarrow> http_request \<Rightarrow> string \<Rightarrow> Provider \<Rightarrow> string
     \<Rightarrow> response \<Rightarrow> 's guard_state \<Rightarrow> outcome \<times> 's guard_state" where
  "serve_dpop en c g ca r tenantID provider rawToken w st =
     (if \<not> g_enableDPoP g then serve_token en c g ca r tenantID provider rawToken None w st
      else (case guard_dpop en c g ca r rawToken st of
          (Inl e, st') \<Rightarrow>
            (case g_dpopNonce g of
               Some n \<Rightarrow>
                 if errors_Is e ErrDPoPNonceRequired
                 then reject g ca r ''use_dpop_nonce'' ''server requires a DPoP nonce''
                        (set_header ''DPoP-Nonce'' (Current (en_crypto en) (ca_now ca) n) w) st'
                 else reject g ca r ErrCodeInvalidToken (''DPoP validation failed: '' @ error_text e) w st'
             | None \<Rightarrow> reject g ca r ErrCodeInvalidToken (''DPoP validation failed: '' @ error_text e) w st')
        | (Inr proof, st') \<Rightarrow> serve_token en c g ca r tenantID provider rawToken (Some proof) w st'))"

text \<open>Steps 1 to 3: tenant, provider and bearer token.\<close>

definition serve_tenant ::
  "environment \<Rightarrow> 's cache_ops \<Rightarrow> Guard \<Rightarrow> call \<Rightarrow> http_request \<Rightarrow> response \<Rightarrow> 's guard_state \<Rightarrow> outcome \<times> 's guard_state" where
  "serve_tenant en c g ca r w st = (case Resolve (g_resolver g) r of
       Panics \<Rightarrow> (Panicked, st)
     | Unresolved _ \<Rightarrow> reject g ca r ErrCodeInvalidToken ''tenant resolution failed'' w st
     | Resolved tenantID \<Rightarrow> (case Registry_Get (g_registry g) tenantID of
         Inl _ \<Rightarrow> reject g ca r ErrCodeInvalidToken ''unknown tenant'' w st
       | Inr provider \<Rightarrow> (case ExtractBearerToken (Header_Get (rq_Header r) ''Authorization'') of
           Inl _ \<Rightarrow> reject g ca r ErrCodeInvalidToken ''missing or invalid bearer token'' w st
         | Inr rawToken \<Rightarrow> serve_dpop en c g ca r tenantID provider rawToken w st)))"

text \<open>The whole handler, with step 0, the rate limit.\<close>

definition Guard_ServeHTTP ::
  "environment \<Rightarrow> 's cache_ops \<Rightarrow> Guard \<Rightarrow> call \<Rightarrow> http_request \<Rightarrow> response \<Rightarrow> 's guard_state \<Rightarrow> outcome \<times> 's guard_state" where
  "Guard_ServeHTTP en c g ca r w st = (case gs_limiter st of
       None \<Rightarrow> serve_tenant en c g ca r w st
     | Some rl \<Rightarrow> (case allow (en_rnd en) (ca_now ca) (clientKey r) rl of
         (False, rl') \<Rightarrow> (Answered (http_Error ''rate limit exceeded'' 429 (set_header ''Retry-After'' ''1'' w)),
                          st\<lparr>gs_limiter := Some rl'\<rparr>)
       | (True, rl') \<Rightarrow> serve_tenant en c g ca r w (st\<lparr>gs_limiter := Some rl'\<rparr>)))"

text \<open>The webhook handler of the guard shares its cache.\<close>

definition Guard_RevocationHandler ::
  "environment \<Rightarrow> 's cache_ops \<Rightarrow> Guard \<Rightarrow> call \<Rightarrow> http_request \<Rightarrow> string result \<Rightarrow> response \<Rightarrow> 's guard_state
     \<Rightarrow> response \<times> 's guard_state" where
  "Guard_RevocationHandler en c g ca r read w st =
     (if g_cache g
      then (case Revocation_ServeHTTP (en_codec en) (cr_HMAC (en_crypto en)) c (g_webhookSecret g) (ca_now ca) r read (gs_cache st) w of
              (s, w') \<Rightarrow> (w', st\<lparr>gs_cache := s\<rparr>))
      else (snd (Revocation_ServeHTTP (en_codec en) (cr_HMAC (en_crypto en)) memory_ops (g_webhookSecret g) (ca_now ca) r read
                   NewMemoryCache w), st))"

text \<open>It is a revocation handler on that cache, or on a new one when the guard has none, with the default
  logger.\<close>

lemma Guard_RevocationHandler_New:
  "Guard_RevocationHandler en c g ca r read w st =
     (if g_cache g
      then (case RevocationHandler_ServeHTTP (en_codec en) (cr_HMAC (en_crypto en)) (NewRevocationHandler dflt c (g_webhookSecret g) None)
              (ca_now ca) r read (gs_cache st) w of (s, w') \<Rightarrow> (w', st\<lparr>gs_cache := s\<rparr>))
      else (snd (RevocationHandler_ServeHTTP (en_codec en) (cr_HMAC (en_crypto en)) (NewRevocationHandler dflt memory_ops (g_webhookSecret g) None)
              (ca_now ca) r read NewMemoryCache w), st))"
  by (simp add: Guard_RevocationHandler_def RevocationHandler_ServeHTTP_def NewRevocationHandler_def)

section \<open>What an outcome tells\<close>

text \<open>A policy engine, if there is one, allows a method and a path for a token.\<close>

definition allowed_by :: "Guard \<Rightarrow> time \<Rightarrow> string \<Rightarrow> string \<Rightarrow> CommonClaims \<Rightarrow> bool" where
  "allowed_by g now method path claims = (case g_policyEngine g of None \<Rightarrow> True
     | Some eng \<Rightarrow> (case Evaluate eng (policy_request now method path claims) of Inl _ \<Rightarrow> False | Inr res \<Rightarrow> res_Allowed res))"

lemma reject_Answered: "\<exists>w' st'. reject g ca r code desc w st = (Answered w', st')"
  by (simp add: reject_def issueChallenge_def Let_def)

lemma reject_not_Forwarded [simp]: "reject g ca r code desc w st \<noteq> (Forwarded r' t w', st')"
  using reject_Answered [of g ca r code desc w st] by auto

lemma replayed_header [simp]: "rq_Header (replayed_request r saved) = rq_Header r"
  by (simp add: replayed_request_def)

lemma finish_flow_InrD:
  "finish_flow g ca r saved flow w st = (Inr r', st') \<Longrightarrow> r' = replayed_request r saved"
  by (auto simp: finish_flow_def issueChallenge_def Let_def split: prod.splits if_splits)

lemma completeStepUp_InrD:
  assumes "completeStepUp g ca r saved claims t w st = (Inr r', st')"
  shows "r' = replayed_request r saved \<and> allowed_by g (ca_now ca) (sr_Method saved) (sr_Path saved) claims"
  using assms finish_flow_InrD
  by (auto simp: completeStepUp_def allowed_by_def issueChallenge_def Let_def
      split: option.splits sum.splits if_splits)

lemma serve_cookie_ForwardedD:
  assumes "serve_cookie en g ca r claims t w st = (Forwarded r' t' w', st')" "allowed_by g (ca_now ca) (rq_Method r) (rq_Path r) claims"
  shows "t' = t \<and> rq_Header r' = identity_headers claims t (rq_Header r)
    \<and> allowed_by g (ca_now ca) (rq_Method r') (rq_Path r') claims"
proof -
  have fwd: "\<And>r0 w0. forward claims t r0 w0 = Forwarded (r0\<lparr>rq_Header := identity_headers claims t (rq_Header r0)\<rparr>) t w0"
    by (simp add: forward_def)
  from assms show ?thesis
    unfolding serve_cookie_def
    by (auto simp: fwd replayed_request_def split: if_splits sum.splits option.splits prod.splits
        dest!: completeStepUp_InrD)
qed

lemma handleDenial_Answered: "\<exists>w' st'. handleDenial en g ca r sub t res w st = (w', st')"
  by (rule prod.exhaust) blast

lemma serve_policy_ForwardedD:
  assumes "serve_policy en g ca r claims t w st = (Forwarded r' t' w', st')"
  shows "t' = t \<and> rq_Header r' = identity_headers claims t (rq_Header r)
    \<and> allowed_by g (ca_now ca) (rq_Method r) (rq_Path r) claims
    \<and> allowed_by g (ca_now ca) (rq_Method r') (rq_Path r') claims"
proof -
  have ok: "allowed_by g (ca_now ca) (rq_Method r) (rq_Path r) claims"
    using assms by (auto simp: serve_policy_def allowed_by_def split: option.splits sum.splits if_splits prod.splits)
  obtain st0 where "serve_cookie en g ca r claims t w st0 = (Forwarded r' t' w', st')"
    using assms by (auto simp: serve_policy_def split: option.splits sum.splits if_splits prod.splits)
  from serve_cookie_ForwardedD [OF this ok] ok show ?thesis by blast
qed

text \<open>Everything the guard has established about the token of a forwarded request.\<close>

definition token_established ::
  "environment \<Rightarrow> Guard \<Rightarrow> call \<Rightarrow> Provider \<Rightarrow> DPoPProof option \<Rightarrow> CommonClaims \<Rightarrow> bool" where
  "token_established en g ca provider dpopProof claims \<longleftrightarrow>
     cc_Active claims \<and> (pv_Issuer provider \<noteq> [] \<longrightarrow> cc_Issuer claims = pv_Issuer provider)
   \<and> (\<forall>proof. dpopProof = Some proof \<longrightarrow> VerifyDPoPBinding (en_codec en) (en_crypto en) proof claims = None)
   \<and> (\<forall>cfg. g_fapiCfg g = Some cfg \<longrightarrow> ValidateRequest (common_view (ca_now ca) claims) cfg = None)"

lemma binding_error_None: "cc_Active claims \<Longrightarrow> binding_error en g ca provider dpopProof claims = None \<longleftrightarrow>
    token_established en g ca provider dpopProof claims"
  by (auto simp: binding_error_def token_established_def split: option.splits)


text \<open>The guard up to the policy: the request is within its rate, its tenant is registered, its
  token is introspected to \<open>claims\<close> and everything about the token is established.\<close>

definition token_passes ::
  "environment \<Rightarrow> 's cache_ops \<Rightarrow> Guard \<Rightarrow> call \<Rightarrow> Provider \<Rightarrow> string \<Rightarrow> DPoPProof option \<Rightarrow> 's guard_state
     \<Rightarrow> CommonClaims \<Rightarrow> 's guard_state \<Rightarrow> bool" where
  "token_passes en c g ca provider token dpopProof st claims st' \<longleftrightarrow>
     guard_introspect en c g ca provider token st = (Inr claims, st') \<and> token_established en g ca provider dpopProof claims"

definition proof_passes ::
  "environment \<Rightarrow> 's cache_ops \<Rightarrow> Guard \<Rightarrow> call \<Rightarrow> http_request \<Rightarrow> string \<Rightarrow> 's guard_state
     \<Rightarrow> DPoPProof option \<Rightarrow> 's guard_state \<Rightarrow> bool" where
  "proof_passes en c g ca r token st dpopProof st' \<longleftrightarrow>
     (if g_enableDPoP g then \<exists>pf. dpopProof = Some pf \<and> guard_dpop en c g ca r token st = (Inr pf, st')
      else dpopProof = None \<and> st' = st)"

definition rate_passes :: "environment \<Rightarrow> call \<Rightarrow> http_request \<Rightarrow> 's guard_state \<Rightarrow> 's guard_state \<Rightarrow> bool" where
  "rate_passes en ca r st st' \<longleftrightarrow> (case gs_limiter st of None \<Rightarrow> st' = st
     | Some rl \<Rightarrow> \<exists>rl'. allow (en_rnd en) (ca_now ca) (clientKey r) rl = (True, rl') \<and> st' = st\<lparr>gs_limiter := Some rl'\<rparr>)"

definition authenticates ::
  "environment \<Rightarrow> 's cache_ops \<Rightarrow> Guard \<Rightarrow> call \<Rightarrow> http_request \<Rightarrow> 's guard_state \<Rightarrow> string \<Rightarrow> Provider \<Rightarrow> string
     \<Rightarrow> CommonClaims \<Rightarrow> 's guard_state \<Rightarrow> bool" where
  "authenticates en c g ca r st t provider token claims st' \<longleftrightarrow>
     Resolve (g_resolver g) r = Resolved t \<and> Registry_Get (g_registry g) t = Inr provider
   \<and> ExtractBearerToken (Header_Get (rq_Header r) ''Authorization'') = Inr token
   \<and> (\<exists>st1 st2 pf. rate_passes en ca r st st1 \<and> proof_passes en c g ca r token st1 pf st2
        \<and> token_passes en c g ca provider token pf st2 claims st')"

text \<open>The handler is then the policy step.\<close>

lemma serve_token_passes:
  assumes "token_passes en c g ca provider token pf st claims st'"
  shows "serve_token en c g ca r t provider token pf w st = serve_policy en g ca r claims t w st'"
proof -
  have "cc_Active claims" using assms by (simp add: token_passes_def token_established_def)
  with assms binding_error_None [of claims en g ca provider pf] show ?thesis
    by (simp add: serve_token_def token_passes_def)
qed

lemma serve_dpop_passes:
  assumes "proof_passes en c g ca r token st pf st'"
  shows "serve_dpop en c g ca r t provider token w st = serve_token en c g ca r t provider token pf w st'"
  using assms by (auto simp: serve_dpop_def proof_passes_def split: if_splits)

lemma authenticates_serve:
  assumes "authenticates en c g ca r st t provider token claims st'"
  shows "Guard_ServeHTTP en c g ca r w st = serve_policy en g ca r claims t w st'"
proof -
  obtain st1 st2 pf where rate: "rate_passes en ca r st st1" and pf: "proof_passes en c g ca r token st1 pf st2"
    and tok: "token_passes en c g ca provider token pf st2 claims st'"
    and res: "Resolve (g_resolver g) r = Resolved t" "Registry_Get (g_registry g) t = Inr provider"
      "ExtractBearerToken (Header_Get (rq_Header r) ''Authorization'') = Inr token"
    using assms by (auto simp: authenticates_def)
  have "Guard_ServeHTTP en c g ca r w st = serve_tenant en c g ca r w st1"
    using rate by (auto simp: Guard_ServeHTTP_def rate_passes_def split: option.splits)
  also have "\<dots> = serve_policy en g ca r claims t w st'"
    using res serve_dpop_passes [OF pf] serve_token_passes [OF tok] by (simp add: serve_tenant_def)
  finally show ?thesis .
qed

lemma serve_token_ForwardedD:
  assumes "serve_token en c g ca r t provider token pf w st = (Forwarded r' t' w', st')"
  obtains claims st1 where "token_passes en c g ca provider token pf st claims st1"
    "serve_policy en g ca r claims t w st1 = (Forwarded r' t' w', st')"
  using assms binding_error_None unfolding token_passes_def
  by (auto simp: serve_token_def split: prod.splits sum.splits if_splits option.splits)

lemma serve_dpop_ForwardedD:
  assumes "serve_dpop en c g ca r t provider token w st = (Forwarded r' t' w', st')"
  obtains pf st1 where "proof_passes en c g ca r token st pf st1"
      "serve_token en c g ca r t provider token pf w st1 = (Forwarded r' t' w', st')"
  using assms by (auto simp: serve_dpop_def proof_passes_def split: if_splits prod.splits sum.splits option.splits)

lemma serve_tenant_ForwardedD:
  assumes "serve_tenant en c g ca r w st = (Forwarded r' t' w', st')"
  obtains t provider token where "Resolve (g_resolver g) r = Resolved t" "Registry_Get (g_registry g) t = Inr provider"
    "ExtractBearerToken (Header_Get (rq_Header r) ''Authorization'') = Inr token"
    "serve_dpop en c g ca r t provider token w st = (Forwarded r' t' w', st')"
  using assms by (auto simp: serve_tenant_def split: resolved.splits sum.splits)

lemma rate_ForwardedD:
  assumes "Guard_ServeHTTP en c g ca r w st = (Forwarded r' t' w', st')"
  obtains st1 where "rate_passes en ca r st st1" "serve_tenant en c g ca r w st1 = (Forwarded r' t' w', st')"
proof (cases "gs_limiter st")
  case None
  with assms show thesis by (intro that [of st]) (simp_all add: Guard_ServeHTTP_def rate_passes_def)
next
  case (Some rl)
  obtain ok rl' where a: "allow (en_rnd en) (ca_now ca) (clientKey r) rl = (ok, rl')" by (rule prod.exhaust)
  with assms Some show thesis
    by (cases ok) (auto simp: Guard_ServeHTTP_def rate_passes_def intro: that [of "st\<lparr>gs_limiter := Some rl'\<rparr>"])
qed

lemma Guard_ForwardedD:
  assumes "Guard_ServeHTTP en c g ca r w st = (Forwarded r' t' w', st')"
  obtains provider token claims st1 where "authenticates en c g ca r st t' provider token claims st1"
    "serve_policy en g ca r claims t' w st1 = (Forwarded r' t' w', st')"
proof -
  obtain st1 where rate: "rate_passes en ca r st st1" and s: "serve_tenant en c g ca r w st1 = (Forwarded r' t' w', st')"
    using rate_ForwardedD [OF assms] .
  obtain t provider token where res: "Resolve (g_resolver g) r = Resolved t" "Registry_Get (g_registry g) t = Inr provider"
      "ExtractBearerToken (Header_Get (rq_Header r) ''Authorization'') = Inr token"
    and d: "serve_dpop en c g ca r t provider token w st1 = (Forwarded r' t' w', st')"
    using serve_tenant_ForwardedD [OF s] .
  obtain pf st2 where pf: "proof_passes en c g ca r token st1 pf st2"
    and k: "serve_token en c g ca r t provider token pf w st2 = (Forwarded r' t' w', st')"
    using serve_dpop_ForwardedD [OF d] .
  obtain claims st3 where tok: "token_passes en c g ca provider token pf st2 claims st3"
    and p: "serve_policy en g ca r claims t w st3 = (Forwarded r' t' w', st')"
    using serve_token_ForwardedD [OF k] .
  have "t' = t" using serve_policy_ForwardedD [OF p] by blast
  with rate res pf tok p show thesis by (intro that) (auto simp: authenticates_def)
qed

text \<open>Where the claims come from: the provider, or the cache as it was when the request came in.
  DPoP validation writes replay entries only, which are not token hashes.\<close>

lemma guard_introspect_InrD:
  assumes "guard_introspect en c g ca provider token st = (Inr claims, st1)"
  shows "pv_Introspect provider token = Inr claims
    \<or> g_cache g \<and> co_Get c (ca_now ca) (gs_cache st) (HashToken (cr_Sum (en_crypto en) SHA256) token) = Some claims"
  using assms by (auto simp: guard_introspect_def Let_def split: option.splits sum.splits if_splits)

lemma dpop_key_not_hash: "dpopJTIPrefix @ j \<noteq> HashToken sha t"
proof
  assume "dpopJTIPrefix @ j = HashToken sha t"
  then have "CHR ''p'' \<in> set (HashToken sha t)" by (simp add: dpopJTIPrefix_def) (metis list.set_intros)
  then show False by (auto simp: HashToken_def is_digit_def between_def dest: hex_safe)
qed

lemma guard_dpop_InrD:
  assumes "guard_dpop en c g ca r token st = (Inr pf, st')"
  shows "ValidateDPoP (en_codec en) (en_crypto en) (en_urlString en) (ca_now ca) r token (g_dpopCfg g) = Inr pf"
    and "gs_cache st' = (if g_cache g then snd (co_Set c (ca_now ca) (gs_cache st) (dpopJTIPrefix @ dp_JTI pf) empty_claims
           (dc_MaxAge (g_dpopCfg g))) else gs_cache st)"
  using assms by (auto simp: guard_dpop_def split: if_splits prod.splits dest: Validate_InrD)

context token_cache
begin

lemma proof_passes_get:
  assumes "proof_passes en ops g ca r token st pf st'"
  shows "co_Get ops t (gs_cache st') (HashToken sha k) = co_Get ops t (gs_cache st) (HashToken sha k)"
  using assms dpop_key_not_hash [THEN not_sym]
  by (auto simp: proof_passes_def guard_dpop_InrD(2) get_set split: if_splits)

lemma authenticates_claims:
  assumes "authenticates en ops g ca r st t provider token claims st'"
  shows "pv_Introspect provider token = Inr claims
    \<or> g_cache g \<and> co_Get ops (ca_now ca) (gs_cache st) (HashToken (cr_Sum (en_crypto en) SHA256) token) = Some claims"
proof -
  obtain st1 st2 pf where rate: "rate_passes en ca r st st1" and pf: "proof_passes en ops g ca r token st1 pf st2"
    and tok: "token_passes en ops g ca provider token pf st2 claims st'"
    using assms by (auto simp: authenticates_def)
  have "gs_cache st1 = gs_cache st" using rate by (auto simp: rate_passes_def split: option.splits)
  with guard_introspect_InrD proof_passes_get [OF pf] tok show ?thesis
    unfolding token_passes_def by metis
qed

end

lemma authenticates_established:
  assumes "authenticates en c g ca r st t provider token claims st'"
  obtains pf where "token_established en g ca provider pf claims"
    "g_enableDPoP g \<Longrightarrow> \<exists>p. pf = Some p
       \<and> ValidateDPoP (en_codec en) (en_crypto en) (en_urlString en) (ca_now ca) r token (g_dpopCfg g) = Inr p"
proof -
  obtain st1 st2 pf where "proof_passes en c g ca r token st1 pf st2" "token_passes en c g ca provider token pf st2 claims st'"
    using assms by (auto simp: authenticates_def)
  then show thesis
    by (intro that [of pf]) (auto simp: proof_passes_def token_passes_def dest: guard_dpop_InrD(1))
qed

section \<open>Forwarded headers\<close>

text \<open>Header keys as \<^verbatim>\<open>net/http\<close> delivers them.\<close>

definition canonical_keys :: "header \<Rightarrow> bool" where
  "canonical_keys h = list_all (\<lambda>kv. CanonicalHeaderKey (fst kv) = fst kv) h"

definition reserved_key :: "string \<Rightarrow> bool" where
  "reserved_key k = HasPrefix (ToLower k) ''x-iam-''"

lemma delete_iam_values:
  "Header_Values (delete_iam names h) k =
     (if \<exists>n \<in> set names. reserved_key n \<and> CanonicalHeaderKey n = CanonicalHeaderKey k then [] else Header_Values h k)"
  by (induction names arbitrary: h) (auto simp: reserved_key_def http_simps)

lemma Header_Values_absent: "CanonicalHeaderKey k \<notin> fst ` set h \<Longrightarrow> Header_Values h k = []"
  by (simp add: Header_Values_def map_of_eq_None_iff [THEN iffD2])

lemma sanitize_values:
  assumes "canonical_keys h"
  shows "Header_Values (sanitizeForwardHeaders h) k =
    (if reserved_key (CanonicalHeaderKey k) \<or> CanonicalHeaderKey k = CanonicalHeaderKey ''X-Tenant-ID'' then []
     else Header_Values h k)"
proof -
  let ?h = "Header_Del h ''X-Tenant-ID''"
  have "set ?h \<subseteq> set h" by (auto simp: Header_Del_def AList.delete_eq)
  then have canon: "\<forall>n \<in> set (map fst ?h). CanonicalHeaderKey n = n"
    using assms by (auto simp: canonical_keys_def list_all_iff)
  show ?thesis
  proof (cases "reserved_key (CanonicalHeaderKey k) \<and> CanonicalHeaderKey k \<in> set (map fst ?h)")
    case True
    then have "\<exists>n \<in> set (map fst ?h). reserved_key n \<and> CanonicalHeaderKey n = CanonicalHeaderKey k"
      using canon by (intro bexI [of _ "CanonicalHeaderKey k"]) blast+
    with True show ?thesis by (simp add: sanitizeForwardHeaders_def Let_def delete_iam_values)
  next
    case False
    then have "\<not> (\<exists>n \<in> set (map fst ?h). reserved_key n \<and> CanonicalHeaderKey n = CanonicalHeaderKey k)"
      using canon by fastforce
    then have "Header_Values (sanitizeForwardHeaders h) k = Header_Values ?h k"
      by (simp only: sanitizeForwardHeaders_def Let_def delete_iam_values if_False)
    moreover have "reserved_key (CanonicalHeaderKey k) \<Longrightarrow> Header_Values ?h k = []"
      using False by (intro Header_Values_absent) auto
    ultimately show ?thesis by (auto simp: http_simps)
  qed
qed

lemma iam_keys:
  "CanonicalHeaderKey ''X-Iam-Subject'' = ''X-Iam-Subject''" "CanonicalHeaderKey ''X-Iam-Tenant'' = ''X-Iam-Tenant''"
  "CanonicalHeaderKey ''X-Iam-Acr'' = ''X-Iam-Acr''" "CanonicalHeaderKey ''X-Iam-Scopes'' = ''X-Iam-Scopes''"
  "CanonicalHeaderKey ''X-Tenant-ID'' = ''X-Tenant-Id''"
  by (simp_all add: header_key_simps)

section \<open>Answers\<close>

text \<open>A 401 response with a challenge in the guard's realm.\<close>

definition challenge_answer :: "Guard \<Rightarrow> response \<Rightarrow> bool" where
  "challenge_answer g w \<longleftrightarrow> rw_Status w = Some 401
     \<and> (\<exists>ch. ch_Realm ch = g_realm g \<and> Header_Get (rw_Sent w) ''WWW-Authenticate'' = WWWAuthenticateHeader ch)"

lemma WriteChallenge_answer:
  "rw_Status w = None \<Longrightarrow> ch_Realm ch = g_realm g \<Longrightarrow> challenge_answer g (WriteChallenge ch w)"
  by (auto simp: challenge_answer_def http_simps)

lemma issueChallenge_answer:
  "issueChallenge g ca r code desc acr age w st = (w', st') \<Longrightarrow> rw_Status w = None \<Longrightarrow> challenge_answer g w'"
  by (auto simp: issueChallenge_def Let_def intro: WriteChallenge_answer)

lemma reject_answer:
  assumes "reject g ca r code desc w st = (Answered w', st')" "rw_Status w = None"
  shows "challenge_answer g w'"
  using assms by (auto simp: reject_def split: prod.splits intro: issueChallenge_answer)

lemma ClearStateCookie_status [http_simps]: "rw_Status (ClearStateCookie w) = rw_Status w"
  by (simp add: ClearStateCookie_def http_simps)

text \<open>The challenge and the saved request of a denial.\<close>

definition denial_challenge :: "Guard \<Rightarrow> PolicyResult \<Rightarrow> StepUpChallenge" where
  "denial_challenge g res = NewStepUpChallenge (NewInsufficientACRError (res_RequiredACR res) (res_RequiredMaxAge res)) (g_realm g)"

definition denial_saved :: "call \<Rightarrow> http_request \<Rightarrow> PolicyResult \<Rightarrow> SavedRequest" where
  "denial_saved ca r res = \<lparr>sr_Method = rq_Method r, sr_Path = rq_Path r, sr_Query = rq_RawQuery r,
     sr_StateID = newStateID (ca_entropy ca), sr_SavedAt = ca_now ca, sr_ACRHint = res_RequiredACR res,
     sr_MaxAge = res_RequiredMaxAge res\<rparr>"

lemma handleDenial_response:
  "fst (handleDenial en g ca r sub t res w st) = WriteChallenge (denial_challenge g res)
     (if g_cookieSecret g \<noteq> []
      then snd (SetStateCookie (en_codec en) (cr_HMAC (en_crypto en)) (denial_saved ca r res) (g_cookieSecret g) w) else w)"
  by (simp add: handleDenial_def Let_def BeginChallenge_def denial_challenge_def denial_saved_def
      NewStepUpChallenge_def NewInsufficientACRError_def)

lemma handleDenial_answer:
  "rw_Status w = None \<Longrightarrow> challenge_answer g (fst (handleDenial en g ca r sub t res w st))"
  unfolding handleDenial_response
  by (rule WriteChallenge_answer) (simp_all add: http_simps denial_challenge_def NewStepUpChallenge_def)

lemma finish_flow_answer:
  assumes "finish_flow g ca r saved flow w st = (Inl w', st')" "rw_Status w = None"
  shows "challenge_answer g w'"
  using assms
  by (auto simp: finish_flow_def http_simps split: prod.splits if_splits elim!: issueChallenge_answer)

lemma completeStepUp_answer:
  assumes "completeStepUp g ca r saved claims t w st = (Inl w', st')" "rw_Status w = None"
  shows "challenge_answer g w'"
  using assms
  by (auto simp: completeStepUp_def Let_def http_simps dest: finish_flow_answer elim!: issueChallenge_answer
        split: prod.splits option.splits sum.splits if_splits)

lemma serve_policy_answer:
  assumes "serve_policy en g ca r claims t w st = (Answered w', st')" "rw_Status w = None"
  shows "challenge_answer g w'"
proof -
  have den: "handleDenial en g ca r sub t res w st0 = (w1, st1) \<Longrightarrow> challenge_answer g w1" for sub res st0 w1 st1
    using handleDenial_answer [OF assms(2), of g en ca r sub t res st0] by simp
  have "serve_cookie en g ca r claims t w st0 = (Answered w', st') \<Longrightarrow> challenge_answer g w'" for st0
    using assms(2)
    by (auto simp: serve_cookie_def forward_def split: if_splits sum.splits option.splits prod.splits
        dest: completeStepUp_answer)
  with assms(1) den show ?thesis
    by (auto simp: serve_policy_def split: option.splits sum.splits if_splits prod.splits)
qed

section \<open>Replay\<close>

lemma completeStepUp_allowed:
  assumes "allowed_by g (ca_now ca) (sr_Method saved) (sr_Path saved) claims"
    and "Since (ca_now ca) (sr_SavedAt saved) \<le> sm_Timeout (g_sm g)"
  shows "completeStepUp g ca r saved claims t w st = (Inr (replayed_request r saved), st)"
  using assms
  by (auto simp: completeStepUp_def allowed_by_def finish_flow_def Complete_def Let_def not_less
      split: option.splits sum.splits)

lemma serve_policy_replay:
  assumes "allowed_by g (ca_now ca) (rq_Method r) (rq_Path r) claims"
    and "allowed_by g (ca_now ca) (sr_Method saved) (sr_Path saved) claims"
    and "g_cookieSecret g \<noteq> []"
    and "ReadStateCookie (en_codec en) (cr_HMAC (en_crypto en)) (ca_now ca) r (g_cookieSecret g) = Inr (Some saved)"
    and "sr_Path saved \<noteq> []" "sr_Path saved \<noteq> rq_Path r" "Since (ca_now ca) (sr_SavedAt saved) \<le> sm_Timeout (g_sm g)"
  shows "\<exists>st'. serve_policy en g ca r claims t w st
    = (forward claims t (replayed_request r saved) (ClearStateCookie w), st')"
proof -
  have "\<exists>st'. serve_cookie en g ca r claims t w st0 = (forward claims t (replayed_request r saved) (ClearStateCookie w), st')" for st0
    using assms by (simp add: serve_cookie_def completeStepUp_allowed)
  with assms(1) show ?thesis
    by (auto simp: serve_policy_def allowed_by_def split: option.splits sum.splits)
qed

text \<open>The policy step denies.\<close>

lemma serve_policy_denial:
  assumes "g_policyEngine g = Some eng"
    and "Evaluate eng (policy_request (ca_now ca) (rq_Method r) (rq_Path r) claims) = Inr res" "\<not> res_Allowed res"
  shows "\<exists>st'. serve_policy en g ca r claims t w st
    = (Answered (fst (handleDenial en g ca r (cc_Subject claims) t res w st)), st')"
  using assms by (simp add: serve_policy_def split: prod.splits)

section \<open>The audit trail\<close>

lemma emit_audit [simp]: "gs_audit (emit f st) = map_option f (gs_audit st)"
  by (simp add: emit_def)

lemma finish_flow_Inr_state: "finish_flow g ca r saved flow w st = (Inr r', st') \<Longrightarrow> st' = st"
  by (auto simp: finish_flow_def split: prod.splits if_splits)

lemma completeStepUp_Inr_state:
  "completeStepUp g ca r saved claims t w st = (Inr r', st') \<Longrightarrow> st' = st"
  by (auto simp: completeStepUp_def Let_def dest: finish_flow_Inr_state
      split: option.splits sum.splits if_splits prod.splits)

lemma serve_cookie_Forwarded_state:
  "serve_cookie en g ca r claims t w st = (Forwarded r' t' w', st') \<Longrightarrow> st' = st"
  by (auto simp: serve_cookie_def dest: completeStepUp_Inr_state
      split: if_splits sum.splits option.splits prod.splits)

text \<open>Authentication itself leaves no audit event.\<close>

lemma authenticates_audit:
  assumes "authenticates en c g ca r st t provider token claims st'"
  shows "gs_audit st' = gs_audit st"
proof -
  obtain st1 st2 pf where "rate_passes en ca r st st1" "proof_passes en c g ca r token st1 pf st2"
    "token_passes en c g ca provider token pf st2 claims st'"
    using assms by (auto simp: authenticates_def)
  then have "gs_audit st1 = gs_audit st" "gs_audit st2 = gs_audit st1" "gs_audit st' = gs_audit st2"
    by (auto simp: rate_passes_def proof_passes_def guard_dpop_def token_passes_def guard_introspect_def Let_def
        split: option.splits if_splits prod.splits sum.splits)
  then show ?thesis by simp
qed

end
