(* ===== verification/Example.thy ===== *)
theory Example
  imports Guard
begin

text \<open>
  An example deployment of the guard: one tenant, one provider that knows two tokens, two policies, the
  two requests of a step-up and one revocation event.  The witnesses of the properties that span
  components evaluate it.
\<close>

section \<open>The deployment\<close>

text \<open>One tenant with one provider, which knows a token of low and a token of high assurance; a
  protected area that needs the latter, and a landing page.\<close>

definition low_claims :: CommonClaims where
  "low_claims = empty_claims\<lparr>cc_Subject := ''alice'', cc_Issuer := ''https://as'', cc_JTI := ''1'', cc_ACR := ''bronze'',
     cc_Scopes := [''openid''], cc_AuthTime := 0, cc_Active := True\<rparr>"

definition high_claims :: CommonClaims where
  "high_claims = low_claims\<lparr>cc_JTI := ''2'', cc_ACR := ''gold'', cc_AMR := [''otp''], cc_AuthTime := 10 * Second\<rparr>"

definition ex_provider :: Provider where
  "ex_provider = wit_provider\<lparr>pv_Introspect := (\<lambda>token. if token = ''low'' then Inr low_claims
     else if token = ''high'' then Inr high_claims else Inr empty_claims)\<rparr>"

definition landing_policy :: Policy where
  "landing_policy = \<lparr>pol_Name = ''cb'', pol_Resources = [''/callback''], pol_Methods = [], pol_RequireACR = [],
     pol_MaxAge = 0, pol_RequireMFA = False, pol_RequireScopes = [], pol_RequireAuthorizationDetails = [], pol_Enabled = True\<rparr>"

definition ex_config :: Config where
  "ex_config = wit_config\<lparr>cfg_Policies := [wit_policy, landing_policy]\<rparr>"

definition ex_guard_config :: "MemoryCache GuardConfig" where
  "ex_guard_config = \<lparr>gc_Registry = Register NewRegistry ''acme'' ex_provider, gc_Resolver = StaticResolver ''acme'',
     gc_PolicyEngine = Some (Engine_New (Some ex_config)), gc_Realm = ''shop'', gc_Audit = None, gc_Metrics = None,
     gc_Cache = Some NewMemoryCache, gc_EnableDPoP = False, gc_DPoPNonceSecret = [], gc_WebhookSecret = ''w'',
     gc_CookieSecret = ''k'', gc_FAPI = None, gc_RateLimitRPS = 0, gc_RateLimitBurst = 0\<rparr>"

definition ex_guard :: Guard where
  "ex_guard = fst (NewGuard NewMemoryCache ex_guard_config)"

definition ex_state :: "MemoryCache guard_state" where
  "ex_state = snd (NewGuard NewMemoryCache ex_guard_config)"

definition ex_request :: "string \<Rightarrow> string \<Rightarrow> header \<Rightarrow> http_request" where
  "ex_request method path h = \<lparr>rq_Method = method, rq_Path = path, rq_RawQuery = [], rq_RequestURI = path,
     rq_Host = ''h'', rq_RemoteAddr = ''10.0.0.1:80'', rq_TLS = True, rq_PeerCertificates = 0, rq_Header = h, rq_Body = []\<rparr>"

definition ex_call :: "time \<Rightarrow> call" where
  "ex_call now = \<lparr>ca_now = now, ca_entropy = [], ca_trace = []\<rparr>"

text \<open>JSON text of one saved request and of one revocation event.\<close>

definition ex_saved :: SavedRequest where
  "ex_saved = \<lparr>sr_Method = ''POST'', sr_Path = ''/api/pay'', sr_Query = [], sr_StateID = [], sr_SavedAt = 5 * Second,
     sr_ACRHint = ''silver'', sr_MaxAge = 300\<rparr>"

definition ex_env :: environment where
  "ex_env = \<lparr>en_codec = \<lparr>json_parse = (\<lambda>s. if s = ''J'' then Some (saved_json ''T'' ex_saved)
         else if s = ''R'' then Some (JObj [(''token_hash'', JStr (HashToken (cr_Sum wit_crypto SHA256) ''high''))]) else None),
       json_decode = (\<lambda>_. None), json_print = (\<lambda>_. ''J''), time_parse = (\<lambda>_. Some (5 * Second)),
       time_print = (\<lambda>_. Some ''T'')\<rparr>,
     en_crypto = wit_crypto, en_urlString = (\<lambda>_. []), en_rnd = (\<lambda>x. x)\<rparr>"

lemma ex_guard_sel:
  "g_resolver ex_guard = StaticResolver ''acme''" "Registry_Get (g_registry ex_guard) ''acme'' = Inr ex_provider"
  "g_policyEngine ex_guard = Some (Engine_New (Some ex_config))" "g_realm ex_guard = ''shop''" "g_sm ex_guard = NewStateMachine"
  "g_cache ex_guard" "\<not> g_enableDPoP ex_guard" "g_cookieSecret ex_guard = ''k''" "g_fapiCfg ex_guard = None"
  "gs_cache ex_state = NewMemoryCache" "gs_limiter ex_state = None"
  by (simp_all add: ex_guard_def ex_state_def NewGuard_def ex_guard_config_def Let_def reg.get_register)

lemma ex_matches:
  "matchesPolicy wit_policy (policy_request t ''POST'' ''/api/pay'' c)"
  "\<not> matchesPolicy wit_policy (policy_request t ''GET'' ''/callback'' c)"
  "matchesPolicy landing_policy (policy_request t ''GET'' ''/callback'' c)"
proof -
  have "MatchResource ''/api/**'' ''/api/pay''" "\<not> MatchResource ''/api/**'' ''/callback''"
    "MatchResource ''/callback'' ''/callback''" "MatchMethod [''POST''] ''POST''" "MatchMethod [] ''GET''" by code_simp+
  then show "matchesPolicy wit_policy (policy_request t ''POST'' ''/api/pay'' c)"
    "\<not> matchesPolicy wit_policy (policy_request t ''GET'' ''/callback'' c)"
    "matchesPolicy landing_policy (policy_request t ''GET'' ''/callback'' c)"
    by (simp_all add: matchesPolicy_def wit_policy_def landing_policy_def policy_request_def)
qed

lemma ex_Evaluate:
  "Evaluate (Engine_New (Some ex_config)) (policy_request t ''POST'' ''/api/pay'' c)
     = Inr (check ex_config wit_policy (policy_request t ''POST'' ''/api/pay'' c))"
  "Evaluate (Engine_New (Some ex_config)) (policy_request t ''GET'' ''/callback'' c)
     = Inr (check ex_config landing_policy (policy_request t ''GET'' ''/callback'' c))"
proof -
  have "pol_Enabled wit_policy" "pol_Enabled landing_policy" by (simp_all add: wit_policy_def landing_policy_def)
  then show "Evaluate (Engine_New (Some ex_config)) (policy_request t ''POST'' ''/api/pay'' c)
     = Inr (check ex_config wit_policy (policy_request t ''POST'' ''/api/pay'' c))"
  "Evaluate (Engine_New (Some ex_config)) (policy_request t ''GET'' ''/callback'' c)
     = Inr (check ex_config landing_policy (policy_request t ''GET'' ''/callback'' c))"
    using ex_matches by (simp_all add: Evaluate_def Engine_New_def ex_config_def evaluate_policies_eq governing_def)
qed

lemma ex_decisions:
  "\<not> res_Allowed (check ex_config wit_policy (policy_request t ''POST'' ''/api/pay'' low_claims))"
  "res_Allowed (check ex_config wit_policy (policy_request (20 * Second) ''POST'' ''/api/pay'' high_claims))"
  "res_Allowed (check ex_config landing_policy (policy_request t ''GET'' ''/callback'' c))"
  by (simp_all add: check_allowed wit_policy_def landing_policy_def policy_request_def low_claims_def high_claims_def
      ACRSatisfies_iff position_def ex_config_def wit_config_def AuthAge_def IsZero_def zero_time_def Since_def
      time_Sub_def empty_claims_def wrap64_def)

lemma ex_bearer:
  "ExtractBearerToken (Header_Get [(''Authorization'', [''Bearer low''])] ''Authorization'') = Inr ''low''"
  "ExtractBearerToken (Header_Get [(''Authorization'', [''Bearer high'']), (''Cookie'', cs)] ''Authorization'') = Inr ''high''"
proof -
  have "ExtractBearerToken ''Bearer low'' = Inr ''low''" "ExtractBearerToken ''Bearer high'' = Inr ''high''"
    using ExtractBearerToken_bearer [of "''Bearer''" "''low''"] ExtractBearerToken_bearer [of "''Bearer''" "''high''"]
    by (simp_all add: fold_simps is_ascii_def space_char_def IsSpace_def between_def)
  then show "ExtractBearerToken (Header_Get [(''Authorization'', [''Bearer low''])] ''Authorization'') = Inr ''low''"
    "ExtractBearerToken (Header_Get [(''Authorization'', [''Bearer high'']), (''Cookie'', cs)] ''Authorization'') = Inr ''high''"
    by (simp_all add: Header_Get_def header_key_simps)
qed

text \<open>A state without rate limit whose cache repeats what the provider says, if it has an entry at all.\<close>

definition fresh_state :: "MemoryCache guard_state \<Rightarrow> bool" where
  "fresh_state st \<longleftrightarrow> gs_limiter st = None \<and> (\<forall>u c.
      (MemoryCache_Get u (gs_cache st) (HashToken (cr_Sum (en_crypto ex_env) SHA256) ''low'') = Some c \<longrightarrow> c = low_claims)
    \<and> (MemoryCache_Get u (gs_cache st) (HashToken (cr_Sum (en_crypto ex_env) SHA256) ''high'') = Some c \<longrightarrow> c = high_claims))"

lemma ex_fresh [simp]: "fresh_state ex_state" "fresh_state (ex_state\<lparr>gs_audit := a\<rparr>)"
  by (simp_all add: fresh_state_def ex_guard_sel)

lemma ex_introspect:
  assumes "fresh_state st"
  shows "\<exists>st'. guard_introspect ex_env memory_ops ex_guard (ex_call t) ex_provider ''low'' st = (Inr low_claims, st')"
    "\<exists>st'. guard_introspect ex_env memory_ops ex_guard (ex_call t) ex_provider ''high'' st = (Inr high_claims, st')"
  using assms
  by (auto simp: guard_introspect_def Let_def ex_guard_sel ex_provider_def fresh_state_def split: option.splits)

lemma ex_established:
  "token_established ex_env ex_guard ca ex_provider None low_claims"
  "token_established ex_env ex_guard ca ex_provider None high_claims"
  by (simp_all add: token_established_def ex_guard_sel low_claims_def high_claims_def ex_provider_def wit_provider_def)

text \<open>The two requests of a step-up: the protected resource with the first token, and the landing
  page with the second and the cookie.\<close>

definition ex_first :: http_request where
  "ex_first = ex_request ''POST'' ''/api/pay'' [(''Authorization'', [''Bearer low''])]"

definition ex_second :: "string \<Rightarrow> http_request" where
  "ex_second cookie = ex_request ''GET'' ''/callback'' [(''Authorization'', [''Bearer high'']), (''Cookie'', [cookie])]"

lemma ex_request_sel [simp]:
  "rq_Method (ex_request m p h) = m" "rq_Path (ex_request m p h) = p" "rq_Header (ex_request m p h) = h"
  "ca_now (ex_call t) = t" "rq_RawQuery (ex_request m p h) = []"
  by (simp_all add: ex_request_def ex_call_def)

lemma ex_authenticates:
  assumes "fresh_state st"
  shows "\<exists>st'. authenticates ex_env memory_ops ex_guard (ex_call t) ex_first st ''acme'' ex_provider ''low'' low_claims st'"
    "\<exists>st'. authenticates ex_env memory_ops ex_guard (ex_call t) (ex_second ck) st ''acme'' ex_provider ''high'' high_claims st'"
  using assms ex_introspect [OF assms, of t] ex_established [of "ex_call t"] ex_bearer
  by (simp_all add: authenticates_def ex_first_def ex_second_def ex_guard_sel static_resolve_def rate_passes_def
      proof_passes_def token_passes_def fresh_state_def)

text \<open>The landing page is forwarded; what the policy step leaves behind is an audit event.\<close>

lemma ex_policy:
  "\<exists>r' w'. serve_policy ex_env ex_guard (ex_call t) (ex_second []) high_claims ''acme'' new_response st
     = (Forwarded r' ''acme'' w', emit (EmitPolicyDecision t [] ''alice'' ''acme'' ''/callback'' ''GET'' [] [] True) st)"
  using ex_Evaluate(2) [of t high_claims] ex_decisions(3)
  by (auto simp: serve_policy_def serve_cookie_def forward_def ex_guard_sel ex_second_def ReadStateCookie_def
        request_Cookie_def readCookies_def Header_Values_def header_key_simps cookie_part_def TrimString_def CookieName_def)
    (simp_all add: ex_call_def high_claims_def low_claims_def)

lemma ex_forwarded:
  assumes "fresh_state st"
  shows "\<exists>r' w' st'. Guard_ServeHTTP ex_env memory_ops ex_guard (ex_call t) (ex_second []) new_response st
     = (Forwarded r' ''acme'' w', st')"
proof -
  obtain st' where "authenticates ex_env memory_ops ex_guard (ex_call t) (ex_second []) st ''acme''
      ex_provider ''high'' high_claims st'" using ex_authenticates(2) [OF assms] by blast
  from authenticates_serve [OF this] ex_policy show ?thesis by metis
qed

section \<open>A revocation event\<close>

definition ex_event :: http_request where
  "ex_event = ex_request ''POST'' ''/webhook/revoke'' [(''X-Hub-Signature-256'', [''sha256='' @ hex_EncodeToString ''wR''])]"

lemma ex_webhook:
  "\<exists>w'. Guard_RevocationHandler ex_env memory_ops ex_guard (ex_call 0) ex_event (Inr ''R'') new_response ex_state = (w', ex_state)
     \<and> rw_Status w' = Some 204"
proof -
  have sig: "verifyHMACSHA256 (cr_HMAC (en_crypto ex_env)) (Header_Get (rq_Header ex_event) ''X-Hub-Signature-256'') ''R'' ''w''"
  proof -
    have "Header_Get (rq_Header ex_event) ''X-Hub-Signature-256'' = ''sha256='' @ hex_EncodeToString ''wR''"
      by (simp add: ex_event_def Header_Get_def header_key_simps)
    then show ?thesis
      unfolding verifyHMACSHA256_def by (simp only: HasPrefix_append TrimPrefix_append hex_roundtrip)
        (simp add: ex_env_def wit_crypto_def)
  qed
  have del: "MemoryCache_Delete NewMemoryCache k = (None, NewMemoryCache)" for k
    by (simp add: MemoryCache_Delete_def NewMemoryCache_def)
  have cfg: "g_webhookSecret ex_guard = ''w''" "ex_state\<lparr>gs_cache := NewMemoryCache\<rparr> = ex_state"
    by (simp_all add: ex_guard_def ex_state_def NewGuard_def ex_guard_config_def Let_def)
  have ev: "json_parse (en_codec ex_env) ''R'' = Some (JObj [(''token_hash'', JStr (HashToken (cr_Sum wit_crypto SHA256) ''high''))])"
    "into_struct event_member (JObj [(''token_hash'', JStr (HashToken (cr_Sum wit_crypto SHA256) ''high''))]) empty_event
      = Inr (empty_event\<lparr>ev_TokenHash := HashToken (cr_Sum wit_crypto SHA256) ''high''\<rparr>)"
    by (simp_all add: ex_env_def event_member_def fold_simps)
  have "rq_Method ex_event = ''POST''" by (simp add: ex_event_def)
  moreover have "process memory_ops t NewMemoryCache (empty_event\<lparr>ev_TokenHash := h\<rparr>) = (None, NewMemoryCache)" if "h \<noteq> []" for t h
    using that by (simp add: process_def del)
  moreover have "HashToken (cr_Sum wit_crypto SHA256) ''high'' \<noteq> []" by (simp add: HashToken_def wit_crypto_def)
  ultimately show ?thesis
    using sig cfg ev ex_guard_sel
    by (simp add: Guard_RevocationHandler_def Revocation_ServeHTTP_def Let_def http_simps new_response_def)
qed

end
