(* ===== verification/Guard_History.thy ===== *)
theory Guard_History
  imports Example
begin

text \<open>
  Histories of a guard.  Requests, webhook calls and ticks of the cache's clean-up goroutine arrive in
  any order; every request may meet another configuration of the guard and another answer of the
  provider, since both change while the process runs.  Whatever happened before, the claims that a
  forwarded request carries were given by a provider at most thirty seconds earlier, the life time
  \<^verbatim>\<open>guard.go\<close> gives to a cache entry, and after the webhook has accepted a token's revocation they were
  given after it.
\<close>

section \<open>Events\<close>

abbreviation token_hash :: "environment \<Rightarrow> string \<Rightarrow> string" where
  "token_hash en \<equiv> HashToken (cr_Sum (en_crypto en) SHA256)"

datatype guard_event =
    GServe Guard call http_request response
  | GWebhook Guard call http_request "string result" response
  | GTick time

fun event_time :: "guard_event \<Rightarrow> time" where
  "event_time (GServe g ca r w) = ca_now ca"
| "event_time (GWebhook g ca r read w) = ca_now ca"
| "event_time (GTick t) = t"

fun guard_step :: "environment \<Rightarrow> guard_event \<Rightarrow> MemoryCache guard_state \<Rightarrow> MemoryCache guard_state" where
  "guard_step en (GServe g ca r w) st = snd (Guard_ServeHTTP en memory_ops g ca r w st)"
| "guard_step en (GWebhook g ca r read w) st = snd (Guard_RevocationHandler en memory_ops g ca r read w st)"
| "guard_step en (GTick t) st = st\<lparr>gs_cache := MemoryCache_cleanup t (gs_cache st)\<rparr>"

definition guard_run :: "environment \<Rightarrow> guard_event list \<Rightarrow> MemoryCache guard_state \<Rightarrow> MemoryCache guard_state" where
  "guard_run en es st = fold (guard_step en) es st"

text \<open>The answers that providers give in a history, with the time and the hash of the token.  The guard
  asks the provider of the tenant when the request has passed the rate limit, the tenant, the bearer
  token and the proof of possession, and the cache has no entry for the token.\<close>

definition introspect_asked ::
  "environment \<Rightarrow> 's cache_ops \<Rightarrow> Guard \<Rightarrow> call \<Rightarrow> Provider \<Rightarrow> string \<Rightarrow> 's guard_state \<Rightarrow> (time \<times> string \<times> CommonClaims) list" where
  "introspect_asked en c g ca provider token st =
     (case (if g_cache g then co_Get c (ca_now ca) (gs_cache st) (HashToken (cr_Sum (en_crypto en) SHA256) token) else None) of
        Some cached \<Rightarrow> []
      | None \<Rightarrow> (case pv_Introspect provider token of Inl _ \<Rightarrow> []
          | Inr claims \<Rightarrow> [(ca_now ca, HashToken (cr_Sum (en_crypto en) SHA256) token, claims)]))"

definition dpop_asked ::
  "environment \<Rightarrow> 's cache_ops \<Rightarrow> Guard \<Rightarrow> call \<Rightarrow> http_request \<Rightarrow> Provider \<Rightarrow> string \<Rightarrow> 's guard_state
     \<Rightarrow> (time \<times> string \<times> CommonClaims) list" where
  "dpop_asked en c g ca r provider token st =
     (if \<not> g_enableDPoP g then introspect_asked en c g ca provider token st
      else (case guard_dpop en c g ca r token st of
          (Inl _, st') \<Rightarrow> [] | (Inr _, st') \<Rightarrow> introspect_asked en c g ca provider token st'))"

definition tenant_asked ::
  "environment \<Rightarrow> 's cache_ops \<Rightarrow> Guard \<Rightarrow> call \<Rightarrow> http_request \<Rightarrow> 's guard_state \<Rightarrow> (time \<times> string \<times> CommonClaims) list" where
  "tenant_asked en c g ca r st = (case Resolve (g_resolver g) r of
       Resolved t \<Rightarrow> (case Registry_Get (g_registry g) t of Inl _ \<Rightarrow> []
         | Inr provider \<Rightarrow> (case ExtractBearerToken (Header_Get (rq_Header r) ''Authorization'') of Inl _ \<Rightarrow> []
             | Inr token \<Rightarrow> dpop_asked en c g ca r provider token st))
     | _ \<Rightarrow> [])"

definition request_asked ::
  "environment \<Rightarrow> 's cache_ops \<Rightarrow> Guard \<Rightarrow> call \<Rightarrow> http_request \<Rightarrow> 's guard_state \<Rightarrow> (time \<times> string \<times> CommonClaims) list" where
  "request_asked en c g ca r st = (case gs_limiter st of None \<Rightarrow> tenant_asked en c g ca r st
     | Some rl \<Rightarrow> (case allow (en_rnd en) (ca_now ca) (clientKey r) rl of
         (False, rl') \<Rightarrow> [] | (True, rl') \<Rightarrow> tenant_asked en c g ca r (st\<lparr>gs_limiter := Some rl'\<rparr>)))"

fun event_answers :: "environment \<Rightarrow> MemoryCache guard_state \<Rightarrow> guard_event \<Rightarrow> (time \<times> string \<times> CommonClaims) list" where
  "event_answers en st (GServe g ca r w) = request_asked en memory_ops g ca r st"
| "event_answers en st _ = []"

fun answers :: "environment \<Rightarrow> MemoryCache guard_state \<Rightarrow> guard_event list \<Rightarrow> (time \<times> string \<times> CommonClaims) list" where
  "answers en st [] = []"
| "answers en st (e # es) = event_answers en st e @ answers en (guard_step en e st) es"

lemma answers_append: "answers en st (es @ fs) = answers en st es @ answers en (guard_run en es st) fs"
  by (induction es arbitrary: st) (simp_all add: guard_run_def)

lemma introspect_asked_time: "list_all (\<lambda>a. fst a = ca_now ca) (introspect_asked en ops g ca provider token st)"
  by (simp add: introspect_asked_def split: option.splits sum.splits)

lemma dpop_asked_time: "list_all (\<lambda>a. fst a = ca_now ca) (dpop_asked en ops g ca r provider token st)"
  by (simp add: dpop_asked_def introspect_asked_time split: sum.splits prod.splits)

lemma tenant_asked_time: "list_all (\<lambda>a. fst a = ca_now ca) (tenant_asked en ops g ca r st)"
  by (simp add: tenant_asked_def dpop_asked_time split: sum.splits resolved.splits)

lemma request_asked_time: "(t, h, c) \<in> set (request_asked en ops g ca r st) \<Longrightarrow> t = ca_now ca"
proof -
  have "list_all (\<lambda>a. fst a = ca_now ca) (request_asked en ops g ca r st)"
    by (simp add: request_asked_def tenant_asked_time split: option.splits prod.splits bool.splits)
  then show "(t, h, c) \<in> set (request_asked en ops g ca r st) \<Longrightarrow> t = ca_now ca" by (auto simp: list_all_iff)
qed

lemma answers_time: "(t, h, c) \<in> set (answers en st es) \<Longrightarrow> t \<in> event_time ` set es"
proof (induction es arbitrary: st)
  case (Cons e es)
  then show ?case by (cases e) (auto dest: request_asked_time)
qed simp

section \<open>What one request does to the cache\<close>

text \<open>After the introspection nothing touches the cache, and only a denial counts anything.\<close>

lemma emit_keeps [simp]: "gs_cache (emit f st) = gs_cache st" "gs_metrics (emit f st) = gs_metrics st"
  by (simp_all add: emit_def)

lemma count_keeps [simp]: "gs_cache (count n ls st) = gs_cache st"
  by (simp add: count_def)

lemma reject_keeps [simp]:
  "gs_cache (snd (reject g ca r code desc w st)) = gs_cache st" "gs_metrics (snd (reject g ca r code desc w st)) = gs_metrics st"
  by (simp_all add: reject_def issueChallenge_def Let_def)

lemma finish_flow_keeps:
  "gs_cache (snd (finish_flow g ca r saved flow w st)) = gs_cache st"
  "gs_metrics (snd (finish_flow g ca r saved flow w st)) = gs_metrics st"
  by (simp_all add: finish_flow_def issueChallenge_def Let_def split: prod.splits)

lemma completeStepUp_keeps:
  "gs_cache (snd (completeStepUp g ca r saved claims t w st)) = gs_cache st"
  "gs_metrics (snd (completeStepUp g ca r saved claims t w st)) = gs_metrics st"
  by (simp_all add: completeStepUp_def issueChallenge_def Let_def finish_flow_keeps split: option.splits sum.splits)

lemma serve_cookie_keeps:
  "gs_cache (snd (serve_cookie en g ca r claims t w st)) = gs_cache st \<and> gs_metrics (snd (serve_cookie en g ca r claims t w st)) = gs_metrics st"
proof -
  have "gs_cache st' = gs_cache st \<and> gs_metrics st' = gs_metrics st"
    if "completeStepUp g ca r saved claims t w st = (res, st')" for saved res st'
    using that completeStepUp_keeps [of g ca r saved claims t w st] by simp
  then show ?thesis by (auto simp: serve_cookie_def split: sum.splits option.splits prod.splits)
qed

lemma serve_policy_cache [simp]: "gs_cache (snd (serve_policy en g ca r claims t w st)) = gs_cache st"
  by (simp add: serve_policy_def serve_cookie_keeps handleDenial_def Let_def split: option.splits sum.splits)

lemma serve_token_cache:
  "gs_cache (snd (serve_token en c g ca r t provider token pf w st)) = gs_cache (snd (guard_introspect en c g ca provider token st))"
  by (simp add: serve_token_def split: prod.splits sum.splits option.splits)

text \<open>A cached entry of a token is as old as the answer it stems from.\<close>

definition sourced ::
  "'s cache_ops \<Rightarrow> (CommonClaims \<Rightarrow> CommonClaims) \<Rightarrow> string \<Rightarrow> (time \<times> string \<times> CommonClaims) list \<Rightarrow> 's \<Rightarrow> bool" where
  "sourced ops nf h hist s \<longleftrightarrow> (\<forall>u claims. co_Get ops u s h = Some claims \<longrightarrow>
     (\<exists>t0 c0. (t0, h, c0) \<in> set hist \<and> cc_Active c0 \<and> claims = nf c0 \<and> u \<le> t0 + 30 * Second))"

lemma sourcedD:
  assumes "sourced ops nf h hist s" "co_Get ops u s h = Some claims"
  obtains t0 c0 where "(t0, h, c0) \<in> set hist" "cc_Active c0" "claims = nf c0" "u \<le> t0 + 30 * Second"
  using assms unfolding sourced_def by blast

lemma sourced_none: "(\<And>u. co_Get ops u s h = None) \<Longrightarrow> sourced ops nf h hist s"
  by (simp add: sourced_def)

lemma sourced_fewer:
  assumes "sourced ops nf h hist s" "\<And>u c. co_Get ops u s' h = Some c \<Longrightarrow> co_Get ops u s h = Some c" "set hist \<subseteq> set hist'"
  shows "sourced ops nf h hist' s'"
  using assms unfolding sourced_def by blast

lemma clamp_ttl_le: "clamp_ttl now ttl claims \<le> ttl"
  by (simp add: clamp_ttl_def)

context token_cache
begin

lemma sourced_introspect:
  assumes "sourced ops norm (token_hash en k) hist (gs_cache st)"
  shows "sourced ops norm (token_hash en k) (hist @ introspect_asked en ops g ca provider token st)
    (gs_cache (snd (guard_introspect en ops g ca provider token st)))"
proof (cases "gs_cache (snd (guard_introspect en ops g ca provider token st)) = gs_cache st")
  case True
  with sourced_fewer [OF assms, of "gs_cache st"] show ?thesis by simp
next
  case False
  let ?s = "\<lambda>c0. cache_token ops (ca_now ca) (gs_cache st) (token_hash en token) c0 (clamp_ttl (ca_now ca) (30 * Second) c0)"
  obtain c0 where c0: "cc_Active c0" "introspect_asked en ops g ca provider token st = [(ca_now ca, token_hash en token, c0)]"
    "gs_cache (snd (guard_introspect en ops g ca provider token st)) = ?s c0"
    using False by (auto simp: guard_introspect_def introspect_asked_def Let_def split: option.splits sum.splits if_splits)
  show ?thesis unfolding sourced_def c0(2,3)
  proof (intro allI impI)
    fix u claims assume g: "co_Get ops u (?s c0) (token_hash en k) = Some claims"
    show "\<exists>t0 c1. (t0, token_hash en k, c1) \<in> set (hist @ [(ca_now ca, token_hash en token, c0)]) \<and> cc_Active c1 \<and> claims = norm c1
        \<and> u \<le> t0 + 30 * Second"
    proof (cases "token_hash en k = token_hash en token")
      case True
      with g have "claims = norm c0" "u \<le> ca_now ca + clamp_ttl (ca_now ca) (30 * Second) c0"
        by (simp_all add: get_cache_token split: if_splits)
      with c0(1) True clamp_ttl_le [of "ca_now ca" "30 * Second" c0] show ?thesis by fastforce
    next
      case False
      with g have "co_Get ops u (gs_cache st) (token_hash en k) = Some claims" by (simp add: get_cache_token)
      then obtain t0 c1 where "(t0, token_hash en k, c1) \<in> set hist" "cc_Active c1" "claims = norm c1" "u \<le> t0 + 30 * Second"
        using sourcedD [OF assms] by blast
      then show ?thesis by (intro exI [of _ t0] exI [of _ c1]) simp
    qed
  qed
qed

lemma dpop_get:
  "co_Get ops u (gs_cache (snd (guard_dpop en ops g ca r token st))) (HashToken sha k) = co_Get ops u (gs_cache st) (HashToken sha k)"
  using dpop_key_not_hash [THEN not_sym]
  by (auto simp: guard_dpop_def Validate_def Let_def get_set split: sum.splits option.splits prod.splits)

lemma sourced_dpop:
  "sourced ops norm (HashToken sha k) hist (gs_cache (snd (guard_dpop en ops g ca r token st)))
     = sourced ops norm (HashToken sha k) hist (gs_cache st)"
  by (simp add: sourced_def dpop_get)

lemma sourced_serve_dpop:
  assumes "sourced ops norm (token_hash en k) hist (gs_cache st)"
  shows "sourced ops norm (token_hash en k) (hist @ dpop_asked en ops g ca r provider token st)
    (gs_cache (snd (serve_dpop en ops g ca r t provider token w st)))"
proof (cases "g_enableDPoP g")
  case True
  obtain res st' where d: "guard_dpop en ops g ca r token st = (res, st')" by fastforce
  then have s': "sourced ops norm (token_hash en k) hist (gs_cache st')"
    using sourced_dpop [of _ k hist en g ca r token st] assms(1) by simp
  with sourced_introspect [OF s'] True d show ?thesis
    by (auto simp: serve_dpop_def dpop_asked_def serve_token_cache split: sum.splits option.splits)
qed (use sourced_introspect [OF assms] in \<open>simp add: serve_dpop_def dpop_asked_def serve_token_cache\<close>)

lemma sourced_serve_tenant:
  assumes "sourced ops norm (token_hash en k) hist (gs_cache st)"
  shows "sourced ops norm (token_hash en k) (hist @ tenant_asked en ops g ca r st) (gs_cache (snd (serve_tenant en ops g ca r w st)))"
  using assms sourced_serve_dpop [OF assms]
  by (auto simp: serve_tenant_def tenant_asked_def split: resolved.splits sum.splits)

text \<open>One request.\<close>

lemma sourced_serve:
  assumes "sourced ops norm (token_hash en k) hist (gs_cache st)"
  shows "sourced ops norm (token_hash en k) (hist @ request_asked en ops g ca r st) (gs_cache (snd (Guard_ServeHTTP en ops g ca r w st)))"
proof -
  have "sourced ops norm (token_hash en k) (hist @ tenant_asked en ops g ca r (st\<lparr>gs_limiter := rl\<rparr>))
      (gs_cache (snd (serve_tenant en ops g ca r w (st\<lparr>gs_limiter := rl\<rparr>))))" for rl
    using assms by (intro sourced_serve_tenant) simp
  then show ?thesis using assms sourced_serve_tenant [OF assms]
    by (auto simp: Guard_ServeHTTP_def request_asked_def split: option.splits prod.splits bool.splits)
qed

text \<open>One call of the webhook.\<close>

lemma webhook_get:
  "co_Get ops u (gs_cache (snd (Guard_RevocationHandler en ops g ca r read w st))) k = Some c \<Longrightarrow> co_Get ops u (gs_cache st) k = Some c"
  by (auto simp: Guard_RevocationHandler_def Revocation_ServeHTTP_def Let_def
      split: if_splits sum.splits option.splits prod.splits dest: get_process) (metis get_process snd_conv)+

lemma authenticates_asked:
  assumes "authenticates en ops g ca r st t provider token claims st'"
  shows "(ca_now ca, token_hash en token, claims) \<in> set (request_asked en ops g ca r st)
    \<or> co_Get ops (ca_now ca) (gs_cache st) (token_hash en token) = Some claims"
proof -
  obtain st1 st2 pf where rate: "rate_passes en ca r st st1" and pf: "proof_passes en ops g ca r token st1 pf st2"
    and tok: "token_passes en ops g ca provider token pf st2 claims st'"
    and res: "Resolve (g_resolver g) r = Resolved t" "Registry_Get (g_registry g) t = Inr provider"
      "ExtractBearerToken (Header_Get (rq_Header r) ''Authorization'') = Inr token"
    using assms by (auto simp: authenticates_def)
  have "request_asked en ops g ca r st = tenant_asked en ops g ca r st1" "gs_cache st1 = gs_cache st"
    using rate by (auto simp: request_asked_def rate_passes_def split: option.splits)
  moreover have "tenant_asked en ops g ca r st1 = introspect_asked en ops g ca provider token st2"
    using pf res by (auto simp: tenant_asked_def dpop_asked_def proof_passes_def split: if_splits)
  moreover have "(ca_now ca, token_hash en token, claims) \<in> set (introspect_asked en ops g ca provider token st2)
      \<or> co_Get ops (ca_now ca) (gs_cache st2) (token_hash en token) = Some claims"
    using tok by (auto simp: token_passes_def guard_introspect_def introspect_asked_def Let_def
        split: option.splits sum.splits if_splits)
  ultimately show ?thesis using proof_passes_get [OF pf] by metis
qed

lemma forwarded_claims:
  assumes "Guard_ServeHTTP en ops g ca r w st = (Forwarded r' t w', st')"
  obtains token claims where "ExtractBearerToken (Header_Get (rq_Header r) ''Authorization'') = Inr token"
    "rq_Header r' = identity_headers claims t (rq_Header r)" "cc_Active claims"
    "(ca_now ca, token_hash en token, claims) \<in> set (request_asked en ops g ca r st)
     \<or> co_Get ops (ca_now ca) (gs_cache st) (token_hash en token) = Some claims"
proof -
  obtain provider token claims st1 where auth: "authenticates en ops g ca r st t provider token claims st1"
    and pol: "serve_policy en g ca r claims t w st1 = (Forwarded r' t w', st')"
    using Guard_ForwardedD [OF assms] .
  obtain pf where est: "token_established en g ca provider pf claims" using authenticates_established [OF auth] by blast
  show thesis
    using that [of token claims] auth est authenticates_asked [OF auth] serve_policy_ForwardedD [OF pol]
    by (simp add: authenticates_def token_established_def)
qed

end

section \<open>Histories\<close>

lemma sourced_step:
  assumes "sourced memory_ops id (token_hash en k) hist (gs_cache st)"
  shows "sourced memory_ops id (token_hash en k) (hist @ event_answers en st e) (gs_cache (guard_step en e st))"
proof (cases e)
  case (GServe g ca r w)
  with mc.sourced_serve [OF assms] show ?thesis by simp
next
  case (GWebhook g ca r read w)
  show ?thesis unfolding GWebhook guard_step.simps
    by (rule sourced_fewer [OF assms]) (erule mc.webhook_get, simp)
next
  case (GTick t)
  show ?thesis unfolding GTick guard_step.simps
    by (rule sourced_fewer [OF assms])
      (auto simp: MemoryCache_Get_def MemoryCache_cleanup_def split: option.splits if_splits)
qed

lemma sourced_run:
  "sourced memory_ops id (token_hash en k) hist (gs_cache st) \<Longrightarrow>
   sourced memory_ops id (token_hash en k) (hist @ answers en st es) (gs_cache (guard_run en es st))"
proof (induction es arbitrary: st hist)
  case (Cons e es)
  from Cons.IH [OF sourced_step [OF Cons.prems]] show ?case by (simp add: guard_run_def)
qed (simp add: guard_run_def)

text \<open>What a request is forwarded with after a history that starts without an entry for its token.\<close>

lemma forwarded_after:
  assumes "\<And>u. MemoryCache_Get u (gs_cache st0) (token_hash en token) = None"
    and "ExtractBearerToken (Header_Get (rq_Header r) ''Authorization'') = Inr token"
    and "Guard_ServeHTTP en memory_ops g ca r w (guard_run en es st0) = (Forwarded r' t w', st')"
  obtains claims t0 where "rq_Header r' = identity_headers claims t (rq_Header r)" "cc_Active claims"
    "(t0, token_hash en token, claims) \<in> set (answers en st0 (es @ [GServe g ca r w]))" "ca_now ca \<le> t0 + 30 * Second"
proof -
  obtain token' claims where f: "ExtractBearerToken (Header_Get (rq_Header r) ''Authorization'') = Inr token'"
    "rq_Header r' = identity_headers claims t (rq_Header r)" "cc_Active claims"
    "(ca_now ca, token_hash en token', claims) \<in> set (request_asked en memory_ops g ca r (guard_run en es st0))
     \<or> co_Get memory_ops (ca_now ca) (gs_cache (guard_run en es st0)) (token_hash en token') = Some claims"
    using mc.forwarded_claims [OF assms(3)] .
  have [simp]: "token' = token" using f(1) assms(2) by simp
  have src: "sourced memory_ops id (token_hash en token) (answers en st0 es) (gs_cache (guard_run en es st0))"
    using sourced_run [OF sourced_none, where hist = "[]" and es = es and en = en and k = token and st = st0] assms(1) by simp
  from f(4) show thesis
  proof
    assume "(ca_now ca, token_hash en token', claims) \<in> set (request_asked en memory_ops g ca r (guard_run en es st0))"
    with f(2,3) show thesis by (intro that [of claims "ca_now ca"]) (simp_all add: answers_append)
  next
    assume "co_Get memory_ops (ca_now ca) (gs_cache (guard_run en es st0)) (token_hash en token') = Some claims"
    then have "co_Get memory_ops (ca_now ca) (gs_cache (guard_run en es st0)) (token_hash en token) = Some claims" by simp
    from sourcedD [OF src this] f(2,3) that show thesis by (auto simp: answers_append)
  qed
qed

section \<open>Properties\<close>

text \<open>C15: a revocation or a change at the authorization server takes effect within thirty seconds, also
  when no webhook call announces it.  After any history of requests, webhook calls and clean-up
  ticks along an advancing clock that started with an empty cache, the identity headers of a
  forwarded request are those of claims that a provider, asked in the course of this history or for
  the request itself, gave for a token with this hash at most thirty seconds before.  Requests are
  handled one after the other here; requests that overlap are the subject of \<open>concurrent_staleness\<close>.\<close>

theorem staleness_bound:
  assumes "gs_cache st0 = NewMemoryCache" "sorted (map event_time es @ [ca_now ca])"
    and "Guard_ServeHTTP en memory_ops g ca r w (guard_run en es st0) = (Forwarded r' t w', st')"
  shows "\<exists>token claims t0. ExtractBearerToken (Header_Get (rq_Header r) ''Authorization'') = Inr token
    \<and> rq_Header r' = identity_headers claims t (rq_Header r) \<and> cc_Active claims
    \<and> (t0, HashToken (cr_Sum (en_crypto en) SHA256) token, claims) \<in> set (answers en st0 (es @ [GServe g ca r w]))
    \<and> t0 \<le> ca_now ca \<and> ca_now ca - t0 \<le> 30 * Second"
proof -
  obtain token where tok: "ExtractBearerToken (Header_Get (rq_Header r) ''Authorization'') = Inr token"
    using mc.forwarded_claims [OF assms(3)] by metis
  obtain claims t0 where src: "rq_Header r' = identity_headers claims t (rq_Header r)" "cc_Active claims"
    "(t0, token_hash en token, claims) \<in> set (answers en st0 (es @ [GServe g ca r w]))" "ca_now ca \<le> t0 + 30 * Second"
    using forwarded_after [OF _ tok assms(3)] assms(1) by auto
  have "t0 \<le> ca_now ca" using answers_time [OF src(3)] assms(2) by (auto simp: sorted_append)
  with tok src show ?thesis by fastforce
qed

text \<open>C16: a revocation is final in every sequential history.  Once the guard's webhook handler has accepted
  an event for the hash of a token (it answers 204), then after any further history of whole requests, webhook
  calls and clean-up ticks, one after the other, a request with that token is forwarded only with claims
  that a provider, asked after the revocation, gave for it.  An introspection that is under way while the
  webhook is called is not covered; \<open>revocation_race\<close> shows what it can do.\<close>

theorem revocation_final:
  assumes "g_cache g1" "Guard_RevocationHandler en memory_ops g1 ca1 r1 (Inr stream) w1 st1 = (w1', st2)" "rw_Status w1 = None"
    and "rw_Status w1' = Some 204"
    and "json_parse (en_codec en) (take (2 ^ 20) stream) = Some j" "into_struct event_member j empty_event = Inr ev"
    and "ev_TokenHash ev = HashToken (cr_Sum (en_crypto en) SHA256) token" "ev_TokenHash ev \<noteq> []"
    and "ExtractBearerToken (Header_Get (rq_Header r2) ''Authorization'') = Inr token"
    and "Guard_ServeHTTP en memory_ops g2 ca2 r2 w2 (guard_run en es st2) = (Forwarded r' t w', st3)"
  shows "\<exists>claims t0. rq_Header r' = identity_headers claims t (rq_Header r2) \<and> cc_Active claims
    \<and> (t0, HashToken (cr_Sum (en_crypto en) SHA256) token, claims) \<in> set (answers en st2 (es @ [GServe g2 ca2 r2 w2]))"
proof -
  have "gs_cache st2 = snd (MemoryCache_Delete (gs_cache st1) (token_hash en token))"
    using assms(1-8)
    by (auto simp: Guard_RevocationHandler_def Revocation_ServeHTTP_def Let_def process_def http_simps
        split: prod.splits if_splits option.splits)
  then have "MemoryCache_Get u (gs_cache st2) (token_hash en token) = None" for u
    using mc.get_delete by simp
  from forwarded_after [OF this assms(9,10)] show ?thesis by metis
qed

section \<open>The example\<close>

text \<open>A request at ten seconds that is forwarded and cached, a tick of the clean-up, and the same request
  at twenty seconds, which is served from the cache.\<close>

definition ex_cached :: "MemoryCache guard_state" where
  "ex_cached = ex_state\<lparr>gs_cache := cache_token memory_ops (10 * Second) NewMemoryCache (token_hash ex_env ''high'') high_claims
     (30 * Second)\<rparr>"

definition ex_history :: "guard_event list" where
  "ex_history = [GServe ex_guard (ex_call (10 * Second)) (ex_second []) new_response, GTick (15 * Second)]"

lemma ex_hash: "token_hash ex_env ''low'' \<noteq> token_hash ex_env ''high''"
proof
  assume "token_hash ex_env ''low'' = token_hash ex_env ''high''"
  then have "hex_EncodeToString ''low'' = hex_EncodeToString ''high''" by (simp add: HashToken_def ex_env_def wit_crypto_def)
  then have "hex_DecodeString (hex_EncodeToString ''low'') = hex_DecodeString (hex_EncodeToString ''high'')" by simp
  then show False by (simp only: hex_roundtrip) simp
qed

lemma ex_first_serve:
  "snd (Guard_ServeHTTP ex_env memory_ops ex_guard (ex_call (10 * Second)) (ex_second []) new_response ex_state) = ex_cached"
proof -
  have ttl: "clamp_ttl (10 * Second) (30 * Second) high_claims = 30 * Second"
    by (simp add: clamp_ttl_def high_claims_def low_claims_def empty_claims_def IsZero_def)
  have "guard_introspect ex_env memory_ops ex_guard (ex_call (10 * Second)) ex_provider ''high'' ex_state = (Inr high_claims, ex_cached)"
    using ttl by (simp add: guard_introspect_def Let_def ex_guard_sel ex_provider_def ex_cached_def)
      (simp add: high_claims_def low_claims_def)
  then have "authenticates ex_env memory_ops ex_guard (ex_call (10 * Second)) (ex_second []) ex_state ''acme''
      ex_provider ''high'' high_claims ex_cached"
    using ex_established(2) ex_bearer(2)
    by (simp add: authenticates_def ex_second_def ex_guard_sel static_resolve_def rate_passes_def proof_passes_def token_passes_def)
  moreover have "emit f ex_cached = ex_cached" for f
    by (simp add: emit_def ex_cached_def ex_state_def NewGuard_def ex_guard_config_def Let_def)
  ultimately show ?thesis using authenticates_serve ex_policy [of "10 * Second" ex_cached] by (metis snd_conv)
qed

lemma ex_history_fresh: "fresh_state (guard_run ex_env ex_history ex_state)"
proof -
  have run: "guard_run ex_env ex_history ex_state = ex_cached\<lparr>gs_cache := MemoryCache_cleanup (15 * Second) (gs_cache ex_cached)\<rparr>"
    by (simp only: guard_run_def ex_history_def List.fold_simps guard_step.simps ex_first_serve)
  let ?get = "\<lambda>u k. MemoryCache_Get u (MemoryCache_cleanup (15 * Second) (gs_cache ex_cached)) (token_hash ex_env k)"
  have tick: "?get u k = Some c \<Longrightarrow> MemoryCache_Get u (gs_cache ex_cached) (token_hash ex_env k) = Some c" for u k c
    by (auto simp: MemoryCache_Get_def MemoryCache_cleanup_def split: option.splits if_splits)
  have "?get u k = Some c \<Longrightarrow> c = high_claims \<and> token_hash ex_env k = token_hash ex_env ''high''" for u k c
    using tick [of u k c]
      mc.get_cache_token [of "token_hash ex_env k" u "10 * Second" NewMemoryCache "token_hash ex_env ''high''" high_claims "30 * Second"]
    by (simp add: ex_cached_def split: if_splits)
  with ex_hash have "?get u ''low'' = Some c \<Longrightarrow> c = low_claims" "?get u ''high'' = Some c \<Longrightarrow> c = high_claims" for u c
    by metis+
  moreover have "gs_limiter ex_cached = None" by (simp add: ex_cached_def ex_guard_sel)
  ultimately show ?thesis by (simp add: run fresh_state_def)
qed

theorem staleness_bound_witness:
  "\<exists>r' w' st' claims t0. Guard_ServeHTTP ex_env memory_ops ex_guard (ex_call (20 * Second)) (ex_second []) new_response
       (guard_run ex_env ex_history ex_state) = (Forwarded r' ''acme'' w', st')
    \<and> (t0, HashToken (cr_Sum (en_crypto ex_env) SHA256) ''high'', claims)
        \<in> set (answers ex_env ex_state (ex_history @ [GServe ex_guard (ex_call (20 * Second)) (ex_second []) new_response]))
    \<and> t0 \<le> 20 * Second \<and> 20 * Second - t0 \<le> 30 * Second"
proof -
  obtain r' w' st' where f: "Guard_ServeHTTP ex_env memory_ops ex_guard (ex_call (20 * Second)) (ex_second []) new_response
       (guard_run ex_env ex_history ex_state) = (Forwarded r' ''acme'' w', st')"
    using ex_forwarded [OF ex_history_fresh] by blast
  have "sorted (map event_time ex_history @ [ca_now (ex_call (20 * Second))])" by (simp add: ex_history_def)
  from staleness_bound [OF ex_guard_sel(10) this f] f show ?thesis
    using ex_bearer(2) by (fastforce simp: ex_second_def)
qed

theorem revocation_final_witness:
  "\<exists>claims t0. cc_Active claims \<and> (t0, HashToken (cr_Sum (en_crypto ex_env) SHA256) ''high'', claims)
     \<in> set (answers ex_env ex_state (ex_history @ [GServe ex_guard (ex_call (20 * Second)) (ex_second []) new_response]))"
proof -
  obtain w' where hook: "Guard_RevocationHandler ex_env memory_ops ex_guard (ex_call 0) ex_event (Inr ''R'') new_response ex_state
      = (w', ex_state)" "rw_Status w' = Some 204" using ex_webhook by blast
  obtain r' w'' st' where fwd: "Guard_ServeHTTP ex_env memory_ops ex_guard (ex_call (20 * Second)) (ex_second []) new_response
     (guard_run ex_env ex_history ex_state) = (Forwarded r' ''acme'' w'', st')" using ex_forwarded [OF ex_history_fresh] by blast
  let ?h = "HashToken (cr_Sum (en_crypto ex_env) SHA256) ''high''"
  have p: "json_parse (en_codec ex_env) (take (2 ^ 20) ''R'') = Some (JObj [(''token_hash'', JStr ?h)])"
    "into_struct event_member (JObj [(''token_hash'', JStr ?h)]) empty_event = Inr (empty_event\<lparr>ev_TokenHash := ?h\<rparr>)"
    "ev_TokenHash (empty_event\<lparr>ev_TokenHash := ?h\<rparr>) = ?h" "ev_TokenHash (empty_event\<lparr>ev_TokenHash := ?h\<rparr>) \<noteq> []"
    by (simp_all add: ex_env_def event_member_def fold_simps HashToken_def wit_crypto_def)
  have b: "ExtractBearerToken (Header_Get (rq_Header (ex_second [])) ''Authorization'') = Inr ''high''" "rw_Status new_response = None"
    using ex_bearer(2) by (simp_all add: ex_second_def new_response_def)
  from revocation_final [OF ex_guard_sel(6) hook(1) b(2) hook(2) p b(1) fwd] show ?thesis by blast
qed

end
