(* ===== verification/Metrics.thy ===== *)
theory Metrics
  imports Guard_History
begin

text \<open>
  Prometheus metrics (\<^verbatim>\<open>pkg/telemetry/metrics.go\<close>): the seven metrics with the names, help texts,
  buckets and labels they are registered with, and what the guard counts.  The constructors of the
  client library are a parameter.  \<^verbatim>\<open>WithLabelValues\<close> panics unless it gets one value for each label, so
  every increment of the guard must fit the registration of its counter.
\<close>

section \<open>Registration\<close>

text \<open>The constructors of \<^verbatim>\<open>promauto\<close>, with the options the source sets.  Buckets are exact fractions.\<close>

record ('c, 'h, 'g) metrics_factory =
  NewCounterVec :: "string \<Rightarrow> string \<Rightarrow> string list \<Rightarrow> 'c"
  NewHistogramVec :: "string \<Rightarrow> string \<Rightarrow> rat list \<Rightarrow> string list \<Rightarrow> 'h"
  NewGauge :: "string \<Rightarrow> string \<Rightarrow> 'g"

record ('c, 'h, 'g) Metrics =
  mx_StepUpTotal :: 'c
  mx_StepUpSuccessTotal :: 'c
  mx_TokenValidationDuration :: 'h
  mx_TokenCacheHitTotal :: 'c
  mx_PolicyEvalDuration :: 'h
  mx_PolicyDeniedTotal :: 'c
  mx_ActiveTenants :: 'g

text \<open>\<open>defBuckets\<close> is \<^verbatim>\<open>prometheus.DefBuckets\<close>.\<close>

definition NewMetrics :: "('c, 'h, 'g) metrics_factory \<Rightarrow> rat list \<Rightarrow> ('c, 'h, 'g) Metrics" where
  "NewMetrics factory defBuckets =
     \<lparr>mx_StepUpTotal = NewCounterVec factory ''iam_stepup_challenges_total''
        ''Total number of step-up authentication challenges issued.'' [''tenant'', ''required_acr'', ''method''],
      mx_StepUpSuccessTotal = NewCounterVec factory ''iam_stepup_success_total''
        ''Total number of successful step-up authentication completions.'' [''tenant''],
      mx_TokenValidationDuration = NewHistogramVec factory ''iam_token_validation_duration_seconds''
        ''Duration of token validation (introspection + cache lookup).'' defBuckets [''tenant'', ''provider'', ''cache_hit''],
      mx_TokenCacheHitTotal = NewCounterVec factory ''iam_token_cache_total''
        ''Token cache hits and misses.'' [''tenant'', ''result''],
      mx_PolicyEvalDuration = NewHistogramVec factory ''iam_policy_eval_duration_seconds''
        ''Duration of policy evaluation.'' [1 / 10000, 5 / 10000, 1 / 1000, 5 / 1000, 1 / 100] [''tenant'', ''matched_policy''],
      mx_PolicyDeniedTotal = NewCounterVec factory ''iam_policy_denied_total''
        ''Total number of requests denied by policy.'' [''tenant'', ''policy_name'', ''reason''],
      mx_ActiveTenants = NewGauge factory ''iam_active_tenants'' ''Number of currently registered tenants.''\<rparr>"

text \<open>The counters of a registration by their field, as the guard refers to them.\<close>

definition counter_vec :: "('c, 'h, 'g) Metrics \<Rightarrow> string \<Rightarrow> 'c option" where
  "counter_vec m field = map_of [(''StepUpTotal'', mx_StepUpTotal m), (''StepUpSuccessTotal'', mx_StepUpSuccessTotal m),
     (''TokenCacheHitTotal'', mx_TokenCacheHitTotal m), (''PolicyDeniedTotal'', mx_PolicyDeniedTotal m)] field"

text \<open>The registration as the labels of each metric.\<close>

definition label_factory :: "(string list, string list, unit) metrics_factory" where
  "label_factory = \<lparr>NewCounterVec = (\<lambda>name help labels. labels), NewHistogramVec = (\<lambda>name help buckets labels. labels),
     NewGauge = (\<lambda>name help. ())\<rparr>"

definition increment_fits :: "string \<times> string list \<Rightarrow> bool" where
  "increment_fits inc = (case counter_vec (NewMetrics label_factory []) (fst inc) of None \<Rightarrow> False
     | Some labels \<Rightarrow> length (snd inc) = length labels)"

section \<open>What the guard counts\<close>

text \<open>The increments of a denial.\<close>

definition denial_increments :: "string \<Rightarrow> string \<Rightarrow> PolicyResult \<Rightarrow> (string \<times> string list) list" where
  "denial_increments t method res =
     [(''PolicyDeniedTotal'', [t, (case res_MatchedPolicy res of None \<Rightarrow> [] | Some p \<Rightarrow> pol_Name p), res_Reason res]),
      (''StepUpTotal'', [t, res_RequiredACR res, method])]"

text \<open>The policy refuses the request that was received.\<close>

definition refused :: "Guard \<Rightarrow> call \<Rightarrow> http_request \<Rightarrow> CommonClaims \<Rightarrow> PolicyResult option" where
  "refused g ca r claims = (case g_policyEngine g of None \<Rightarrow> None
     | Some eng \<Rightarrow> (case Evaluate eng (policy_request (ca_now ca) (rq_Method r) (rq_Path r) claims) of
          Inl _ \<Rightarrow> None | Inr res \<Rightarrow> if res_Allowed res then None else Some res))"

text \<open>The policy allows the request that was received, a landing page, and refuses the request saved in its
  state cookie, so that \<^verbatim>\<open>completeStepUp\<close> challenges again.\<close>

definition refused_replay :: "environment \<Rightarrow> Guard \<Rightarrow> call \<Rightarrow> http_request \<Rightarrow> CommonClaims \<Rightarrow> PolicyResult option" where
  "refused_replay en g ca r claims =
     (if refused g ca r claims \<noteq> None \<or> g_cookieSecret g = [] then None
      else (case ReadStateCookie (en_codec en) (cr_HMAC (en_crypto en)) (ca_now ca) r (g_cookieSecret g) of
          Inr (Some saved) \<Rightarrow>
            if sr_Path saved \<noteq> [] \<and> sr_Path saved \<noteq> rq_Path r then refused g ca (replayed_request r saved) claims else None
        | _ \<Rightarrow> None))"

text \<open>The challenge it then issues.\<close>

definition replay_challenge :: "Guard \<Rightarrow> PolicyResult \<Rightarrow> StepUpChallenge" where
  "replay_challenge g res = \<lparr>ch_ACRValues = res_RequiredACR res, ch_MaxAge = res_RequiredMaxAge res,
     ch_Error = ErrCodeInsufficientUserAuthentication,
     ch_ErrorDescription = ''step-up incomplete: '' @ res_Reason res, ch_Realm = g_realm g\<rparr>"

definition increments :: "string \<Rightarrow> http_request \<Rightarrow> PolicyResult option \<Rightarrow> (string \<times> string list) list" where
  "increments t r res = (case res of None \<Rightarrow> [] | Some res \<Rightarrow> denial_increments t (rq_Method r) res)"

lemma denial_increments_fit: "list_all increment_fits (denial_increments t method res)"
  by (simp add: denial_increments_def increment_fits_def counter_vec_def NewMetrics_def label_factory_def)

lemma serve_policy_metrics:
  assumes "gs_metrics st = Some m"
  shows "gs_metrics (snd (serve_policy en g ca r claims t w st)) = Some (m @ increments t r (refused g ca r claims))"
proof -
  have "gs_metrics (snd (handleDenial en g ca r sub t res w st)) = Some (m @ denial_increments t (rq_Method r) res)" for sub res
    using assms by (simp add: handleDenial_def Let_def count_def denial_increments_def)
  with assms show ?thesis
    by (auto simp: serve_policy_def refused_def increments_def serve_cookie_keeps split: option.splits sum.splits prod.splits)
      (metis snd_conv)+
qed

lemma refusedD: "refused g ca r claims = Some res \<Longrightarrow> \<exists>eng. g_policyEngine g = Some eng \<and> \<not> res_Allowed res
    \<and> Evaluate eng (policy_request (ca_now ca) (rq_Method r) (rq_Path r) claims) = Inr res"
  by (auto simp: refused_def split: option.splits sum.splits if_splits)

lemma serve_policy_allowed:
  assumes "refused g ca r claims = None"
  shows "\<exists>st0. serve_policy en g ca r claims t w st = serve_cookie en g ca r claims t w st0"
  using assms by (auto simp: serve_policy_def refused_def split: option.splits sum.splits if_splits)

lemma serve_policy_refused_replay:
  assumes "refused_replay en g ca r claims = Some res"
  shows "fst (serve_policy en g ca r claims t w st) = Answered (WriteChallenge (replay_challenge g res) (ClearStateCookie w))"
proof -
  obtain saved where c: "refused g ca r claims = None" "g_cookieSecret g \<noteq> []"
    "ReadStateCookie (en_codec en) (cr_HMAC (en_crypto en)) (ca_now ca) r (g_cookieSecret g) = Inr (Some saved)"
    "sr_Path saved \<noteq> []" "sr_Path saved \<noteq> rq_Path r" "refused g ca (replayed_request r saved) claims = Some res"
    using assms by (auto simp: refused_replay_def split: if_splits sum.splits option.splits)
  obtain eng where "g_policyEngine g = Some eng" "\<not> res_Allowed res"
    "Evaluate eng (policy_request (ca_now ca) (sr_Method saved) (sr_Path saved) claims) = Inr res"
    using refusedD [OF c(6)] by (auto simp: replayed_request_def)
  moreover obtain st0 where "serve_policy en g ca r claims t w st = serve_cookie en g ca r claims t w st0"
    using serve_policy_allowed [OF c(1)] by blast
  ultimately show ?thesis
    using c(2-5) by (simp add: serve_cookie_def completeStepUp_def issueChallenge_def replay_challenge_def Let_def)
qed

lemma guard_introspect_metrics: "gs_metrics (snd (guard_introspect en c g ca provider token st)) = gs_metrics st"
  by (simp add: guard_introspect_def Let_def split: option.splits sum.splits)

lemma guard_dpop_metrics: "gs_metrics (snd (guard_dpop en c g ca r token st)) = gs_metrics st"
  by (simp add: guard_dpop_def split: prod.splits)

text \<open>A request that does not get to the policy counts nothing.\<close>

lemma serve_token_metrics:
  assumes "\<nexists>claims st1. token_passes en c g ca provider token pf st claims st1"
  shows "gs_metrics (snd (serve_token en c g ca r t provider token pf w st)) = gs_metrics st"
proof -
  obtain res st1 where i: "guard_introspect en c g ca provider token st = (res, st1)" by fastforce
  have m: "gs_metrics st1 = gs_metrics st" using guard_introspect_metrics [of en c g ca provider token st] i by simp
  show ?thesis
  proof (cases "\<exists>claims. res = Inr claims \<and> cc_Active claims \<and> binding_error en g ca provider pf claims = None")
    case True
    then show ?thesis using assms i binding_error_None by (auto simp: token_passes_def)
  next
    case False
    then show ?thesis using i m by (auto simp: serve_token_def split: sum.splits option.splits)
  qed
qed

lemma serve_dpop_metrics:
  assumes "\<nexists>pf st1 claims st2. proof_passes en c g ca r token st pf st1 \<and> token_passes en c g ca provider token pf st1 claims st2"
  shows "gs_metrics (snd (serve_dpop en c g ca r t provider token w st)) = gs_metrics st"
proof (cases "g_enableDPoP g")
  case True
  obtain res st1 where d: "guard_dpop en c g ca r token st = (res, st1)" by fastforce
  have m: "gs_metrics st1 = gs_metrics st" using guard_dpop_metrics [of en c g ca r token st] d by simp
  have "gs_metrics (snd (serve_token en c g ca r t provider token (Some pf) w st1)) = gs_metrics st" if "res = Inr pf" for pf
    using serve_token_metrics [of en c g ca provider token "Some pf" st1 r t w] assms that d m True
    by (simp add: proof_passes_def)
  with True d m show ?thesis by (auto simp: serve_dpop_def split: sum.splits option.splits)
next
  case False
  then have "\<nexists>claims st2. token_passes en c g ca provider token None st claims st2" using assms by (auto simp: proof_passes_def)
  with False serve_token_metrics show ?thesis by (simp add: serve_dpop_def)
qed

lemma unauthenticated_metrics:
  assumes "\<nexists>t provider token claims st1. authenticates en c g ca r st t provider token claims st1"
  shows "gs_metrics (snd (Guard_ServeHTTP en c g ca r w st)) = gs_metrics st"
proof -
  have tenant: "gs_metrics (snd (serve_tenant en c g ca r w st1)) = gs_metrics st1" if "rate_passes en ca r st st1" for st1
  proof -
    have "gs_metrics (snd (serve_dpop en c g ca r t provider token w st1)) = gs_metrics st1"
      if "Resolve (g_resolver g) r = Resolved t" "Registry_Get (g_registry g) t = Inr provider"
        "ExtractBearerToken (Header_Get (rq_Header r) ''Authorization'') = Inr token" for t provider token
      using that \<open>rate_passes en ca r st st1\<close> assms by (intro serve_dpop_metrics) (auto simp: authenticates_def)
    then show ?thesis by (simp add: serve_tenant_def split: resolved.splits sum.splits)
  qed
  show ?thesis
  proof (cases "gs_limiter st")
    case None
    with tenant [of st] show ?thesis by (simp add: Guard_ServeHTTP_def rate_passes_def)
  next
    case (Some rl)
    obtain ok rl' where a: "allow (en_rnd en) (ca_now ca) (clientKey r) rl = (ok, rl')" by (rule prod.exhaust)
    with Some tenant [of "st\<lparr>gs_limiter := Some rl'\<rparr>"] show ?thesis
      by (cases ok) (simp_all add: Guard_ServeHTTP_def rate_passes_def)
  qed
qed

lemma authenticates_metrics:
  assumes "authenticates en c g ca r st t provider token claims st'"
  shows "gs_metrics st' = gs_metrics st"
proof -
  obtain st1 st2 pf where "rate_passes en ca r st st1" "proof_passes en c g ca r token st1 pf st2"
    "token_passes en c g ca provider token pf st2 claims st'"
    using assms by (auto simp: authenticates_def)
  then have "gs_metrics st1 = gs_metrics st" "gs_metrics st2 = gs_metrics st1" "gs_metrics st' = gs_metrics st2"
    using guard_dpop_metrics [of en c g ca r token st1] guard_introspect_metrics [of en c g ca provider token st2]
    by (auto simp: rate_passes_def proof_passes_def token_passes_def split: option.splits if_splits)
  then show ?thesis by simp
qed

section \<open>Properties\<close>

text \<open>C22: the counters are well-typed, and what they leave out.  Every request adds to the metrics increments
  whose label values match, in number, the labels the counter was registered with, so that
  \<^verbatim>\<open>WithLabelValues\<close> never panics.  An authenticated request that the policy refuses as it was received
  counts as one denial and one step-up challenge of its tenant, and every other request counts
  nothing.  In particular, when the received request is a landing page that the policy allows and
  the policy refuses the request saved in its state cookie, the client gets another step-up challenge
  and no counter moves, although the counters are described as the challenges issued and the
  requests denied by policy.\<close>

theorem counters_fit:
  assumes "gs_metrics st = Some m"
  shows "\<exists>inc. gs_metrics (snd (Guard_ServeHTTP en c g ca r w st)) = Some (m @ inc) \<and> list_all increment_fits inc
    \<and> (\<forall>t provider token claims st1. authenticates en c g ca r st t provider token claims st1
          \<longrightarrow> inc = increments t r (refused g ca r claims))
    \<and> ((\<nexists>t provider token claims st1. authenticates en c g ca r st t provider token claims st1) \<longrightarrow> inc = [])
    \<and> (\<forall>t provider token claims st1 res. authenticates en c g ca r st t provider token claims st1
          \<and> refused_replay en g ca r claims = Some res \<longrightarrow> inc = []
            \<and> fst (Guard_ServeHTTP en c g ca r w st) = Answered (WriteChallenge (replay_challenge g res) (ClearStateCookie w)))"
proof -
  have inc: "gs_metrics (snd (Guard_ServeHTTP en c g ca r w st)) = Some (m @ increments t r (refused g ca r claims))"
    if "authenticates en c g ca r st t provider token claims st1" for t provider token claims st1
    using serve_policy_metrics [of st1 m] authenticates_metrics [OF that] authenticates_serve [OF that] assms by simp
  have fits: "list_all increment_fits (increments t r res)" for t res
    using denial_increments_fit by (simp add: increments_def split: option.splits)
  have replay: "increments t r (refused g ca r claims) = []
      \<and> fst (Guard_ServeHTTP en c g ca r w st) = Answered (WriteChallenge (replay_challenge g res) (ClearStateCookie w))"
    if "authenticates en c g ca r st t provider token claims st1" "refused_replay en g ca r claims = Some res"
    for t provider token claims st1 res
    using serve_policy_refused_replay [OF that(2), of t w st1] authenticates_serve [OF that(1), of w] that(2)
    by (auto simp: increments_def refused_replay_def split: if_splits)
  show ?thesis
  proof (cases "\<exists>t provider token claims st1. authenticates en c g ca r st t provider token claims st1")
    case True
    then obtain t provider token claims st1 where a: "authenticates en c g ca r st t provider token claims st1" by blast
    have "increments t r (refused g ca r claims) = increments t' r (refused g ca r claims')"
      if "authenticates en c g ca r st t' provider' token' claims' st'" for t' provider' token' claims' st'
      using inc [OF a] inc [OF that] by simp
    then have same: "\<forall>t' provider' token' claims' st'. authenticates en c g ca r st t' provider' token' claims' st'
        \<longrightarrow> increments t r (refused g ca r claims) = increments t' r (refused g ca r claims')" by blast
    show ?thesis
    proof (intro exI [of _ "increments t r (refused g ca r claims)"] conjI same)
      show "gs_metrics (snd (Guard_ServeHTTP en c g ca r w st)) = Some (m @ increments t r (refused g ca r claims))"
        by (rule inc [OF a])
      show "list_all increment_fits (increments t r (refused g ca r claims))" by (rule fits)
      show "(\<nexists>t provider token claims st1. authenticates en c g ca r st t provider token claims st1)
          \<longrightarrow> increments t r (refused g ca r claims) = []" using a by blast
      show "\<forall>t' provider' token' claims' st' res. authenticates en c g ca r st t' provider' token' claims' st'
          \<and> refused_replay en g ca r claims' = Some res \<longrightarrow> increments t r (refused g ca r claims) = []
            \<and> fst (Guard_ServeHTTP en c g ca r w st) = Answered (WriteChallenge (replay_challenge g res) (ClearStateCookie w))"
        using same replay by metis
    qed
  next
    case False
    with unauthenticated_metrics [of en c g ca r st w] assms show ?thesis by (intro exI [of _ "[]"]) simp
  qed
qed

text \<open>The landing page with a token whose authentication is older than the five minutes the saved
  request allows.\<close>

definition ex_cookie :: string where
  "ex_cookie = cookie_pair (last (Header_Values (rw_Header (snd (SetStateCookie (en_codec ex_env)
     (cr_HMAC (en_crypto ex_env)) ex_saved ''k'' new_response))) ''Set-Cookie''))"

lemma ex_refused_replay:
  "refused_replay ex_env ex_guard (ex_call (400 * Second)) (ex_second ex_cookie) high_claims
     = Some (check ex_config wit_policy (policy_request (400 * Second) ''POST'' ''/api/pay'' high_claims))"
proof -
  have keeps: "codec_keeps (en_codec ex_env) ex_saved" "int64 (sr_MaxAge ex_saved)"
    by (simp_all add: codec_keeps_def ex_env_def ex_saved_def int64_def)
  have "Header_Values (rq_Header (ex_second ex_cookie)) ''Cookie'' = [ex_cookie]"
    by (simp add: ex_second_def Header_Values_def header_key_simps)
  then have read: "ReadStateCookie (en_codec ex_env) (cr_HMAC (en_crypto ex_env)) (400 * Second) (ex_second ex_cookie) ''k''
      = Inr (Some ex_saved)"
    using cookie_comes_back [OF keeps prod.collapse [symmetric]] by (simp add: ex_cookie_def ex_saved_def)
  have old: "\<not> res_Allowed (check ex_config wit_policy (policy_request (400 * Second) ''POST'' ''/api/pay'' high_claims))"
    by (simp add: check_allowed wit_policy_def policy_request_def low_claims_def high_claims_def AuthAge_def IsZero_def
        zero_time_def Since_def time_Sub_def wrap64_def)
  show ?thesis
    using read old ex_Evaluate [of "400 * Second" high_claims] ex_decisions(3) [of "400 * Second" high_claims]
    by (simp add: refused_replay_def refused_def ex_guard_sel replayed_request_def ex_second_def ex_saved_def)
qed

theorem counters_fit_witness:
  "gs_metrics (snd (Guard_ServeHTTP ex_env memory_ops ex_guard (ex_call (400 * Second)) (ex_second ex_cookie) new_response
      (ex_state\<lparr>gs_metrics := Some []\<rparr>))) = Some []
   \<and> (\<exists>res :: PolicyResult. gs_metrics (snd (Guard_ServeHTTP ex_env memory_ops ex_guard (ex_call (5 * Second)) ex_first new_response
        (ex_state\<lparr>gs_metrics := Some []\<rparr>)))
     = Some [(''PolicyDeniedTotal'', [''acme'', ''pay'', res_Reason res]), (''StepUpTotal'', [''acme'', ''silver'', ''POST''])])"
proof -
  let ?st = "ex_state\<lparr>gs_metrics := Some []\<rparr>"
  have "fresh_state ?st" using ex_fresh(1) by (simp add: fresh_state_def)
  then obtain st1 where auth: "authenticates ex_env memory_ops ex_guard (ex_call (5 * Second)) ex_first ?st ''acme''
      ex_provider ''low'' low_claims st1" using ex_authenticates(1) by blast
  let ?res = "check ex_config wit_policy (policy_request (5 * Second) ''POST'' ''/api/pay'' low_claims)"
  have "refused ex_guard (ex_call (5 * Second)) ex_first low_claims = Some ?res"
    using ex_Evaluate(1) [of "5 * Second" low_claims] ex_decisions(1) [of "5 * Second"] by (simp add: refused_def ex_guard_sel ex_first_def)
  then have inc: "increments ''acme'' ex_first (refused ex_guard (ex_call (5 * Second)) ex_first low_claims)
      = [(''PolicyDeniedTotal'', [''acme'', ''pay'', res_Reason ?res]), (''StepUpTotal'', [''acme'', ''silver'', ''POST''])]"
    by (simp add: increments_def denial_increments_def wit_policy_def ex_first_def)
  have "gs_metrics ?st = Some []" by simp
  from counters_fit [OF this, of ex_env memory_ops ex_guard "ex_call (5 * Second)" ex_first new_response] auth
  obtain inc0 where "gs_metrics (snd (Guard_ServeHTTP ex_env memory_ops ex_guard (ex_call (5 * Second)) ex_first new_response ?st)) = Some ([] @ inc0)"
    "inc0 = increments ''acme'' ex_first (refused ex_guard (ex_call (5 * Second)) ex_first low_claims)" by (elim exE conjE) simp
  moreover obtain st2 where "authenticates ex_env memory_ops ex_guard (ex_call (400 * Second)) (ex_second ex_cookie) ?st ''acme''
      ex_provider ''high'' high_claims st2" using ex_authenticates(2) \<open>fresh_state ?st\<close> by blast
  with counters_fit [OF \<open>gs_metrics ?st = Some []\<close>, of ex_env memory_ops ex_guard "ex_call (400 * Second)" "ex_second ex_cookie" new_response]
    ex_refused_replay
  have "gs_metrics (snd (Guard_ServeHTTP ex_env memory_ops ex_guard (ex_call (400 * Second)) (ex_second ex_cookie) new_response ?st))
      = Some []" by fastforce
  ultimately show ?thesis using inc by (simp only: append_Nil) blast
qed

end
