(* ===== verification/Audit_Sinks.thy ===== *)
theory Audit_Sinks
  imports Audit_Log Json "HOL-Library.Sublist"
begin

text \<open>
  Where audit events and log records go (\<^verbatim>\<open>pkg/telemetry/logger.go\<close> and the sinks of
  \<^verbatim>\<open>pkg/telemetry/audit.go\<close>): loggers in a context, the sink that logs an event, and the sink that appends
  it to a file as one JSON line.  What all sinks promise is the locale \<open>audit_sink\<close>.  The file is its
  text; whether the operating system takes a write is decided per call.
\<close>

section \<open>Loggers\<close>

text \<open>A logger is the format of its handler and the lowest level it lets through; \<^verbatim>\<open>slog\<close> numbers the
  level of information 0.  All loggers write to one output, which is the list of records.\<close>

record Logger =
  lg_text :: bool
  lg_level :: int

datatype log_value = LString string | LBool bool

record log_record =
  lr_logger :: Logger
  lr_msg :: string
  lr_attrs :: "(string \<times> log_value) list"

definition NewLogger :: "string \<Rightarrow> int \<Rightarrow> Logger" where
  "NewLogger format level = \<lparr>lg_text = (format = ''text''), lg_level = level\<rparr>"

definition InfoContext :: "Logger \<Rightarrow> string \<Rightarrow> (string \<times> log_value) list \<Rightarrow> log_record list \<Rightarrow> log_record list" where
  "InfoContext l msg attrs out = (if lg_level l \<le> 0 then out @ [\<lparr>lr_logger = l, lr_msg = msg, lr_attrs = attrs\<rparr>] else out)"

text \<open>A context as the values stored under the logger key, the innermost first; a nil pointer is
  \<open>None\<close>.  \<open>dflt\<close> is \<^verbatim>\<open>slog.Default()\<close>.\<close>

definition WithLogger :: "Logger option list \<Rightarrow> Logger option \<Rightarrow> Logger option list" where
  "WithLogger ctx logger = logger # ctx"

definition LoggerFromContext :: "Logger \<Rightarrow> Logger option list \<Rightarrow> Logger" where
  "LoggerFromContext dflt ctx = (case ctx of Some l # _ \<Rightarrow> l | _ \<Rightarrow> dflt)"

record IAMEvent =
  ie_Event :: string
  ie_TenantID :: string
  ie_Subject :: string
  ie_ACR :: string
  ie_Resource :: string
  ie_Method :: string
  ie_Allowed :: bool
  ie_Reason :: string
  ie_TraceID :: string

definition IAMEvent_Log :: "Logger \<Rightarrow> Logger option list \<Rightarrow> IAMEvent \<Rightarrow> log_record list \<Rightarrow> log_record list" where
  "IAMEvent_Log dflt ctx e out = InfoContext (LoggerFromContext dflt ctx) (ie_Event e)
     [(''tenant_id'', LString (ie_TenantID e)), (''sub'', LString (ie_Subject e)), (''acr'', LString (ie_ACR e)),
      (''resource'', LString (ie_Resource e)), (''method'', LString (ie_Method e)), (''allowed'', LBool (ie_Allowed e)),
      (''reason'', LString (ie_Reason e)), (''trace_id'', LString (ie_TraceID e))] out"

text \<open>The trace id of a context (\<^verbatim>\<open>tracing.go\<close>), which \<open>Emit\<close> gets as an argument.\<close>

record SpanContext =
  sc_IsValid :: bool
  sc_TraceID :: string

definition TraceIDFromContext :: "SpanContext \<Rightarrow> string" where
  "TraceIDFromContext span = (if \<not> sc_IsValid span then [] else sc_TraceID span)"

section \<open>Events as JSON\<close>

definition omit_empty :: "string \<Rightarrow> string \<Rightarrow> (string \<times> json) list" where
  "omit_empty k s = (if s = [] then [] else [(k, JStr s)])"

definition audit_json :: "string \<Rightarrow> AuditEvent \<Rightarrow> json" where
  "audit_json t e = JObj
     ([(''jti'', JStr (ae_EventID e)), (''event_type'', JStr (ae_Type e)), (''iat'', JStr t)]
      @ omit_empty ''trace_id'' (ae_TraceID e) @ omit_empty ''tenant_id'' (ae_TenantID e)
      @ omit_empty ''client_ip'' (ae_ClientIP e) @ omit_empty ''resource'' (ae_Resource e)
      @ omit_empty ''method'' (ae_Method e) @ omit_empty ''sub'' (ae_Subject e) @ omit_empty ''acr'' (ae_ACR e)
      @ (if ae_AMR e = [] then [] else [(''amr'', JArr (map JStr (ae_AMR e)))])
      @ omit_empty ''sid'' (ae_SessionID e) @ omit_empty ''policy_name'' (ae_PolicyName e)
      @ omit_empty ''required_acr'' (ae_RequiredACR e) @ omit_empty ''reason'' (ae_Reason e)
      @ [(''allowed'', JBool (ae_Allowed e))])"

definition Marshal_event :: "json_codec \<Rightarrow> AuditEvent \<Rightarrow> string result" where
  "Marshal_event codec e = (case time_print codec (ae_Timestamp e) of
       None \<Rightarrow> Inl (Errorf ''Time.MarshalJSON: year outside of range [0,9999]'')
     | Some t \<Rightarrow> Inr (json_print codec (audit_json t e)))"

text \<open>A reader of the log decodes into the same struct.\<close>

definition audit_member :: "json_codec \<Rightarrow> string \<Rightarrow> json \<Rightarrow> AuditEvent \<Rightarrow> AuditEvent result" where
  "audit_member codec k v e =
     (if EqualFold k ''jti'' then store (into_string v (ae_EventID e)) (\<lambda>x. e\<lparr>ae_EventID := x\<rparr>)
      else if EqualFold k ''event_type'' then store (into_string v (ae_Type e)) (\<lambda>x. e\<lparr>ae_Type := x\<rparr>)
      else if EqualFold k ''iat'' then store (into_time codec v (ae_Timestamp e)) (\<lambda>x. e\<lparr>ae_Timestamp := x\<rparr>)
      else if EqualFold k ''trace_id'' then store (into_string v (ae_TraceID e)) (\<lambda>x. e\<lparr>ae_TraceID := x\<rparr>)
      else if EqualFold k ''tenant_id'' then store (into_string v (ae_TenantID e)) (\<lambda>x. e\<lparr>ae_TenantID := x\<rparr>)
      else if EqualFold k ''client_ip'' then store (into_string v (ae_ClientIP e)) (\<lambda>x. e\<lparr>ae_ClientIP := x\<rparr>)
      else if EqualFold k ''resource'' then store (into_string v (ae_Resource e)) (\<lambda>x. e\<lparr>ae_Resource := x\<rparr>)
      else if EqualFold k ''method'' then store (into_string v (ae_Method e)) (\<lambda>x. e\<lparr>ae_Method := x\<rparr>)
      else if EqualFold k ''sub'' then store (into_string v (ae_Subject e)) (\<lambda>x. e\<lparr>ae_Subject := x\<rparr>)
      else if EqualFold k ''acr'' then store (into_string v (ae_ACR e)) (\<lambda>x. e\<lparr>ae_ACR := x\<rparr>)
      else if EqualFold k ''amr'' then store (into_strings v) (\<lambda>x. e\<lparr>ae_AMR := x\<rparr>)
      else if EqualFold k ''sid'' then store (into_string v (ae_SessionID e)) (\<lambda>x. e\<lparr>ae_SessionID := x\<rparr>)
      else if EqualFold k ''policy_name'' then store (into_string v (ae_PolicyName e)) (\<lambda>x. e\<lparr>ae_PolicyName := x\<rparr>)
      else if EqualFold k ''required_acr'' then store (into_string v (ae_RequiredACR e)) (\<lambda>x. e\<lparr>ae_RequiredACR := x\<rparr>)
      else if EqualFold k ''reason'' then store (into_string v (ae_Reason e)) (\<lambda>x. e\<lparr>ae_Reason := x\<rparr>)
      else if EqualFold k ''allowed'' then store (into_bool v (ae_Allowed e)) (\<lambda>x. e\<lparr>ae_Allowed := x\<rparr>)
      else Inr e)"

definition read_event :: "json_codec \<Rightarrow> string \<Rightarrow> AuditEvent result" where
  "read_event codec text = (case json_parse codec text of None \<Rightarrow> Inl json_syntax_error
     | Some j \<Rightarrow> into_struct (audit_member codec) j empty_audit)"

section \<open>The logging sink\<close>

definition slogSink_Write :: "json_codec \<Rightarrow> Logger \<Rightarrow> AuditEvent \<Rightarrow> log_record list \<Rightarrow> error option \<times> log_record list" where
  "slogSink_Write codec logger event out = (case Marshal_event codec event of
       Inl e \<Rightarrow> (Some (Wrapf ''marshaling audit event: '' e), out)
     | Inr b \<Rightarrow> (None, InfoContext logger ''audit'' [(''event_type'', LString (ae_Type event)), (''payload'', LString b)] out))"

text \<open>As a member of an audit logger it is its error for each event.\<close>

definition slogSink :: "json_codec \<Rightarrow> Logger \<Rightarrow> AuditSink" where
  "slogSink codec logger = \<lparr>as_error = (\<lambda>e. fst (slogSink_Write codec logger e [])), as_events = []\<rparr>"

definition NewAuditLogger :: "json_codec \<Rightarrow> Logger \<Rightarrow> Logger option \<Rightarrow> AuditLogger" where
  "NewAuditLogger codec dflt logger = [slogSink codec (case logger of None \<Rightarrow> dflt | Some l \<Rightarrow> l)]"

section \<open>The file sink\<close>

text \<open>The file's text, whether it is closed, and the error the encoder has kept.\<close>

record FileSink =
  fk_text :: string
  fk_closed :: bool
  fk_err :: "error option"

definition ErrClosed :: error where
  "ErrClosed = ErrNew ''file already closed''"

definition newline :: char where
  "newline = CHR 0x0A"

definition NewFileSink :: "string \<Rightarrow> string result \<Rightarrow> FileSink result" where
  "NewFileSink path opened = (case opened of
       Inl e \<Rightarrow> Inl (Wrapf (''opening audit file '' @ Quote path @ '': '') e)
     | Inr old \<Rightarrow> Inr \<lparr>fk_text = old, fk_closed = False, fk_err = None\<rparr>)"

text \<open>\<^verbatim>\<open>os.File.Write\<close> in append mode.  \<open>disk\<close> is \<open>None\<close> when everything is written; otherwise it is the
  number of bytes that were and the error.  The write loop ends as soon as all bytes are written, so
  that an error leaves at least one of them out.\<close>

definition File_Write :: "(nat \<times> error) option \<Rightarrow> string \<Rightarrow> FileSink \<Rightarrow> error option \<times> FileSink" where
  "File_Write disk b fs =
     (if fk_closed fs then (Some ErrClosed, fs)
      else (case disk of None \<Rightarrow> (None, fs\<lparr>fk_text := fk_text fs @ b\<rparr>)
        | Some (n, e) \<Rightarrow> (Some e, fs\<lparr>fk_text := fk_text fs @ take (min n (length b - 1)) b\<rparr>)))"

text \<open>\<^verbatim>\<open>json.Encoder.Encode\<close>: an error of the writer is kept and returned ever after.\<close>

definition Encoder_Encode :: "json_codec \<Rightarrow> (nat \<times> error) option \<Rightarrow> AuditEvent \<Rightarrow> FileSink \<Rightarrow> error option \<times> FileSink" where
  "Encoder_Encode codec disk event fs = (case fk_err fs of Some e \<Rightarrow> (Some e, fs)
     | None \<Rightarrow> (case Marshal_event codec event of Inl e \<Rightarrow> (Some e, fs)
       | Inr b \<Rightarrow> (case File_Write disk (b @ [newline]) fs of
            (None, fs') \<Rightarrow> (None, fs') | (Some e, fs') \<Rightarrow> (Some e, fs'\<lparr>fk_err := Some e\<rparr>))))"

definition FileSink_Write :: "json_codec \<Rightarrow> (nat \<times> error) option \<Rightarrow> AuditEvent \<Rightarrow> FileSink \<Rightarrow> error option \<times> FileSink" where
  "FileSink_Write codec disk event fs = (case Encoder_Encode codec disk event fs of
       (Some e, fs') \<Rightarrow> (Some (Wrapf ''writing audit event: '' e), fs') | (None, fs') \<Rightarrow> (None, fs'))"

text \<open>\<open>closing\<close> is what the operating system says; the file is closed in any case.\<close>

definition FileSink_Close :: "error option \<Rightarrow> FileSink \<Rightarrow> error option \<times> FileSink" where
  "FileSink_Close closing fs =
     (if fk_closed fs then (Some ErrClosed, fs) else (closing, fs\<lparr>fk_closed := True\<rparr>))"

text \<open>The lines a reader finds; what follows the last newline is not a line yet.\<close>

fun lines_from :: "string \<Rightarrow> string \<Rightarrow> string list" where
  "lines_from line [] = []"
| "lines_from line (c # cs) = (if c = newline then line # lines_from [] cs else lines_from (line @ [c]) cs)"

definition complete_lines :: "string \<Rightarrow> string list" where
  "complete_lines s = lines_from [] s"

section \<open>What a sink promises\<close>

text \<open>Deliveries one after the other, each with what the surroundings decide; the result lists the
  events whose delivery reported no error.\<close>

fun deliver ::
  "('d \<Rightarrow> AuditEvent \<Rightarrow> 's \<Rightarrow> error option \<times> 's) \<Rightarrow> ('d \<times> AuditEvent) list \<Rightarrow> 's \<Rightarrow> AuditEvent list \<times> 's" where
  "deliver put [] s = ([], s)"
| "deliver put ((d, e) # ds) s = (case put d e s of (err, s') \<Rightarrow>
     (case deliver put ds s' of (acc, s'') \<Rightarrow> (if err = None then e # acc else acc, s'')))"


text \<open>A sink that reports no error has the event in addition; one that reports an error has what it
  had.  \<open>holds\<close> says which events a sink has.\<close>

locale audit_sink =
  fixes put :: "'d \<Rightarrow> AuditEvent \<Rightarrow> 's \<Rightarrow> error option \<times> 's" and holds :: "AuditEvent list \<Rightarrow> 's \<Rightarrow> bool"
  assumes accepts: "holds es s \<Longrightarrow> put d e s = (None, s') \<Longrightarrow> holds (es @ [e]) s'"
    and refuses: "holds es s \<Longrightarrow> put d e s = (Some err, s') \<Longrightarrow> holds es s'"
begin

lemma deliver_holds:
  "holds es s \<Longrightarrow> deliver put ds s = (acc, s') \<Longrightarrow> holds (es @ acc) s'"
proof (induction ds arbitrary: es s acc)
  case (Cons de ds)
  obtain d e where de: "de = (d, e)" by fastforce
  obtain err s1 where w: "put d e s = (err, s1)" by fastforce
  obtain acc1 where r: "deliver put ds s1 = (acc1, s')" using Cons.prems(2) de w by (auto split: prod.splits)
  have "holds (if err = None then es @ [e] else es) s1"
    using accepts [OF Cons.prems(1), of d e s1] refuses [OF Cons.prems(1), of d e _ s1] w by auto
  from Cons.IH [OF this r] Cons.prems(2) de w r show ?case by (auto split: if_splits)
qed simp

end

text \<open>An abstract sink, the logging sink of an enabled logger, and the file.\<close>

interpretation abstract_sink: audit_sink "\<lambda>d :: unit. sink_Write" "\<lambda>es s. as_events s = es"
  by unfold_locales (auto simp: sink_Write_def split: option.splits)

definition slog_record :: "json_codec \<Rightarrow> Logger \<Rightarrow> AuditEvent \<Rightarrow> log_record list" where
  "slog_record codec logger e = (case Marshal_event codec e of Inl _ \<Rightarrow> []
     | Inr b \<Rightarrow> [\<lparr>lr_logger = logger, lr_msg = ''audit'', lr_attrs = [(''event_type'', LString (ae_Type e)), (''payload'', LString b)]\<rparr>])"

definition slog_holds :: "json_codec \<Rightarrow> Logger \<Rightarrow> log_record list \<Rightarrow> AuditEvent list \<Rightarrow> log_record list \<Rightarrow> bool" where
  "slog_holds codec logger before es out \<longleftrightarrow> lg_level logger \<le> 0 \<and> out = before @ concat (map (slog_record codec logger) es)"

interpretation slog_sink: audit_sink "\<lambda>d :: unit. slogSink_Write codec logger" "slog_holds codec logger before"
  for codec logger before
  by unfold_locales (auto simp: slogSink_Write_def slog_holds_def slog_record_def InfoContext_def split: sum.splits)

text \<open>The file is the old text, one line for each event, and behind them at most the beginning of a
  line; then the encoder has an error.\<close>

definition audit_line :: "json_codec \<Rightarrow> AuditEvent \<Rightarrow> string" where
  "audit_line codec e = (case Marshal_event codec e of Inl _ \<Rightarrow> [] | Inr b \<Rightarrow> b) @ [newline]"

definition file_holds :: "json_codec \<Rightarrow> string \<Rightarrow> AuditEvent list \<Rightarrow> FileSink \<Rightarrow> bool" where
  "file_holds codec old es fs \<longleftrightarrow> (\<exists>part. fk_text fs = old @ concat (map (audit_line codec) es) @ part
     \<and> (part = [] \<or> fk_err fs \<noteq> None \<and> (\<exists>e. strict_prefix part (audit_line codec e))))"

lemma file_accepts:
  assumes "file_holds codec old es fs" "FileSink_Write codec disk e fs = (None, fs')"
  shows "file_holds codec old (es @ [e]) fs'"
  using assms
  by (auto simp: file_holds_def FileSink_Write_def Encoder_Encode_def File_Write_def audit_line_def
      split: prod.splits option.splits sum.splits if_splits)





section \<open>The file behind an abstract sink\<close>

text \<open>The guard's audit logger is made of abstract sinks.  Such a sink stands for an open file without
  failures when it refuses exactly the events that have no JSON form and the file holds the events it
  has taken.\<close>

definition file_mirrors :: "json_codec \<Rightarrow> string \<Rightarrow> AuditSink \<Rightarrow> FileSink \<Rightarrow> bool" where
  "file_mirrors codec old sink fs \<longleftrightarrow> file_holds codec old (as_events sink) fs \<and> fk_err fs = None \<and> \<not> fk_closed fs
     \<and> as_error sink = (\<lambda>e. case Marshal_event codec e of Inl er \<Rightarrow> Some (Wrapf ''writing audit event: '' er) | Inr _ \<Rightarrow> None)"

lemma file_mirrors_new:
  assumes "NewFileSink path (Inr old) = Inr fs"
  shows "file_mirrors codec old \<lparr>as_error = (\<lambda>e. case Marshal_event codec e of Inl er \<Rightarrow> Some (Wrapf ''writing audit event: '' er)
       | Inr _ \<Rightarrow> None), as_events = []\<rparr> fs"
  using assms by (auto simp: NewFileSink_def file_mirrors_def file_holds_def)

lemma file_mirrors_write:
  assumes "file_mirrors codec old sink fs"
  shows "fst (sink_Write e sink) = fst (FileSink_Write codec None e fs)"
    and "file_mirrors codec old (snd (sink_Write e sink)) (snd (FileSink_Write codec None e fs))"
proof -
  note m = assms [unfolded file_mirrors_def]
  show "fst (sink_Write e sink) = fst (FileSink_Write codec None e fs)"
    using m by (simp add: sink_Write_def FileSink_Write_def Encoder_Encode_def File_Write_def split: sum.splits)
  show "file_mirrors codec old (snd (sink_Write e sink)) (snd (FileSink_Write codec None e fs))"
  proof (cases "Marshal_event codec e")
    case (Inr b)
    with m have w: "FileSink_Write codec None e fs = (None, fs\<lparr>fk_text := fk_text fs @ b @ [newline]\<rparr>)"
      by (simp add: FileSink_Write_def Encoder_Encode_def File_Write_def)
    from file_accepts [OF _ w] m Inr w show ?thesis by (simp add: sink_Write_def file_mirrors_def)
  qed (use m in \<open>simp add: sink_Write_def FileSink_Write_def Encoder_Encode_def file_mirrors_def\<close>)
qed

section \<open>Reading the file\<close>

lemma lines_from_line: "newline \<notin> set l \<Longrightarrow> lines_from a (l @ newline # rest) = (a @ l) # lines_from [] rest"
  by (induction l arbitrary: a) auto

lemma lines_from_part: "newline \<notin> set l \<Longrightarrow> lines_from a l = []"
  by (induction l arbitrary: a) auto

lemma lines_from_append: "old = [] \<and> a = [] \<or> old \<noteq> [] \<and> last old = newline \<Longrightarrow> lines_from a (old @ s) = lines_from a old @ lines_from [] s"
proof (induction old arbitrary: a)
  case (Cons c old)
  then show ?case by (cases "old = []") auto
qed simp

lemma complete_lines_append: "old = [] \<or> last old = newline \<Longrightarrow> complete_lines (old @ s) = complete_lines old @ complete_lines s"
  using lines_from_append [of old "[]" s] by (cases "old = []") (simp_all add: complete_lines_def)

text \<open>What \<^verbatim>\<open>encoding/json\<close> promises: a value is printed on one line, since control characters are
  escaped; and the value and the time of an event come back.\<close>

definition one_line :: "json_codec \<Rightarrow> bool" where
  "one_line codec \<longleftrightarrow> (\<forall>j. newline \<notin> set (json_print codec j))"

definition codec_keeps_event :: "json_codec \<Rightarrow> AuditEvent \<Rightarrow> bool" where
  "codec_keeps_event codec e = (case time_print codec (ae_Timestamp e) of None \<Rightarrow> True
     | Some t \<Rightarrow> time_parse codec t = Some (ae_Timestamp e)
         \<and> json_parse codec (json_print codec (audit_json t e)) = Some (audit_json t e))"

lemma audit_member_fields:
  "audit_member codec ''jti'' v e = store (into_string v (ae_EventID e)) (\<lambda>x. e\<lparr>ae_EventID := x\<rparr>)"
  "audit_member codec ''event_type'' v e = store (into_string v (ae_Type e)) (\<lambda>x. e\<lparr>ae_Type := x\<rparr>)"
  "audit_member codec ''iat'' v e = store (into_time codec v (ae_Timestamp e)) (\<lambda>x. e\<lparr>ae_Timestamp := x\<rparr>)"
  "audit_member codec ''trace_id'' v e = store (into_string v (ae_TraceID e)) (\<lambda>x. e\<lparr>ae_TraceID := x\<rparr>)"
  "audit_member codec ''tenant_id'' v e = store (into_string v (ae_TenantID e)) (\<lambda>x. e\<lparr>ae_TenantID := x\<rparr>)"
  "audit_member codec ''client_ip'' v e = store (into_string v (ae_ClientIP e)) (\<lambda>x. e\<lparr>ae_ClientIP := x\<rparr>)"
  "audit_member codec ''resource'' v e = store (into_string v (ae_Resource e)) (\<lambda>x. e\<lparr>ae_Resource := x\<rparr>)"
  "audit_member codec ''method'' v e = store (into_string v (ae_Method e)) (\<lambda>x. e\<lparr>ae_Method := x\<rparr>)"
  "audit_member codec ''sub'' v e = store (into_string v (ae_Subject e)) (\<lambda>x. e\<lparr>ae_Subject := x\<rparr>)"
  "audit_member codec ''acr'' v e = store (into_string v (ae_ACR e)) (\<lambda>x. e\<lparr>ae_ACR := x\<rparr>)"
  "audit_member codec ''amr'' v e = store (into_strings v) (\<lambda>x. e\<lparr>ae_AMR := x\<rparr>)"
  "audit_member codec ''sid'' v e = store (into_string v (ae_SessionID e)) (\<lambda>x. e\<lparr>ae_SessionID := x\<rparr>)"
  "audit_member codec ''policy_name'' v e = store (into_string v (ae_PolicyName e)) (\<lambda>x. e\<lparr>ae_PolicyName := x\<rparr>)"
  "audit_member codec ''required_acr'' v e = store (into_string v (ae_RequiredACR e)) (\<lambda>x. e\<lparr>ae_RequiredACR := x\<rparr>)"
  "audit_member codec ''reason'' v e = store (into_string v (ae_Reason e)) (\<lambda>x. e\<lparr>ae_Reason := x\<rparr>)"
  "audit_member codec ''allowed'' v e = store (into_bool v (ae_Allowed e)) (\<lambda>x. e\<lparr>ae_Allowed := x\<rparr>)"
  by (simp_all add: audit_member_def fold_simps)

text \<open>A field that is omitted when empty comes back when it was empty before.\<close>

lemma omitted_fields:
  "ae_TraceID e = [] \<Longrightarrow> into_members (audit_member codec) (omit_empty ''trace_id'' s) e = Inr (e\<lparr>ae_TraceID := s\<rparr>)"
  "ae_TenantID e = [] \<Longrightarrow> into_members (audit_member codec) (omit_empty ''tenant_id'' s) e = Inr (e\<lparr>ae_TenantID := s\<rparr>)"
  "ae_ClientIP e = [] \<Longrightarrow> into_members (audit_member codec) (omit_empty ''client_ip'' s) e = Inr (e\<lparr>ae_ClientIP := s\<rparr>)"
  "ae_Resource e = [] \<Longrightarrow> into_members (audit_member codec) (omit_empty ''resource'' s) e = Inr (e\<lparr>ae_Resource := s\<rparr>)"
  "ae_Method e = [] \<Longrightarrow> into_members (audit_member codec) (omit_empty ''method'' s) e = Inr (e\<lparr>ae_Method := s\<rparr>)"
  "ae_Subject e = [] \<Longrightarrow> into_members (audit_member codec) (omit_empty ''sub'' s) e = Inr (e\<lparr>ae_Subject := s\<rparr>)"
  "ae_ACR e = [] \<Longrightarrow> into_members (audit_member codec) (omit_empty ''acr'' s) e = Inr (e\<lparr>ae_ACR := s\<rparr>)"
  "ae_SessionID e = [] \<Longrightarrow> into_members (audit_member codec) (omit_empty ''sid'' s) e = Inr (e\<lparr>ae_SessionID := s\<rparr>)"
  "ae_PolicyName e = [] \<Longrightarrow> into_members (audit_member codec) (omit_empty ''policy_name'' s) e = Inr (e\<lparr>ae_PolicyName := s\<rparr>)"
  "ae_RequiredACR e = [] \<Longrightarrow> into_members (audit_member codec) (omit_empty ''required_acr'' s) e = Inr (e\<lparr>ae_RequiredACR := s\<rparr>)"
  "ae_Reason e = [] \<Longrightarrow> into_members (audit_member codec) (omit_empty ''reason'' s) e = Inr (e\<lparr>ae_Reason := s\<rparr>)"
  "ae_AMR e = [] \<Longrightarrow> into_members (audit_member codec) (if ss = [] then [] else [(''amr'', JArr (map JStr ss))]) e = Inr (e\<lparr>ae_AMR := ss\<rparr>)"
  by (cases e; simp add: omit_empty_def audit_member_fields)+

lemma audit_json_decodes:
  assumes "time_parse codec t = Some (ae_Timestamp e)"
  shows "into_struct (audit_member codec) (audit_json t e) empty_audit = Inr e"
  using assms
  by (simp add: audit_json_def empty_audit_def into_members_append omitted_fields audit_member_fields)

lemma line_read_back:
  assumes "codec_keeps_event codec e" "Marshal_event codec e = Inr b"
  shows "read_event codec b = Inr e"
  using assms audit_json_decodes
  by (auto simp: codec_keeps_event_def Marshal_event_def read_event_def split: option.splits)

lemma strict_prefix_snoc_set: "strict_prefix p (b @ [c]) \<Longrightarrow> set p \<subseteq> set b"
  by (auto simp: strict_prefix_def prefix_snoc dest: set_mono_prefix)

lemma lines_concat:
  assumes "\<And>e. newline \<notin> set (f e)" "newline \<notin> set part"
  shows "lines_from [] (concat (map (\<lambda>e. f e @ [newline]) es) @ part) = map f es"
  using assms by (induction es) (simp_all add: lines_from_part lines_from_line)

lemma file_holds_lines:
  assumes "one_line codec" "file_holds codec old es fs" "old = [] \<or> last old = newline"
  shows "complete_lines (fk_text fs) = complete_lines old @ map (\<lambda>e. case Marshal_event codec e of Inl _ \<Rightarrow> [] | Inr b \<Rightarrow> b) es"
proof -
  let ?f = "\<lambda>e. case Marshal_event codec e of Inl _ \<Rightarrow> [] | Inr b \<Rightarrow> b"
  have nl: "newline \<notin> set (?f e)" for e
    using assms(1) by (auto simp: one_line_def Marshal_event_def split: sum.splits option.splits)
  obtain part where part: "fk_text fs = old @ concat (map (\<lambda>e. ?f e @ [newline]) es) @ part"
    "part = [] \<or> (\<exists>e. strict_prefix part (?f e @ [newline]))"
    using assms(2) unfolding file_holds_def audit_line_def by blast
  have "newline \<notin> set part"
    using part(2) nl strict_prefix_snoc_set by fastforce
  with lines_concat [of ?f part es] nl show ?thesis
    using complete_lines_append [OF assms(3)] by (simp add: complete_lines_def part(1))
qed

text \<open>An event that was just written is the last line.\<close>

lemma file_last_line:
  assumes "one_line codec" "codec_keeps_event codec e" "file_mirrors codec old sink fs" "old = [] \<or> last old = newline"
    and "FileSink_Write codec None e fs = (None, fs')"
  shows "read_event codec (last (complete_lines (fk_text fs'))) = Inr e"
proof -
  have "file_holds codec old (as_events sink @ [e]) fs'"
    using file_accepts [OF _ assms(5)] assms(3) by (simp add: file_mirrors_def)
  from file_holds_lines [OF assms(1) this assms(4)]
  have "last (complete_lines (fk_text fs')) = (case Marshal_event codec e of Inl _ \<Rightarrow> [] | Inr b \<Rightarrow> b)" by simp
  moreover obtain b where "Marshal_event codec e = Inr b"
    using assms(5) by (auto simp: FileSink_Write_def Encoder_Encode_def split: prod.splits option.splits sum.splits)
  ultimately show ?thesis using line_read_back [OF assms(2)] by simp
qed

lemma encoder_error_stays: "fk_err fs \<noteq> None \<Longrightarrow> deliver (FileSink_Write codec) ds fs = ([], fs)"
  by (induction ds) (auto simp: FileSink_Write_def Encoder_Encode_def)

section \<open>Properties\<close>


definition wit_audit :: AuditEvent where
  "wit_audit = policy_event 7 ''alice'' ''acme'' ''/api/pay'' ''POST'' ''pay'' ''acr'' False"

definition wit_audit_codec :: json_codec where
  "wit_audit_codec = \<lparr>json_parse = (\<lambda>s. if s = ''J'' then Some (audit_json ''T'' wit_audit) else None), json_decode = (\<lambda>_. None),
     json_print = (\<lambda>_. ''J''), time_parse = (\<lambda>_. Some (ae_Timestamp wit_audit)), time_print = (\<lambda>_. Some ''T'')\<rparr>"



text \<open>One failed write silences the file.  After a write that the operating system refused, the file
  sink takes no event any more, however the disk recovers, and the file stays as it is.\<close>

lemma failed_write_is_final:
  assumes "FileSink_Write codec disk e fs = (Some err, fs')" "Marshal_event codec e = Inr b"
  shows "deliver (FileSink_Write codec) ds fs' = ([], fs')"
proof (rule encoder_error_stays)
  show "fk_err fs' \<noteq> None"
    using assms by (auto simp: FileSink_Write_def Encoder_Encode_def split: prod.splits option.splits)
qed

theorem failed_write_is_final_witness:
  "\<exists>err fs'. FileSink_Write wit_audit_codec (Some (1, ErrNew ''full'')) wit_audit \<lparr>fk_text = [], fk_closed = False, fk_err = None\<rparr> = (Some err, fs')
     \<and> deliver (FileSink_Write wit_audit_codec) [(None, wit_audit)] fs' = ([], fs')"
proof -
  have m: "Marshal_event wit_audit_codec wit_audit = Inr ''J''" by (simp add: Marshal_event_def wit_audit_codec_def)
  obtain err fs' where w: "FileSink_Write wit_audit_codec (Some (1, ErrNew ''full'')) wit_audit \<lparr>fk_text = [], fk_closed = False, fk_err = None\<rparr>
     = (Some err, fs')" using m by (simp add: FileSink_Write_def Encoder_Encode_def File_Write_def)
  from failed_write_is_final [OF w m] w show ?thesis by blast
qed

text \<open>A new sink on a file that ends in half a line joins its first event to it: that event is no line
  of its own.\<close>

lemma torn_line_swallows:
  assumes "one_line codec" "Marshal_event codec e = Inr b" "newline \<notin> set part" "old = [] \<or> last old = newline"
    and "NewFileSink path (Inr (old @ part)) = Inr fs"
  shows "\<exists>fs'. FileSink_Write codec None e fs = (None, fs') \<and> complete_lines (fk_text fs') = complete_lines old @ [part @ b]"
proof -
  have "newline \<notin> set b" using assms(1,2) by (auto simp: one_line_def Marshal_event_def split: option.splits)
  then have "complete_lines (old @ (part @ b) @ [newline]) = complete_lines old @ [part @ b]"
    using complete_lines_append [OF assms(4)] lines_from_line [of "part @ b" "[]" "[]"] assms(3) by (simp add: complete_lines_def)
  with assms(2,5) show ?thesis
    by (auto simp: NewFileSink_def FileSink_Write_def Encoder_Encode_def File_Write_def)
qed

text \<open>A logger above the level of information loses the event and the sink reports no error.\<close>

lemma slog_level_drops:
  assumes "Marshal_event codec e = Inr b"
  shows "slogSink_Write codec (NewLogger format level) e out
    = (None, if level \<le> 0 then out @ slog_record codec (NewLogger format level) e else out)"
  using assms by (simp add: slogSink_Write_def InfoContext_def slog_record_def NewLogger_def)

text \<open>A closed file takes nothing; the text stays.\<close>

lemma closed_file_refuses:
  assumes "FileSink_Close closing fs = (err, fs1)" "FileSink_Write codec disk e fs1 = (err', fs2)"
  shows "err' \<noteq> None \<and> fk_text fs2 = fk_text fs"
  using assms
  by (auto simp: FileSink_Close_def FileSink_Write_def Encoder_Encode_def File_Write_def
      split: if_splits prod.splits option.splits sum.splits)

end
