(* ===== verification/Tracing.thy ===== *)
theory Tracing
  imports Example Audit_Sinks
begin

text \<open>
  Tracing (\<^verbatim>\<open>pkg/telemetry/tracing.go\<close>): the calls on the OpenTelemetry library that the helpers make,
  as a list, and the span that the guard opens for every request (\<^verbatim>\<open>guard.go\<close>).  What the library does
  with the calls is not modelled.
\<close>

section \<open>Calls\<close>

datatype span_call =
    SpanStart string string "(string \<times> string) list"    \<comment> \<open>tracer, operation, attributes\<close>
  | SpanSetAttributes "(string \<times> string) list"
  | SpanRecordError error
  | SpanSetError string
  | SpanEnd

definition tracerName :: string where
  "tracerName = ''github.com/common-iam/iam''"

definition StartSpan :: "string \<Rightarrow> (string \<times> string) list \<Rightarrow> span_call list" where
  "StartSpan operation attrs = [SpanStart tracerName operation attrs]"

definition SpanFromToken :: "string \<Rightarrow> string \<Rightarrow> string \<Rightarrow> span_call list" where
  "SpanFromToken sub acr tenantID =
     [SpanSetAttributes [(''iam.subject'', sub), (''iam.acr'', acr), (''iam.tenant_id'', tenantID)]]"

definition SpanFail :: "error \<Rightarrow> span_call list" where
  "SpanFail err = [SpanRecordError err, SpanSetError (error_text err)]"

section \<open>The span of a request\<close>

text \<open>The identity is attached after the token has been established, before the policy is evaluated
  (line 220); every path there is the one of the handler.\<close>

definition identity_span ::
  "environment \<Rightarrow> 's cache_ops \<Rightarrow> Guard \<Rightarrow> call \<Rightarrow> http_request \<Rightarrow> string \<Rightarrow> Provider \<Rightarrow> string \<Rightarrow> DPoPProof option
     \<Rightarrow> 's guard_state \<Rightarrow> span_call list" where
  "identity_span en c g ca r tenantID provider rawToken dpopProof st =
     (case guard_introspect en c g ca provider rawToken st of
        (Inl _, st') \<Rightarrow> []
      | (Inr claims, st') \<Rightarrow>
         if \<not> cc_Active claims then []
         else (case binding_error en g ca provider dpopProof claims of
             Some _ \<Rightarrow> [] | None \<Rightarrow> SpanFromToken (cc_Subject claims) (cc_ACR claims) tenantID))"

definition tenant_span ::
  "environment \<Rightarrow> 's cache_ops \<Rightarrow> Guard \<Rightarrow> call \<Rightarrow> http_request \<Rightarrow> 's guard_state \<Rightarrow> span_call list" where
  "tenant_span en c g ca r st = (case Resolve (g_resolver g) r of
       Resolved tenantID \<Rightarrow> (case Registry_Get (g_registry g) tenantID of Inl _ \<Rightarrow> []
         | Inr provider \<Rightarrow> (case ExtractBearerToken (Header_Get (rq_Header r) ''Authorization'') of Inl _ \<Rightarrow> []
             | Inr rawToken \<Rightarrow>
                if \<not> g_enableDPoP g then identity_span en c g ca r tenantID provider rawToken None st
                else (case guard_dpop en c g ca r rawToken st of
                    (Inl _, st') \<Rightarrow> []
                  | (Inr proof, st') \<Rightarrow> identity_span en c g ca r tenantID provider rawToken (Some proof) st')))
     | _ \<Rightarrow> [])"

definition Guard_span ::
  "environment \<Rightarrow> 's cache_ops \<Rightarrow> Guard \<Rightarrow> call \<Rightarrow> http_request \<Rightarrow> 's guard_state \<Rightarrow> span_call list" where
  "Guard_span en c g ca r st =
     StartSpan ''gateway.Guard.ServeHTTP'' []
     @ (case gs_limiter st of None \<Rightarrow> tenant_span en c g ca r st
        | Some rl \<Rightarrow> (case allow (en_rnd en) (ca_now ca) (clientKey r) rl of
            (False, rl') \<Rightarrow> [] | (True, rl') \<Rightarrow> tenant_span en c g ca r (st\<lparr>gs_limiter := Some rl'\<rparr>)))
     @ [SpanEnd]"

section \<open>Lemmas\<close>

lemma identity_span_passes:
  assumes "token_passes en c g ca provider token pf st claims st'"
  shows "identity_span en c g ca r t provider token pf st = SpanFromToken (cc_Subject claims) (cc_ACR claims) t"
proof -
  have "cc_Active claims" using assms by (simp add: token_passes_def token_established_def)
  with assms binding_error_None [of claims en g ca provider pf] show ?thesis
    by (simp add: identity_span_def token_passes_def)
qed

lemma identity_span_not:
  assumes "\<nexists>claims st'. token_passes en c g ca provider token pf st claims st'"
  shows "identity_span en c g ca r t provider token pf st = []"
proof (rule ccontr)
  assume "identity_span en c g ca r t provider token pf st \<noteq> []"
  then obtain claims st' where "guard_introspect en c g ca provider token st = (Inr claims, st')" "cc_Active claims"
    "binding_error en g ca provider pf claims = None"
    by (auto simp: identity_span_def split: prod.splits sum.splits if_splits option.splits)
  with binding_error_None [of claims en g ca provider pf] have "token_passes en c g ca provider token pf st claims st'"
    by (simp add: token_passes_def)
  with assms show False by blast
qed

lemma tenant_span_eq:
  assumes "Resolve (g_resolver g) r = Resolved t" "Registry_Get (g_registry g) t = Inr provider"
    and "ExtractBearerToken (Header_Get (rq_Header r) ''Authorization'') = Inr token"
    and "proof_passes en c g ca r token st pf st'"
  shows "tenant_span en c g ca r st = identity_span en c g ca r t provider token pf st'"
  using assms by (auto simp: tenant_span_def proof_passes_def split: if_splits)

lemma tenant_span_not:
  assumes "\<nexists>t provider token pf st1 claims st2. Resolve (g_resolver g) r = Resolved t \<and> Registry_Get (g_registry g) t = Inr provider
     \<and> ExtractBearerToken (Header_Get (rq_Header r) ''Authorization'') = Inr token
     \<and> proof_passes en c g ca r token st pf st1 \<and> token_passes en c g ca provider token pf st1 claims st2"
  shows "tenant_span en c g ca r st = []"
proof (rule ccontr)
  assume span: "tenant_span en c g ca r st \<noteq> []"
  then obtain t provider token where r: "Resolve (g_resolver g) r = Resolved t" "Registry_Get (g_registry g) t = Inr provider"
    "ExtractBearerToken (Header_Get (rq_Header r) ''Authorization'') = Inr token"
    by (auto simp: tenant_span_def split: resolved.splits sum.splits)
  from span r obtain pf st1 where p: "proof_passes en c g ca r token st pf st1"
    by (auto simp: tenant_span_def proof_passes_def split: if_splits prod.splits sum.splits)
  from span tenant_span_eq [OF r p] identity_span_not [of en c g ca provider token pf st1 r t]
  obtain claims st2 where "token_passes en c g ca provider token pf st1 claims st2" by auto
  with assms r p show False by blast
qed

section \<open>Properties\<close>

text \<open>C36: traces name only verified identities.  Every request opens one span and ends it; the span gets
  the attributes subject, ACR and tenant exactly when the request is authenticated, and then those of
  the verified claims; no request records an error.\<close>

theorem span_identity:
  "\<exists>attrs. Guard_span en c g ca r st = SpanStart ''github.com/common-iam/iam'' ''gateway.Guard.ServeHTTP'' [] # attrs @ [SpanEnd]
    \<and> (\<forall>t provider token claims st1. authenticates en c g ca r st t provider token claims st1
          \<longrightarrow> attrs = [SpanSetAttributes [(''iam.subject'', cc_Subject claims), (''iam.acr'', cc_ACR claims), (''iam.tenant_id'', t)]])
    \<and> ((\<nexists>t provider token claims st1. authenticates en c g ca r st t provider token claims st1) \<longrightarrow> attrs = [])"
proof -
  obtain attrs where span: "Guard_span en c g ca r st = SpanStart ''github.com/common-iam/iam'' ''gateway.Guard.ServeHTTP'' [] # attrs @ [SpanEnd]"
    and attrs: "attrs = (case gs_limiter st of None \<Rightarrow> tenant_span en c g ca r st
        | Some rl \<Rightarrow> (case allow (en_rnd en) (ca_now ca) (clientKey r) rl of
            (False, rl') \<Rightarrow> [] | (True, rl') \<Rightarrow> tenant_span en c g ca r (st\<lparr>gs_limiter := Some rl'\<rparr>)))"
    by (simp add: Guard_span_def StartSpan_def tracerName_def)
  have rate: "attrs = tenant_span en c g ca r st1" if "rate_passes en ca r st st1" for st1
    using that attrs by (auto simp: rate_passes_def split: option.splits)
  have "attrs = SpanFromToken (cc_Subject claims) (cc_ACR claims) t"
    if auth: "authenticates en c g ca r st t provider token claims st'" for t provider token claims st'
  proof -
    obtain st1 st2 pf where s: "rate_passes en ca r st st1" "proof_passes en c g ca r token st1 pf st2"
      "token_passes en c g ca provider token pf st2 claims st'" using auth by (auto simp: authenticates_def)
    have "tenant_span en c g ca r st1 = identity_span en c g ca r t provider token pf st2"
      using auth s(2) by (intro tenant_span_eq) (simp_all add: authenticates_def)
    with rate [OF s(1)] identity_span_passes [OF s(3)] show ?thesis by simp
  qed
  moreover have "attrs = []" if no: "\<nexists>t provider token claims st1. authenticates en c g ca r st t provider token claims st1"
  proof (cases "\<exists>st1. rate_passes en ca r st st1")
    case True
    then obtain st1 where s: "rate_passes en ca r st st1" by blast
    with no have "tenant_span en c g ca r st1 = []" by (intro tenant_span_not) (auto simp: authenticates_def)
    with rate [OF s] show ?thesis by simp
  next
    case False
    then show ?thesis using attrs by (auto simp: rate_passes_def split: option.splits prod.splits bool.splits)
  qed
  ultimately show ?thesis using span by (intro exI [of _ attrs]) (simp add: SpanFromToken_def)
qed

theorem span_identity_witness:
  "Guard_span ex_env memory_ops ex_guard (ex_call (20 * Second)) (ex_second []) ex_state =
     [SpanStart ''github.com/common-iam/iam'' ''gateway.Guard.ServeHTTP'' [],
      SpanSetAttributes [(''iam.subject'', ''alice''), (''iam.acr'', ''gold''), (''iam.tenant_id'', ''acme'')], SpanEnd]"
proof -
  let ?ca = "ex_call (20 * Second)"
  obtain st1 where auth: "authenticates ex_env memory_ops ex_guard ?ca (ex_second []) ex_state ''acme'' ex_provider ''high'' high_claims st1"
    using ex_authenticates(2) [OF ex_fresh(1)] by blast
  from span_identity [of ex_env memory_ops ex_guard ?ca "ex_second []" ex_state] obtain attrs where span:
      "Guard_span ex_env memory_ops ex_guard ?ca (ex_second []) ex_state
        = SpanStart ''github.com/common-iam/iam'' ''gateway.Guard.ServeHTTP'' [] # attrs @ [SpanEnd]"
    and attrs: "\<forall>t provider token claims st1. authenticates ex_env memory_ops ex_guard ?ca (ex_second []) ex_state t provider token claims st1
        \<longrightarrow> attrs = [SpanSetAttributes [(''iam.subject'', cc_Subject claims), (''iam.acr'', cc_ACR claims), (''iam.tenant_id'', t)]]"
    by (elim exE conjE)
  have "cc_Subject high_claims = ''alice''" "cc_ACR high_claims = ''gold''" by (simp_all add: high_claims_def low_claims_def)
  with span attrs [rule_format, OF auth] show ?thesis by simp
qed

end
