(* ===== verification/Races.thy ===== *)
theory Races
  imports Dpop Policy Revocation
begin

text \<open>
  Handlers that run at the same time.  The other theories run each operation as a whole; here the
  operations that are not protected by one lock are cut at their accesses to shared state: policy
  evaluation, which reads the configuration pointer of \<^verbatim>\<open>pkg/core/policy/engine.go\<close> once per iteration
  without a lock while \<^verbatim>\<open>Reload\<close> replaces it; replay detection of \<^verbatim>\<open>dpop.go\<close>, a lookup and a store in the
  cache; and the subject index of \<^verbatim>\<open>revocation.go\<close>, a read-modify-write.  A schedule is the list of
  handlers in the order in which they take their steps.
\<close>

section \<open>Schedules\<close>

fun schedule :: "('l \<Rightarrow> 's \<Rightarrow> 'l \<times> 's) \<Rightarrow> nat list \<Rightarrow> 'l list \<times> 's \<Rightarrow> 'l list \<times> 's" where
  "schedule step [] conf = conf"
| "schedule step (i # sched) (ls, s) =
     (if i < length ls then (case step (ls ! i) s of (l, s') \<Rightarrow> schedule step sched (ls[i := l], s'))
      else schedule step sched (ls, s))"

text \<open>One handler alone.\<close>

fun alone :: "('l \<Rightarrow> 's \<Rightarrow> 'l \<times> 's) \<Rightarrow> nat \<Rightarrow> 'l \<times> 's \<Rightarrow> 'l \<times> 's" where
  "alone step 0 conf = conf"
| "alone step (Suc n) (l, s) = alone step n (step l s)"

lemma schedule_append: "schedule step (sched @ js) conf = schedule step js (schedule step sched conf)"
  by (induction step sched conf rule: schedule.induct) (auto split: prod.splits)

lemma schedule_alone:
  "i < length ls \<Longrightarrow> schedule step (replicate n i) (ls, s) =
     (case alone step n (ls ! i, s) of (l, s') \<Rightarrow> (ls[i := l], s'))"
proof (induction n arbitrary: ls s)
  case (Suc n)
  obtain l s' where st: "step (ls ! i) s = (l, s')" by fastforce
  then show ?case using Suc.IH [of "ls[i := l]" s'] Suc.prems by (simp split: prod.splits)
qed simp

text \<open>
  What the handlers of one kind promise: a finished handler stays as it is, every step of another
  brings it closer to its end as long as the shared state is good, and steps keep it good.  Then a
  handler ends when it is scheduled often enough, whatever the others do in between.
\<close>

locale handlers =
  fixes step :: "'l \<Rightarrow> 's \<Rightarrow> 'l \<times> 's" and finished :: "'l \<Rightarrow> bool" and remaining :: "'l \<Rightarrow> nat"
    and fit :: "'l \<Rightarrow> bool" and good :: "'s \<Rightarrow> bool"
  assumes halts: "finished l \<Longrightarrow> step l s = (l, s)"
    and progress: "fit l \<Longrightarrow> good s \<Longrightarrow> \<not> finished l \<Longrightarrow> remaining (fst (step l s)) < remaining l"
    and keeps: "fit l \<Longrightarrow> good s \<Longrightarrow> fit (fst (step l s)) \<and> good (snd (step l s))"
begin

lemma remaining_step:
  assumes "fit l" "good s"
  shows "finished (fst (step l s)) \<or> Suc (remaining (fst (step l s))) \<le> remaining l"
  using assms halts [of l s] progress [OF assms] by (cases "finished l") auto

lemma keeps_schedule:
  "list_all fit ls \<Longrightarrow> good s \<Longrightarrow> list_all fit (fst (schedule step sched (ls, s))) \<and> good (snd (schedule step sched (ls, s)))"
proof (induction sched arbitrary: ls s)
  case (Cons i sched)
  then show ?case using keeps [of "ls ! i" s]
    by (auto simp: list_all_length nth_list_update split: prod.splits)
qed simp

lemma stays_finished: "i < length ls \<Longrightarrow> finished (ls ! i) \<Longrightarrow> fst (schedule step sched (ls, s)) ! i = ls ! i"
proof (induction sched arbitrary: ls s)
  case (Cons j sched)
  obtain l s' where st: "step (ls ! j) s = (l, s')" by fastforce
  have "ls[j := l] ! i = ls ! i" using st halts [OF Cons.prems(2), of s] Cons.prems(1) by (cases "i = j") auto
  then show ?case using Cons.IH [of "ls[j := l]" s'] Cons.IH [of ls s] Cons.prems st by simp
qed simp

lemma finishes:
  assumes "list_all fit ls" "good s" "i < length ls" "remaining (ls ! i) < count_list sched i"
  shows "finished (fst (schedule step sched (ls, s)) ! i)"
  using assms
proof (induction sched arbitrary: ls s)
  case (Cons j sched)
  show ?case
  proof (cases "j < length ls")
    case True
    obtain l s' where st: "step (ls ! j) s = (l, s')" by fastforce
    have fit: "fit (ls ! j)" using Cons.prems(1) True by (simp add: list_all_length)
    then have kept: "list_all fit (ls[j := l])" "good s'"
      using keeps [OF fit Cons.prems(2)] st Cons.prems(1) True by (auto simp: list_all_length nth_list_update)
    show ?thesis
    proof (cases "finished (ls[j := l] ! i)")
      case True
      then show ?thesis using stays_finished [of i "ls[j := l]" sched s'] Cons.prems(3) st \<open>j < length ls\<close> by simp
    next
      case False
      then have "remaining (ls[j := l] ! i) < count_list sched i"
        using remaining_step [OF fit Cons.prems(2)] st Cons.prems(3,4) by (cases "i = j") auto
      then show ?thesis using Cons.IH [OF kept] Cons.prems(3) st True by simp
    qed
  next
    case False
    then show ?thesis using Cons by auto
  qed
qed simp

end

text \<open>Handlers that only read the shared state do not disturb each other.\<close>

lemma readers_undisturbed:
  assumes "\<And>l s. l \<in> R \<Longrightarrow> fst (step l s) \<in> R \<and> snd (step l s) = s" "set ls \<subseteq> R" "i < length ls"
  shows "fst (schedule step sched (ls, s)) ! i = fst (alone step (count_list sched i) (ls ! i, s)) \<and> snd (schedule step sched (ls, s)) = s"
  using assms(2,3)
proof (induction sched arbitrary: ls)
  case (Cons j sched)
  show ?case
  proof (cases "j < length ls")
    case True
    then have r: "ls ! j \<in> R" using Cons.prems(1) by auto
    obtain l where st: "step (ls ! j) s = (l, s)" "l \<in> R" using assms(1) [OF r, of s] by (metis prod.collapse)
    then have "set (ls[j := l]) \<subseteq> R" using Cons.prems(1) set_update_subset_insert [of ls j l] by blast
    from Cons.IH [OF this] Cons.prems(2) True st show ?thesis by (cases "i = j") simp_all
  qed (use Cons in auto)
qed simp

text \<open>What one handler may rely on: if its own steps and the steps of every handler that keeps to \<open>F\<close>
  preserve \<open>Q\<close> of it, while the shared state stays in \<open>G\<close>, then \<open>Q\<close> holds after every schedule.\<close>

lemma schedule_rely:
  assumes own: "\<And>l s. Q l s \<Longrightarrow> G s \<Longrightarrow> Q (fst (step l s)) (snd (step l s))"
    and other: "\<And>l l' s. Q l s \<Longrightarrow> G s \<Longrightarrow> F l' \<Longrightarrow> Q l (snd (step l' s))"
    and env: "\<And>l s. F l \<Longrightarrow> G s \<Longrightarrow> F (fst (step l s)) \<and> G (snd (step l s))"
    and init: "list_all F ls" "G s" "i < length ls" "Q (ls ! i) s"
  shows "\<exists>s'. Q (fst (schedule step sched (ls, s)) ! i) s'"
  using init
proof (induction sched arbitrary: ls s)
  case (Cons j sched)
  show ?case
  proof (cases "j < length ls")
    case True
    obtain l s' where st: "step (ls ! j) s = (l, s')" by fastforce
    have F: "F (ls ! j)" using Cons.prems(1) True by (simp add: list_all_length)
    have kept: "F l" "G s'" using env [OF F Cons.prems(2)] st by simp_all
    have fits: "list_all F (ls[j := l])"
      using Cons.prems(1) kept(1) set_update_subset_insert [of ls j l] by (auto simp: list_all_iff)
    have "Q (ls[j := l] ! i) s'"
      using own [OF Cons.prems(4,2)] other [OF Cons.prems(4,2) F] st Cons.prems(3) by (cases "i = j") auto
    then show ?thesis using Cons.IH [OF fits kept(2)] Cons.prems(3) st True by simp
  qed (use Cons in auto)
qed auto

section \<open>Policy evaluation and reload (engine.go)\<close>

text \<open>The points of \<^verbatim>\<open>Evaluate\<close> between two reads of \<^verbatim>\<open>e.config\<close>: the test against nil, the range expression,
  one read for each iteration, and one for the ACR levels.  A read through a nil pointer and an index out
  of range panic.\<close>

datatype policy_thread =
    EvalStart PolicyRequest
  | EvalRange PolicyRequest
  | EvalLoop PolicyRequest nat nat
  | EvalCheck PolicyRequest Policy
  | EvalDone PolicyResult
  | EvalPanic
  | Reloading "Config option"
  | Reloaded

definition reads_levels :: "PolicyRequest \<Rightarrow> Policy \<Rightarrow> bool" where
  "reads_levels req p = (first_missing (pr_TokenScopes req) (pol_RequireScopes p) = None \<and> pol_RequireACR p \<noteq> [])"

fun policy_step :: "policy_thread \<Rightarrow> Engine \<Rightarrow> policy_thread \<times> Engine" where
  "policy_step (EvalStart req) e =
     ((case eng_config e of None \<Rightarrow> EvalDone (denied ''no policy config loaded'') | Some _ \<Rightarrow> EvalRange req), e)"
| "policy_step (EvalRange req) e =
     ((case eng_config e of None \<Rightarrow> EvalPanic | Some c \<Rightarrow> EvalLoop req 0 (length (cfg_Policies c))), e)"
| "policy_step (EvalLoop req i n) e =
     ((if n \<le> i then EvalDone (denied ''no matching policy'')
       else (case eng_config e of None \<Rightarrow> EvalPanic
         | Some c \<Rightarrow>
            if length (cfg_Policies c) \<le> i then EvalPanic
            else (let p = cfg_Policies c ! i in
                  if \<not> pol_Enabled p then EvalLoop req (Suc i) n
                  else if \<not> matchesPolicy p req then EvalLoop req (Suc i) n
                  else EvalCheck req p))), e)"
| "policy_step (EvalCheck req p) e =
     ((case eng_config e of
         Some c \<Rightarrow> EvalDone (check c p req)
       | None \<Rightarrow> if reads_levels req p then EvalPanic
                 else EvalDone (check \<lparr>cfg_Version = [], cfg_Realm = [], cfg_Policies = [], cfg_ACRLevels = []\<rparr> p req)), e)"
| "policy_step (Reloading cfg) e = (Reloaded, Reload e cfg)"
| "policy_step l e = (l, e)"

fun policy_finished :: "policy_thread \<Rightarrow> bool" where
  "policy_finished (EvalDone r) = True"
| "policy_finished EvalPanic = True"
| "policy_finished Reloaded = True"
| "policy_finished l = False"

text \<open>The steps that are left, when no configuration has more than \<open>N\<close> policies.\<close>

fun policy_remaining :: "nat \<Rightarrow> policy_thread \<Rightarrow> nat" where
  "policy_remaining N (EvalStart req) = N + 3"
| "policy_remaining N (EvalRange req) = N + 2"
| "policy_remaining N (EvalLoop req i n) = Suc (n - i)"
| "policy_remaining N (EvalCheck req p) = 1"
| "policy_remaining N (Reloading cfg) = 1"
| "policy_remaining N l = 0"

definition config_fits :: "nat \<Rightarrow> Config option \<Rightarrow> bool" where
  "config_fits N cfg = (case cfg of None \<Rightarrow> True | Some c \<Rightarrow> length (cfg_Policies c) \<le> N)"

fun thread_fits :: "nat \<Rightarrow> policy_thread \<Rightarrow> bool" where
  "thread_fits N (Reloading cfg) = config_fits N cfg"
| "thread_fits N l = True"

interpretation pol: handlers policy_step policy_finished "policy_remaining N" "thread_fits N" "\<lambda>e. config_fits N (eng_config e)"
proof
  fix l s
  show "policy_finished l \<Longrightarrow> policy_step l s = (l, s)" by (cases l) auto
  show "thread_fits N l \<Longrightarrow> config_fits N (eng_config s) \<Longrightarrow> \<not> policy_finished l \<Longrightarrow>
      policy_remaining N (fst (policy_step l s)) < policy_remaining N l"
    by (cases l) (auto simp: config_fits_def Let_def split: option.splits)
  show "thread_fits N l \<Longrightarrow> config_fits N (eng_config s) \<Longrightarrow>
      thread_fits N (fst (policy_step l s)) \<and> config_fits N (eng_config (snd (policy_step l s)))"
    by (cases l) (auto simp: Let_def Reload_def split: option.splits)
qed

text \<open>Alone, the steps are the function \<open>Evaluate\<close>.\<close>

lemma alone_halted: "policy_finished l \<Longrightarrow> alone policy_step n (l, e) = (l, e)"
  by (induction n) (simp_all add: pol.halts)

lemma alone_loop:
  assumes "eng_config e = Some c" "i \<le> length (cfg_Policies c)" "length (cfg_Policies c) - i + 2 \<le> k"
  shows "alone policy_step k (EvalLoop req i (length (cfg_Policies c)), e)
    = (EvalDone (evaluate_policies c (drop i (cfg_Policies c)) req), e)"
  using assms(2,3)
proof (induction "length (cfg_Policies c) - i" arbitrary: i k)
  case 0
  then show ?case by (cases k) (simp_all add: alone_halted)
next
  case (Suc m)
  let ?p = "cfg_Policies c ! i"
  obtain k' where k: "k = Suc k'" "length (cfg_Policies c) - Suc i + 2 \<le> k'" using Suc.prems Suc.hyps(2) by (cases k) auto
  have i: "i < length (cfg_Policies c)" using Suc.hyps(2) by simp
  then have d: "drop i (cfg_Policies c) = ?p # drop (Suc i) (cfg_Policies c)" by (simp add: Cons_nth_drop_Suc)
  have rest: "alone policy_step k' (EvalLoop req (Suc i) (length (cfg_Policies c)), e)
      = (EvalDone (evaluate_policies c (drop (Suc i) (cfg_Policies c)) req), e)"
    using Suc.hyps(1) [of "Suc i" k'] Suc.hyps(2) i k(2) by simp
  obtain k'' where "k' = Suc k''" using k(2) by (cases k') auto
  then show ?case using rest i assms(1) by (auto simp: k(1) d Let_def alone_halted)
qed

lemma alone_Evaluate:
  assumes "config_fits N (eng_config e)" "N + 4 \<le> k" "Evaluate e req = Inr r"
  shows "alone policy_step k (EvalStart req, e) = (EvalDone r, e)"
proof -
  obtain k' where k: "k = Suc (Suc k')" "N + 2 \<le> k'" using assms(2) by (cases k; cases "k - 1") auto
  show ?thesis using assms(1,3) k(2) alone_loop [of e _ 0 k' req]
    by (auto simp: k(1) Evaluate_def config_fits_def alone_halted split: option.splits)
qed

subsection \<open>A reload that only adds policies\<close>

text \<open>What holds of an evaluation of \<open>req\<close> and of the engine while one reload from \<open>c0\<close> to \<open>c1\<close> is under way.\<close>

definition unmatched :: "Config \<Rightarrow> PolicyRequest \<Rightarrow> nat \<Rightarrow> bool" where
  "unmatched c req i = (\<forall>j < i. \<not> (pol_Enabled (cfg_Policies c ! j) \<and> matchesPolicy (cfg_Policies c ! j) req))"

fun consistent :: "Config \<Rightarrow> Config \<Rightarrow> PolicyRequest \<Rightarrow> Engine \<Rightarrow> policy_thread \<Rightarrow> bool" where
  "consistent c0 c1 req e (EvalStart req') = (req' = req)"
| "consistent c0 c1 req e (EvalRange req') = (req' = req)"
| "consistent c0 c1 req e (EvalLoop req' i n) = (req' = req \<and> i \<le> n \<and> unmatched c1 req i
     \<and> (n = length (cfg_Policies c0) \<or> n = length (cfg_Policies c1) \<and> eng_config e = Some c1))"
| "consistent c0 c1 req e (EvalCheck req' p) = (req' = req \<and> check c1 p req = evaluate_policies c1 (cfg_Policies c1) req)"
| "consistent c0 c1 req e (EvalDone r) = (\<exists>c \<in> {c0, c1}. r = evaluate_policies c (cfg_Policies c) req)"
| "consistent c0 c1 req e l = False"

definition reloads_only :: "Config \<Rightarrow> policy_thread list \<Rightarrow> bool" where
  "reloads_only c1 ls = (\<forall>cfg. Reloading cfg \<in> set ls \<longrightarrow> cfg = Some c1)"

lemma check_levels: "cfg_ACRLevels c0 = cfg_ACRLevels c1 \<Longrightarrow> check c0 p req = check c1 p req"
  by (simp only: check_def)

lemma unmatched_Suc: "unmatched c req (Suc i) \<longleftrightarrow>
    unmatched c req i \<and> \<not> (pol_Enabled (cfg_Policies c ! i) \<and> matchesPolicy (cfg_Policies c ! i) req)"
  by (auto simp: unmatched_def less_Suc_eq)

lemma unmatched_all: "unmatched c req (length (cfg_Policies c)) \<Longrightarrow>
    evaluate_policies c (cfg_Policies c) req = denied ''no matching policy''"
proof -
  assume "unmatched c req (length (cfg_Policies c))"
  then have "governing (cfg_Policies c) req = None"
    by (auto simp: governing_def unmatched_def find_None_iff in_set_conv_nth)
  then show ?thesis by (simp add: evaluate_policies_eq)
qed

lemma unmatched_first:
  assumes "unmatched c req i" "i < length (cfg_Policies c)" "pol_Enabled (cfg_Policies c ! i)" "matchesPolicy (cfg_Policies c ! i) req"
  shows "evaluate_policies c (cfg_Policies c) req = check c (cfg_Policies c ! i) req"
proof -
  have "governing (cfg_Policies c) req = Some (cfg_Policies c ! i)"
    using assms by (auto simp: governing_def unmatched_def find_Some_iff intro!: exI [of _ i])
  then show ?thesis by (simp add: evaluate_policies_eq)
qed

lemma consistent_step:
  assumes grow: "cfg_Policies c1 = cfg_Policies c0 @ extra" "cfg_ACRLevels c0 = cfg_ACRLevels c1"
    and e: "eng_config e \<in> {Some c0, Some c1}" and l: "consistent c0 c1 req e l"
  shows "consistent c0 c1 req e (fst (policy_step l e))"
proof (cases l)
  case (EvalLoop req' i n)
  show ?thesis
  proof (cases "n \<le> i")
    case True
    have "unmatched c1 req (length (cfg_Policies c0)) \<Longrightarrow> unmatched c0 req (length (cfg_Policies c0))"
      by (auto simp: unmatched_def grow(1) nth_append)
    then show ?thesis using True l EvalLoop unmatched_all [of c0 req] unmatched_all [of c1 req] by auto
  next
    case False
    obtain c where c: "eng_config e = Some c" "c = c0 \<or> c = c1" using e by auto
    have i: "i < length (cfg_Policies c)" "cfg_Policies c ! i = cfg_Policies c1 ! i" "i < length (cfg_Policies c1)"
      using False l EvalLoop c grow(1) by (auto simp: nth_append)
    then show ?thesis using False l EvalLoop c unmatched_first [of c1 req i] by (auto simp: Let_def unmatched_Suc)
  qed
next
  case (EvalCheck req' p)
  then show ?thesis using e l check_levels [OF grow(2)] by auto
qed (use e l in \<open>auto simp: unmatched_def\<close>)

lemma consistent_reloaded: "consistent c0 c1 req e l \<Longrightarrow> consistent c0 c1 req (Reload e (Some c1)) l"
  by (cases l) (auto simp: Reload_def)

lemma policy_step_engine: "snd (policy_step l e) = (case l of Reloading cfg \<Rightarrow> Reload e cfg | _ \<Rightarrow> e)"
  by (cases l) simp_all

lemma step_not_Reloading: "fst (policy_step l e) \<noteq> Reloading cfg"
  by (cases l) (auto simp: Let_def split: option.splits)

lemma consistent_schedule:
  assumes grow: "cfg_Policies c1 = cfg_Policies c0 @ extra" "cfg_ACRLevels c0 = cfg_ACRLevels c1"
    and "eng_config e \<in> {Some c0, Some c1}" "reloads_only c1 ls" "i < length ls" "consistent c0 c1 req e (ls ! i)"
  shows "\<exists>e'. consistent c0 c1 req e' (fst (schedule policy_step sched (ls, e)) ! i)"
proof (rule schedule_rely [where Q = "\<lambda>l e. consistent c0 c1 req e l" and G = "\<lambda>e. eng_config e \<in> {Some c0, Some c1}"
      and F = "\<lambda>l. \<forall>cfg. l = Reloading cfg \<longrightarrow> cfg = Some c1", OF _ _ _ _ assms(3,5,6)])
  fix l e assume l: "consistent c0 c1 req e l" and e: "eng_config e \<in> {Some c0, Some c1}"
  then have "snd (policy_step l e) = e" by (cases l) simp_all
  then show "consistent c0 c1 req (snd (policy_step l e)) (fst (policy_step l e))"
    using consistent_step [OF grow e l] by simp
next
  fix l l' e assume "consistent c0 c1 req e l" "\<forall>cfg. l' = Reloading cfg \<longrightarrow> cfg = Some c1"
  then show "consistent c0 c1 req (snd (policy_step l' e)) l"
    using consistent_reloaded by (cases l') (simp_all add: policy_step_engine)
next
  fix l and e :: Engine assume "\<forall>cfg. l = Reloading cfg \<longrightarrow> cfg = Some c1" "eng_config e \<in> {Some c0, Some c1}"
  then show "(\<forall>cfg. fst (policy_step l e) = Reloading cfg \<longrightarrow> cfg = Some c1) \<and> eng_config (snd (policy_step l e)) \<in> {Some c0, Some c1}"
    by (auto simp: step_not_Reloading policy_step_engine Reload_def split: policy_thread.splits)
qed (use assms(4) in \<open>auto simp: reloads_only_def list_all_iff\<close>)

subsection \<open>Reloads that keep the number of policies\<close>

text \<open>What an evaluation may decide while the configurations of \<open>C\<close> replace each other: that nothing matches, or the
  check of an enabled, matching policy of one of them, with the ACR levels of one of them.\<close>

definition from_loaded :: "Config set \<Rightarrow> PolicyRequest \<Rightarrow> Policy \<Rightarrow> bool" where
  "from_loaded C req p = (\<exists>c \<in> C. p \<in> set (cfg_Policies c) \<and> pol_Enabled p \<and> matchesPolicy p req)"

definition decided :: "Config set \<Rightarrow> PolicyRequest \<Rightarrow> PolicyResult \<Rightarrow> bool" where
  "decided C req r = (r = denied ''no matching policy''
     \<or> (\<exists>c \<in> C. \<exists>p. from_loaded C req p \<and> r = check c p req))"

fun evaluating :: "Config set \<Rightarrow> nat \<Rightarrow> PolicyRequest \<Rightarrow> policy_thread \<Rightarrow> bool" where
  "evaluating C N req (EvalStart req') = (req' = req)"
| "evaluating C N req (EvalRange req') = (req' = req)"
| "evaluating C N req (EvalLoop req' i n) = (req' = req \<and> n = N)"
| "evaluating C N req (EvalCheck req' p) = (req' = req \<and> from_loaded C req p)"
| "evaluating C N req (EvalDone r) = decided C req r"
| "evaluating C N req l = False"

lemma evaluating_step:
  assumes "\<forall>c \<in> C. length (cfg_Policies c) = N" "eng_config e \<in> Some ` C" "evaluating C N req l"
  shows "evaluating C N req (fst (policy_step l e)) \<and> snd (policy_step l e) = e"
proof -
  obtain c where c: "eng_config e = Some c" "c \<in> C" using assms(2) by blast
  then have n: "length (cfg_Policies c) = N" using assms(1) by blast
  have p: "i < N \<Longrightarrow> cfg_Policies c ! i \<in> set (cfg_Policies c)" for i using n by simp
  show ?thesis
  proof (cases l)
    case (EvalLoop req' i m)
    have "from_loaded C req (cfg_Policies c ! i)"
      if "i < N" "pol_Enabled (cfg_Policies c ! i)" "matchesPolicy (cfg_Policies c ! i) req"
      using that p c(2) by (auto simp: from_loaded_def)
    then show ?thesis using EvalLoop assms(3) c n by (simp add: Let_def decided_def)
  next
    case (EvalCheck req' q)
    then show ?thesis using assms(3) c by (auto simp: decided_def)
  qed (use assms(3) c n in auto)
qed

lemma evaluating_schedule:
  assumes "\<forall>c \<in> C. length (cfg_Policies c) = N" "eng_config e \<in> Some ` C"
    and "\<forall>cfg. Reloading cfg \<in> set ls \<longrightarrow> cfg \<in> Some ` C" "i < length ls" "ls ! i = EvalStart req"
  shows "evaluating C N req (fst (schedule policy_step sched (ls, e)) ! i)"
proof -
  have "\<exists>s' :: Engine. evaluating C N req (fst (schedule policy_step sched (ls, e)) ! i)"
  proof (rule schedule_rely [where Q = "\<lambda>l _. evaluating C N req l" and G = "\<lambda>e. eng_config e \<in> Some ` C"
        and F = "\<lambda>l. \<forall>cfg. l = Reloading cfg \<longrightarrow> cfg \<in> Some ` C", OF _ _ _ _ assms(2,4)])
    fix l and e :: Engine assume "evaluating C N req l" "eng_config e \<in> Some ` C"
    then show "evaluating C N req (fst (policy_step l e))" using evaluating_step [OF assms(1)] by blast
  next
    fix l and e :: Engine assume "\<forall>cfg. l = Reloading cfg \<longrightarrow> cfg \<in> Some ` C" "eng_config e \<in> Some ` C"
    then show "(\<forall>cfg. fst (policy_step l e) = Reloading cfg \<longrightarrow> cfg \<in> Some ` C) \<and> eng_config (snd (policy_step l e)) \<in> Some ` C"
      by (simp add: step_not_Reloading policy_step_engine Reload_def split: policy_thread.splits)
  qed (use assms(3,5) in \<open>auto simp: list_all_iff\<close>)
  then show ?thesis by simp
qed

lemma evaluation_undisturbed:
  assumes "config_fits N (eng_config e)" "\<forall>cfg. Reloading cfg \<notin> set ls" "i < length ls" "ls ! i = EvalStart req"
    and "N + 4 \<le> count_list sched i" "Evaluate e req = Inr r"
  shows "fst (schedule policy_step sched (ls, e)) ! i = EvalDone r"
proof -
  let ?R = "{l. \<forall>cfg. l \<noteq> Reloading cfg}"
  have "fst (policy_step l s) \<in> ?R \<and> snd (policy_step l s) = s" if "l \<in> ?R" for l s
    using that by (cases l) (auto simp: Let_def split: option.splits)
  moreover have "set ls \<subseteq> ?R" using assms(2) by auto
  ultimately have "fst (schedule policy_step sched (ls, e)) ! i = fst (alone policy_step (count_list sched i) (EvalStart req, e))"
    using readers_undisturbed [of ?R policy_step ls i sched e] assms(3,4) by simp
  then show ?thesis using alone_Evaluate [OF assms(1,5,6)] by simp
qed

section \<open>Properties of evaluation\<close>

text \<open>C20: evaluation ends with a decision, whatever runs beside it.  While other requests are evaluated and any
  number of reloads take place among loaded configurations that have the same number of policies, an evaluation
  that was scheduled four times more often than that number has returned a result and has not panicked, in every
  interleaving.  The result is that no policy matches, or the check of an enabled policy of one of these
  configurations that matches the request, with the ACR levels of one of them; and when no reload
  takes place it is the result the engine gives alone.  (Reloads that change the number of policies
  can make an evaluation panic; that is the subject of \<open>reload_race\<close> below.)\<close>

theorem evaluation_finishes:
  assumes "\<forall>c \<in> C. length (cfg_Policies c) = N" "eng_config e \<in> Some ` C"
    and "\<forall>cfg. Reloading cfg \<in> set ls \<longrightarrow> cfg \<in> Some ` C" "i < length ls" "ls ! i = EvalStart req"
    and "N + 4 \<le> count_list sched i"
  shows "\<exists>r. fst (schedule policy_step sched (ls, e)) ! i = EvalDone r \<and> decided C req r
    \<and> ((\<forall>cfg. Reloading cfg \<notin> set ls) \<longrightarrow> Evaluate e req = Inr r)"
proof -
  have fits: "config_fits N cfg" if "cfg \<in> Some ` C" for cfg using that assms(1) by (auto simp: config_fits_def)
  have "thread_fits N l" if l: "l \<in> set ls" for l
  proof (cases l)
    case (Reloading cfg)
    then show ?thesis using assms(3) l fits by simp
  qed simp_all
  then have "policy_finished (fst (schedule policy_step sched (ls, e)) ! i)"
    using pol.finishes [of N ls e i sched] fits [OF assms(2)] assms(4-6) by (simp add: list_all_iff)
  moreover have "evaluating C N req (fst (schedule policy_step sched (ls, e)) ! i)"
    by (rule evaluating_schedule [OF assms(1-5)])
  ultimately obtain r where r: "fst (schedule policy_step sched (ls, e)) ! i = EvalDone r" "decided C req r"
    by (cases "fst (schedule policy_step sched (ls, e)) ! i") auto
  have "Evaluate e req = Inr r" if "\<forall>cfg. Reloading cfg \<notin> set ls"
    using Evaluate_total [of e req] evaluation_undisturbed [OF fits [OF assms(2)] that assms(4-6)] r(1) by auto
  with r show ?thesis by blast
qed

theorem evaluation_finishes_witness:
  "\<exists>r. fst (schedule policy_step [0, 0, 1, 0, 0, 2, 0] ([EvalStart wit_req, Reloading (Some (wit_config\<lparr>cfg_ACRLevels := []\<rparr>)),
        Reloading (Some wit_config)], Engine_New (Some wit_config))) ! 0 = EvalDone r
     \<and> decided {wit_config, wit_config\<lparr>cfg_ACRLevels := []\<rparr>} wit_req r"
proof -
  let ?C = "{wit_config, wit_config\<lparr>cfg_ACRLevels := []\<rparr>}"
  have "\<forall>c \<in> ?C. length (cfg_Policies c) = 1" by (simp add: wit_config_def)
  from evaluation_finishes [OF this, of "Engine_New (Some wit_config)"
      "[EvalStart wit_req, Reloading (Some (wit_config\<lparr>cfg_ACRLevels := []\<rparr>)), Reloading (Some wit_config)]"
      0 wit_req "[0, 0, 1, 0, 0, 2, 0]"]
  show ?thesis by (auto simp: Engine_New_def)
qed

text \<open>C21: adding policies at run time is safe.  While the engine is reloaded with a configuration that keeps the
  policies and the ACR levels and only appends policies, every evaluation that has ended gives the
  decision of the old or of the new configuration, and none panics, in every interleaving.\<close>

theorem append_reload_safe:
  assumes "cfg_Policies c1 = cfg_Policies c0 @ extra" "cfg_ACRLevels c0 = cfg_ACRLevels c1"
    and "reloads_only c1 ls" "i < length ls" "ls ! i = EvalStart req"
    and "fst (schedule policy_step sched (ls, Engine_New (Some c0))) ! i = l" "policy_finished l"
  shows "\<exists>c r. c \<in> {c0, c1} \<and> l = EvalDone r \<and> Evaluate (Engine_New (Some c)) req = Inr r"
proof -
  have "\<exists>e. consistent c0 c1 req e l"
    using consistent_schedule [OF assms(1,2) _ assms(3,4), of "Engine_New (Some c0)" req sched] assms(5,6) by (simp add: Engine_New_def)
  with assms(7) show ?thesis by (cases l) (auto simp: Evaluate_def Engine_New_def)
qed

theorem append_reload_safe_witness:
  "\<exists>c r. c \<in> {wit_config, wit_config\<lparr>cfg_Policies := [wit_policy, wit_policy]\<rparr>}
     \<and> fst (schedule policy_step [0, 0, 1, 0, 0] ([EvalStart wit_req, Reloading (Some (wit_config\<lparr>cfg_Policies := [wit_policy, wit_policy]\<rparr>))],
         Engine_New (Some wit_config))) ! 0 = EvalDone r
     \<and> Evaluate (Engine_New (Some c)) wit_req = Inr r"
proof -
  let ?c1 = "wit_config\<lparr>cfg_Policies := [wit_policy, wit_policy]\<rparr>"
  have ps: "cfg_Policies ?c1 = cfg_Policies wit_config @ [wit_policy]" "cfg_Policies wit_config = [wit_policy]" by (simp_all add: wit_config_def)
  have fin: "policy_finished (fst (schedule policy_step [0, 0, 1, 0, 0] ([EvalStart wit_req, Reloading (Some ?c1)], Engine_New (Some wit_config))) ! 0)"
    using wit_matches by (simp add: Engine_New_def Reload_def ps(2))
  show ?thesis
    using append_reload_safe [OF ps(1), of "[EvalStart wit_req, Reloading (Some ?c1)]" 0 wit_req, OF _ _ _ _ refl fin]
    by (auto simp: reloads_only_def)
qed

subsection \<open>A reload that does more\<close>

definition strict_policy :: Policy where
  "strict_policy = wit_policy\<lparr>pol_Resources := [''/pay''], pol_Methods := [], pol_RequireACR := ''gold''\<rparr>"

definition open_policy :: Policy where
  "open_policy = \<lparr>pol_Name = ''open'', pol_Resources = [''/pay''], pol_Methods = [], pol_RequireACR = [], pol_MaxAge = 0,
     pol_RequireMFA = False, pol_RequireScopes = [], pol_RequireAuthorizationDetails = [], pol_Enabled = True\<rparr>"

definition other_policy :: Policy where
  "other_policy = open_policy\<lparr>pol_Resources := [''/other'']\<rparr>"

definition race_request :: PolicyRequest where
  "race_request = \<lparr>pr_Method = ''GET'', pr_Path = ''/pay'', pr_TokenACR = [], pr_TokenAMR = [], pr_TokenScopes = [], pr_AuthAge = 0,
     pr_AuthorizationDetails = []\<rparr>"

definition race_config :: "Policy list \<Rightarrow> Config" where
  "race_config ps = wit_config\<lparr>cfg_Policies := ps\<rparr>"

lemma race_matches:
  "matchesPolicy strict_policy race_request" "matchesPolicy open_policy race_request" "\<not> matchesPolicy other_policy race_request"
  by code_simp+

lemma race_policies:
  "pol_Enabled strict_policy" "pol_Enabled open_policy" "pol_Enabled other_policy"
  "\<not> res_Allowed (check c strict_policy race_request)" "res_Allowed (check c open_policy race_request)"
  by (simp_all add: check_allowed strict_policy_def open_policy_def other_policy_def wit_policy_def race_request_def ACRSatisfies_iff
      position_def)

lemma race_config_sel [simp]: "eng_config (Engine_New (Some c)) = Some c" "cfg_Policies (race_config ps) = ps"
  by (simp_all add: Engine_New_def race_config_def)

text \<open>C23: a decision taken during a reload can be one that neither configuration gives.  Two configurations both
  refuse a request, but an evaluation that reads the first policy from the old and the second policy from
  the new one allows it; and when the new configuration is shorter, the evaluation panics.\<close>

theorem reload_race:
  "\<exists>old new short req.
     (\<exists>r. Evaluate (Engine_New (Some old)) req = Inr r \<and> \<not> res_Allowed r)
   \<and> (\<exists>r. Evaluate (Engine_New (Some new)) req = Inr r \<and> \<not> res_Allowed r)
   \<and> (\<exists>sched r. fst (schedule policy_step sched ([EvalStart req, Reloading (Some new)], Engine_New (Some old))) ! 0 = EvalDone r
        \<and> res_Allowed r)
   \<and> (\<exists>sched. fst (schedule policy_step sched ([EvalStart req, Reloading (Some short)], Engine_New (Some old))) ! 0 = EvalPanic)"
proof -
  let ?old = "race_config [other_policy, strict_policy]" and ?new = "race_config [strict_policy, open_policy]"
  let ?run = "\<lambda>sched new. fst (schedule policy_step sched ([EvalStart race_request, Reloading (Some new)], Engine_New (Some ?old))) ! 0"
  note facts = race_matches race_policies
  have "Evaluate (Engine_New (Some ?old)) race_request = Inr (check ?old strict_policy race_request)"
    "Evaluate (Engine_New (Some ?new)) race_request = Inr (check ?new strict_policy race_request)"
    using facts by (simp_all add: Evaluate_def)
  moreover have "?run [0, 0, 0, 1, 0, 0] ?new = EvalDone (check ?new open_policy race_request)"
    using facts by (simp add: Reload_def)
  moreover have "?run [0, 0, 0, 1, 0] (race_config []) = EvalPanic" using facts by (simp add: Reload_def)
  ultimately show ?thesis using facts by metis
qed

section \<open>Replay detection (dpop.go)\<close>

text \<open>The proof is checked and its jti looked up; then the jti is stored.\<close>

datatype dpop_thread =
    DpopStart time http_request string
  | DpopRecord time DPoPProof
  | DpopDone "DPoPProof result"

fun dpop_step ::
  "json_codec \<Rightarrow> crypto \<Rightarrow> (http_request \<Rightarrow> string) \<Rightarrow> 's cache_ops \<Rightarrow> DPoPConfig \<Rightarrow> dpop_thread \<Rightarrow> 's \<Rightarrow> dpop_thread \<times> 's" where
  "dpop_step codec cr urlString c cfg (DpopStart now r accessToken) s =
     ((case ValidateDPoP codec cr urlString now r accessToken cfg of
         Inl e \<Rightarrow> DpopDone (Inl e)
       | Inr proof \<Rightarrow>
          if dp_JTI proof = [] then DpopDone (Inl (Errorf ''dpop proof missing jti claim''))
          else (case co_Get c now s (dpopJTIPrefix @ dp_JTI proof) of
              Some _ \<Rightarrow> DpopDone (Inl ErrDPoPReplay) | None \<Rightarrow> DpopRecord now proof)), s)"
| "dpop_step codec cr urlString c cfg (DpopRecord now proof) s =
     (DpopDone (Inr proof), snd (co_Set c now s (dpopJTIPrefix @ dp_JTI proof) empty_claims (dc_MaxAge cfg)))"
| "dpop_step codec cr urlString c cfg (DpopDone res) s = (DpopDone res, s)"

fun dpop_finished :: "dpop_thread \<Rightarrow> bool" where
  "dpop_finished (DpopDone res) = True" | "dpop_finished l = False"

fun dpop_remaining :: "dpop_thread \<Rightarrow> nat" where
  "dpop_remaining (DpopStart now r t) = 2" | "dpop_remaining (DpopRecord now proof) = 1" | "dpop_remaining (DpopDone res) = 0"

interpretation dpop: handlers "dpop_step codec cr urlString c cfg" dpop_finished dpop_remaining "\<lambda>_. True" "\<lambda>_. True"
proof
  fix l s
  show "dpop_finished l \<Longrightarrow> dpop_step codec cr urlString c cfg l s = (l, s)" by (cases l) auto
  show "\<not> dpop_finished l \<Longrightarrow> dpop_remaining (fst (dpop_step codec cr urlString c cfg l s)) < dpop_remaining l"
    by (cases l) (auto split: sum.splits option.splits)
qed auto

lemma dpop_alone: "alone (dpop_step codec cr urlString c cfg) 2 (DpopStart now r t, s) =
    map_prod DpopDone id (Validate codec cr urlString c cfg now r t s)"
  by (simp add: eval_nat_numeral Validate_def Let_def split: sum.splits option.splits)

text \<open>A DPoP proof is accepted twice when two requests race.  If the same proof identifier is acceptable in two
  requests, then one after the other only the first is accepted, but when both look the
  identifier up before either stores it, both are accepted.\<close>

lemma dpop_race:
  assumes "Validate codec cr urlString memory_ops cfg t1 r1 tok1 s = (Inr p1, s1)"
    and "Validate codec cr urlString memory_ops cfg t2 r2 tok2 s = (Inr p2, s2)"
    and "dp_JTI p1 = dp_JTI p2" "t2 \<le> t1 + dc_MaxAge cfg"
  shows "fst (schedule (dpop_step codec cr urlString memory_ops cfg) [0, 0, 1, 1] ([DpopStart t1 r1 tok1, DpopStart t2 r2 tok2], s))
      = [DpopDone (Inr p1), DpopDone (Inl ErrDPoPReplay)]
    \<and> fst (schedule (dpop_step codec cr urlString memory_ops cfg) [0, 1, 0, 1] ([DpopStart t1 r1 tok1, DpopStart t2 r2 tok2], s))
      = [DpopDone (Inr p1), DpopDone (Inr p2)]"
  using Validate_InrD [OF assms(1)] Validate_InrD [OF assms(2)] assms(3,4) mc.get_set by simp

theorem dpop_race_witness:
  "fst (schedule (dpop_step wit_dpop_codec wit_crypto (\<lambda>_. ''u'') memory_ops DefaultDPoPConfig) [0, 1, 0, 1]
     ([DpopStart (5 * Second) wit_dpop_request ''t'', DpopStart (6 * Second) wit_dpop_request ''t''], NewMemoryCache))
   = [DpopDone (Inr wit_proof), DpopDone (Inr wit_proof)]"
  using dpop_race [OF wit_Validate [of "5 * Second"] wit_Validate [of "6 * Second"]] by (simp add: DefaultDPoPConfig_def)

section \<open>The subject index (revocation.go)\<close>

datatype index_thread =
    IndexStart time string string duration
  | IndexWrite time string "string list" duration
  | IndexDone

fun index_step :: "'s cache_ops \<Rightarrow> index_thread \<Rightarrow> 's \<Rightarrow> index_thread \<times> 's" where
  "index_step c (IndexStart now key tokenHash ttl) s =
     (let hashes = indexHashes c now s key in
      (if containsString hashes tokenHash then IndexDone else IndexWrite now key (hashes @ [tokenHash]) ttl, s))"
| "index_step c (IndexWrite now key hashes ttl) s = (IndexDone, snd (co_Set c now s key (index_entry hashes) ttl))"
| "index_step c IndexDone s = (IndexDone, s)"

fun index_remaining :: "index_thread \<Rightarrow> nat" where
  "index_remaining (IndexStart now key h ttl) = 2" | "index_remaining (IndexWrite now key hs ttl) = 1" | "index_remaining IndexDone = 0"

interpretation idx: handlers "index_step c" "\<lambda>l. l = IndexDone" index_remaining "\<lambda>_. True" "\<lambda>_. True"
proof
  fix l s
  show "l \<noteq> IndexDone \<Longrightarrow> index_remaining (fst (index_step c l s)) < index_remaining l" by (cases l) (auto simp: Let_def)
qed auto

lemma index_alone: "alone (index_step c) 2 (IndexStart now key h ttl, s) = (IndexDone, appendIndexHash c now s key h ttl)"
  by (simp add: eval_nat_numeral appendIndexHash_def Let_def)

text \<open>A lost update.  Two tokens of a subject are indexed at the same time: the entry written last lists only its own
  token, so that revoking all tokens of the subject leaves the other one in the cache.\<close>

lemma index_race:
  assumes "h1 \<notin> set (indexHashes memory_ops now s (subIndexPrefix @ sub))" "h2 \<notin> set (indexHashes memory_ops now s (subIndexPrefix @ sub))"
    and "h1 \<noteq> h2" "\<not> index_key h1" "t \<le> now + ttl" "sub \<noteq> []"
    and "s' = snd (schedule (index_step memory_ops) [0, 1, 0, 1]
      ([IndexStart now (subIndexPrefix @ sub) h1 ttl, IndexStart now (subIndexPrefix @ sub) h2 ttl], s))"
  shows "indexHashes memory_ops t s' (subIndexPrefix @ sub) = indexHashes memory_ops now s (subIndexPrefix @ sub) @ [h2]"
    and "MemoryCache_Get u (snd (process memory_ops t s' (empty_event\<lparr>ev_RevokeAll := True, ev_Subject := sub\<rparr>))) h1
      = MemoryCache_Get u s h1"
proof -
  let ?key = "subIndexPrefix @ sub"
  have s': "s' = snd (co_Set memory_ops now (snd (co_Set memory_ops now s ?key (index_entry (indexHashes memory_ops now s ?key @ [h1])) ttl))
      ?key (index_entry (indexHashes memory_ops now s ?key @ [h2])) ttl)"
    using assms(1,2) by (simp add: assms(7) Let_def del: memory_ops_sel)
  show ix: "indexHashes memory_ops t s' ?key = indexHashes memory_ops now s ?key @ [h2]"
    unfolding s' indexHashes_def [of memory_ops t] using assms(5) by (simp add: mc.get_set del: memory_ops_sel)
  have "h1 \<noteq> ?key" using assms(4) by auto
  moreover have "co_Get memory_ops u s' h1 = co_Get memory_ops u s h1"
    unfolding s' using \<open>h1 \<noteq> ?key\<close> by (simp only: mc.get_set if_False)
  ultimately show "MemoryCache_Get u (snd (process memory_ops t s' (empty_event\<lparr>ev_RevokeAll := True, ev_Subject := sub\<rparr>))) h1
      = MemoryCache_Get u s h1"
    using mc.delete_indexed(2) [of u t s' ?key h1] ix assms(1,3,6) by (simp add: process_def empty_event_def)
qed

end
