(* ===== verification/Introspection_Race.thy ===== *)
theory Introspection_Race
  imports Guard_History Races
begin

text \<open>
  Introspections that run beside revocations.  The guard looks a token up in the cache, asks the
  provider on a miss, and stores the answer (\<^verbatim>\<open>guard.go\<close>, \<^verbatim>\<open>introspect\<close>); no lock spans the three.  The
  authorization server may revoke the token and its webhook call, with an event of any kind, may delete
  cache entries in between.  The steps run along a schedule; the clock advances between them.  A webhook call
  is one step here, although it accesses the cache more than once for some events.
\<close>

section \<open>Steps\<close>

text \<open>The shared state: the clock, what the authorization server answers about a token, the cache, and
  two records of what happened: the answers the server gave, and for each handler that got an answer the
  time of the answer and the time when the handler was done with it.\<close>

record world =
  wo_now :: time
  wo_answer :: "string \<Rightarrow> CommonClaims result"
  wo_cache :: MemoryCache
  wo_told :: "(time \<times> string \<times> CommonClaims) list"
  wo_handled :: "(time \<times> time) list"

datatype look_thread =
    LookStart string
  | LookAsk string
  | LookStore string time CommonClaims
  | LookDone string time "CommonClaims result"
  | HookStart RevocationEvent
  | HookDone
  | ServerRevokes string
  | ServerDone
  | Clock "nat list"

fun look_step :: "environment \<Rightarrow> look_thread \<Rightarrow> world \<Rightarrow> look_thread \<times> world" where
  "look_step en (LookStart token) s =
     ((case MemoryCache_Get (wo_now s) (wo_cache s) (token_hash en token) of
         Some cached \<Rightarrow> LookDone token (wo_now s) (Inr cached) | None \<Rightarrow> LookAsk token), s)"
| "look_step en (LookAsk token) s = (case wo_answer s token of
       Inl e \<Rightarrow> (LookDone token (wo_now s) (Inl e), s)
     | Inr claims \<Rightarrow>
        (if cc_Active claims then LookStore token (wo_now s) claims else LookDone token (wo_now s) (Inr claims),
         s\<lparr>wo_told := wo_told s @ [(wo_now s, token, claims)]\<rparr>))"
| "look_step en (LookStore token asked claims) s =
     (let ttl = clamp_ttl (wo_now s) (30 * Second) claims;
          s' = s\<lparr>wo_handled := wo_handled s @ [(asked, wo_now s)]\<rparr> in
      (LookDone token (wo_now s) (Inr claims),
       if 0 < ttl
       then s'\<lparr>wo_cache := cache_token memory_ops (wo_now s) (wo_cache s) (token_hash en token) claims ttl\<rparr>
       else s'))"
| "look_step en (HookStart event) s =
     (HookDone, s\<lparr>wo_cache := snd (process memory_ops (wo_now s) (wo_cache s) event)\<rparr>)"
| "look_step en (ServerRevokes token) s =
     (ServerDone, s\<lparr>wo_answer := (wo_answer s)(token := Inr empty_claims)\<rparr>)"
| "look_step en (Clock (d # ds)) s = (Clock ds, s\<lparr>wo_now := wo_now s + int d\<rparr>)"
| "look_step en l s = (l, s)"

fun look_finished :: "look_thread \<Rightarrow> bool" where
  "look_finished (LookDone token t res) = True"
| "look_finished HookDone = True"
| "look_finished ServerDone = True"
| "look_finished (Clock ds) = (ds = [])"
| "look_finished l = False"

fun look_remaining :: "look_thread \<Rightarrow> nat" where
  "look_remaining (LookStart token) = 3"
| "look_remaining (LookAsk token) = 2"
| "look_remaining (LookStore token t claims) = 1"
| "look_remaining (HookStart event) = 1"
| "look_remaining (ServerRevokes token) = 1"
| "look_remaining (Clock ds) = length ds"
| "look_remaining l = 0"

interpretation look: handlers "look_step en" look_finished look_remaining "\<lambda>_. True" "\<lambda>_. True" for en
proof
  fix l s
  show "look_finished l \<Longrightarrow> look_step en l s = (l, s)" by (cases l) auto
  show "\<not> look_finished l \<Longrightarrow> look_remaining (fst (look_step en l s)) < look_remaining l"
    by (cases "(en, l, s)" rule: look_step.cases) (auto simp: Let_def split: option.splits sum.splits)
qed auto

text \<open>A handler that runs alone does what the guard's \<open>guard_introspect\<close> does: the same result and the
  same cache.\<close>

lemma look_alone:
  assumes "g_cache g" "gs_cache st = wo_cache s" "ca_now ca = wo_now s" "pv_Introspect provider = wo_answer s"
    and "guard_introspect en memory_ops g ca provider token st = (res, st')"
  shows "\<exists>s'. alone (look_step en) 3 (LookStart token, s) = (LookDone token (wo_now s) res, s') \<and> wo_cache s' = gs_cache st'"
  using assms
  by (auto simp: eval_nat_numeral guard_introspect_def Let_def split: option.splits sum.splits if_splits)

section \<open>Invariants that every step of every handler keeps\<close>

text \<open>Rely and guarantee for a schedule: \<open>J\<close> holds of the shared state, \<open>P\<close> of a handler together with
  it, and no step of another handler breaks \<open>P\<close>.\<close>

lemma schedule_rely_guarantee:
  assumes "J s" "\<forall>l \<in> set ls. P l s"
    and own: "\<And>l s. J s \<Longrightarrow> P l s \<Longrightarrow> J (snd (step l s)) \<and> P (fst (step l s)) (snd (step l s))"
    and stable: "\<And>l m s. J s \<Longrightarrow> P l s \<Longrightarrow> P m s \<Longrightarrow> P m (snd (step l s))"
  shows "J (snd (schedule step sched (ls, s))) \<and> (\<forall>l \<in> set (fst (schedule step sched (ls, s))). P l (snd (schedule step sched (ls, s))))"
  using assms(1,2)
proof (induction sched arbitrary: ls s)
  case (Cons i sched)
  show ?case
  proof (cases "i < length ls")
    case True
    then have l: "P (ls ! i) s" using Cons.prems(2) by simp
    obtain l' s' where st: "step (ls ! i) s = (l', s')" by fastforce
    have "J s'" "P l' s'" using own [OF Cons.prems(1) l] st by simp_all
    moreover have "\<forall>m \<in> set (ls[i := l']). P m s'"
      using stable [OF Cons.prems(1) l] Cons.prems(2) st \<open>P l' s'\<close> set_update_subset_insert [of ls i l'] by fastforce
    ultimately show ?thesis using Cons.IH [of s' "ls[i := l']"] True st by simp
  qed (use Cons in simp)
qed simp

text \<open>Claims that a lookup at time \<open>u\<close> may return for a token: the server gave them for a token with the
  same hash, and the handler that got them was done with them at most thirty seconds before.\<close>

definition recent :: "environment \<Rightarrow> world \<Rightarrow> string \<Rightarrow> time \<Rightarrow> CommonClaims \<Rightarrow> bool" where
  "recent en s token u c \<longleftrightarrow> (\<exists>t0 ts token'. (t0, token', c) \<in> set (wo_told s) \<and> token_hash en token' = token_hash en token
     \<and> (t0, ts) \<in> set (wo_handled s) \<and> t0 \<le> u \<and> u \<le> ts + 30 * Second)"

definition world_ok :: "environment \<Rightarrow> world \<Rightarrow> bool" where
  "world_ok en s \<longleftrightarrow> (\<forall>t token c. (t, token, c) \<in> set (wo_told s) \<longrightarrow> t \<le> wo_now s)
     \<and> (\<forall>u \<ge> wo_now s. \<forall>token c. MemoryCache_Get u (wo_cache s) (token_hash en token) = Some c \<longrightarrow> recent en s token u c)"

fun thread_ok :: "environment \<Rightarrow> look_thread \<Rightarrow> world \<Rightarrow> bool" where
  "thread_ok en (LookStore token t0 c) s = ((t0, token, c) \<in> set (wo_told s) \<and> cc_Active c)"
| "thread_ok en (LookDone token u res) s = (\<forall>c. res = Inr c \<longrightarrow> cc_Active c \<longrightarrow> recent en s token u c)"
| "thread_ok en l s = True"

text \<open>The records only grow.\<close>

definition grows :: "world \<Rightarrow> world \<Rightarrow> bool" where
  "grows s s' \<longleftrightarrow> set (wo_told s) \<subseteq> set (wo_told s') \<and> set (wo_handled s) \<subseteq> set (wo_handled s') \<and> wo_now s \<le> wo_now s'"

lemma look_step_grows: "grows s (snd (look_step en l s))"
  by (cases "(en, l, s)" rule: look_step.cases) (auto simp: grows_def Let_def split: sum.splits)

lemma grows_told: "grows s (s\<lparr>wo_told := wo_told s @ xs\<rparr>)"
  by (auto simp: grows_def)

lemma recent_grows: "recent en s token u c \<Longrightarrow> grows s s' \<Longrightarrow> recent en s' token u c"
  unfolding recent_def grows_def by blast

lemma thread_ok_grows: "thread_ok en l s \<Longrightarrow> grows s s' \<Longrightarrow> thread_ok en l s'"
  by (cases "(en, l, s)" rule: thread_ok.cases) (auto intro: recent_grows simp: grows_def)

lemma world_ok_fewer:
  assumes "world_ok en s" "grows s s'" "wo_told s' = wo_told s"
    and "\<And>u k c. MemoryCache_Get u (wo_cache s') k = Some c \<Longrightarrow> MemoryCache_Get u (wo_cache s) k = Some c"
  shows "world_ok en s'"
  unfolding world_ok_def
proof (intro conjI allI impI)
  show "t \<le> wo_now s'" if "(t, token, c) \<in> set (wo_told s')" for t token c
    using that assms(1-3) by (fastforce simp: world_ok_def grows_def)
  show "recent en s' token u c" if u: "wo_now s' \<le> u" and g: "MemoryCache_Get u (wo_cache s') (token_hash en token) = Some c" for u token c
  proof (rule recent_grows [OF _ assms(2)])
    show "recent en s token u c" using assms(1,2) assms(4) [OF g] u by (auto simp: world_ok_def grows_def)
  qed
qed

lemma world_ok_store:
  assumes "world_ok en s" "thread_ok en (LookStore token t0 c) s"
  shows "world_ok en (snd (look_step en (LookStore token t0 c) s))"
proof -
  let ?s = "snd (look_step en (LookStore token t0 c) s)" and ?ttl = "clamp_ttl (wo_now s) (30 * Second) c"
  have gr: "grows s ?s" by (rule look_step_grows)
  show ?thesis
  proof (cases "0 < ?ttl")
    case True
    have "recent en ?s k u c'" if u: "wo_now s \<le> u" and g: "MemoryCache_Get u (wo_cache ?s) (token_hash en k) = Some c'" for u k c'
    proof (cases "token_hash en k = token_hash en token")
      case True
      with g \<open>0 < ?ttl\<close> mc.get_cache_token [of "token_hash en k" u "wo_now s" "wo_cache s" "token_hash en token" c ?ttl]
      have "c' = c" "u \<le> wo_now s + ?ttl" by (simp_all add: Let_def split: if_splits)
      moreover have "t0 \<le> wo_now s" using assms by (auto simp: world_ok_def)
      ultimately show ?thesis
        using assms(2) True u clamp_ttl_le [of "wo_now s" "30 * Second" c] unfolding recent_def
        by (intro exI [of _ t0] exI [of _ "wo_now s"] exI [of _ token]) (simp add: Let_def)
    next
      case False
      with g \<open>0 < ?ttl\<close> mc.get_cache_token [of "token_hash en k" u "wo_now s" "wo_cache s" "token_hash en token" c ?ttl]
      have "MemoryCache_Get u (wo_cache s) (token_hash en k) = Some c'" by (simp add: Let_def)
      with assms(1) u recent_grows [OF _ gr] show ?thesis by (auto simp: world_ok_def)
    qed
    moreover have same: "wo_now ?s = wo_now s" "wo_told ?s = wo_told s" by (simp_all add: Let_def)
    ultimately show ?thesis using assms(1) unfolding world_ok_def same by blast
  next
    case False
    then show ?thesis by (intro world_ok_fewer [OF assms(1) gr]) (simp_all add: Let_def)
  qed
qed

lemma look_own:
  assumes "world_ok en s" "thread_ok en l s"
  shows "world_ok en (snd (look_step en l s)) \<and> thread_ok en (fst (look_step en l s)) (snd (look_step en l s))"
proof (cases l)
  case (LookStart token)
  then show ?thesis using assms(1) by (auto simp: world_ok_def split: option.splits)
next
  case (LookAsk token)
  have "world_ok en (s\<lparr>wo_told := wo_told s @ [(wo_now s, token, c)]\<rparr>)" for c
    using assms(1) recent_grows [OF _ grows_told] by (auto simp: world_ok_def)
  with LookAsk assms(1) show ?thesis by (auto split: sum.splits)
next
  case (LookStore token t0 c)
  have "t0 \<le> wo_now s" using assms LookStore by (auto simp: world_ok_def)
  then have "recent en (snd (look_step en l s)) token (wo_now s) c"
    using assms(2) LookStore unfolding recent_def
    by (intro exI [of _ t0] exI [of _ "wo_now s"] exI [of _ token]) (simp add: Let_def)
  then have "thread_ok en (fst (look_step en l s)) (snd (look_step en l s))" using LookStore by (simp add: Let_def)
  with world_ok_store [OF assms(1)] assms(2) LookStore show ?thesis by blast
next
  case (HookStart event)
  have "world_ok en (snd (look_step en (HookStart event) s))"
    using mc.get_process [of _ "wo_now s" "wo_cache s" event]
    by (intro world_ok_fewer [OF assms(1) look_step_grows]) simp_all
  with HookStart show ?thesis by simp
next
  case (ServerRevokes token)
  have "world_ok en (snd (look_step en (ServerRevokes token) s))"
    by (intro world_ok_fewer [OF assms(1) look_step_grows]) simp_all
  with ServerRevokes show ?thesis by simp
next
  case (Clock ds)
  have "world_ok en (snd (look_step en (Clock ds) s))"
    by (cases ds; intro world_ok_fewer [OF assms(1) look_step_grows]) simp_all
  with Clock show ?thesis by (cases ds) simp_all
qed (use assms in simp_all)

section \<open>Properties\<close>

fun look_initial :: "look_thread \<Rightarrow> bool" where
  "look_initial (LookStart token) = True"
| "look_initial (HookStart event) = True"
| "look_initial (ServerRevokes token) = True"
| "look_initial (Clock ds) = True"
| "look_initial l = False"

definition new_world :: "time \<Rightarrow> (string \<Rightarrow> CommonClaims result) \<Rightarrow> world" where
  "new_world now answer = \<lparr>wo_now = now, wo_answer = answer, wo_cache = NewMemoryCache, wo_told = [], wo_handled = []\<rparr>"

lemma run_ok:
  assumes "list_all look_initial ls" "schedule (look_step en) sched (ls, new_world now answer) = (ls', s')"
  shows "world_ok en s' \<and> (\<forall>l \<in> set ls'. thread_ok en l s')"
proof -
  have "world_ok en (new_world now answer)" by (simp add: world_ok_def new_world_def)
  moreover have "thread_ok en l s" if "look_initial l" for l s using that by (cases l) auto
  then have "\<forall>l \<in> set ls. thread_ok en l (new_world now answer)" using assms(1) by (auto simp: list_all_iff)
  ultimately show ?thesis
    using schedule_rely_guarantee [of "world_ok en" "new_world now answer" ls "thread_ok en" "look_step en" sched]
      look_own thread_ok_grows look_step_grows assms(2) by fastforce
qed

text \<open>C17: however introspections, revocations and webhook calls interleave, a token is accepted on an
  answer that is not older than thirty seconds plus the time a handler takes between the answer of the
  provider and its end.\<close>

theorem concurrent_staleness:
  assumes "list_all look_initial ls" "schedule (look_step en) sched (ls, new_world now answer) = (ls', s')"
    and "LookDone token u (Inr c) \<in> set ls'" "cc_Active c"
    and "\<forall>(t0, ts) \<in> set (wo_handled s'). ts - t0 \<le> D"
  shows "\<exists>t0 token'. (t0, token', c) \<in> set (wo_told s')
    \<and> HashToken (cr_Sum (en_crypto en) SHA256) token' = HashToken (cr_Sum (en_crypto en) SHA256) token
    \<and> t0 \<le> u \<and> u - t0 \<le> 30 * Second + D"
proof -
  have "thread_ok en (LookDone token u (Inr c)) s'" using run_ok [OF assms(1,2)] assms(3) by blast
  then have "recent en s' token u c" using assms(4) by simp
  then obtain t0 ts token' where r: "(t0, token', c) \<in> set (wo_told s')" "token_hash en token' = token_hash en token"
    "(t0, ts) \<in> set (wo_handled s')" "t0 \<le> u" "u \<le> ts + 30 * Second" unfolding recent_def by blast
  moreover have "ts - t0 \<le> D" using assms(5) r(3) by blast
  ultimately show ?thesis by (intro exI [of _ t0] exI [of _ token']) simp
qed

text \<open>C18: a revocation can be undone by an introspection that overlaps it.  The authorization server
  revokes a token and calls the webhook with an event of any kind, which deletes what the cache holds, while a
  handler holds the server's earlier answer; when the handler then stores it, the next request is
  accepted with a token the server calls inactive.  When the handler ends before the revocation and the
  event names the token's hash, the next request learns of it.\<close>

theorem revocation_race:
  assumes "wo_answer s token = Inr claims" "cc_Active claims" "0 < clamp_ttl (wo_now s) (30 * Second) claims"
    and "\<And>u. MemoryCache_Get u (wo_cache s) (HashToken (cr_Sum (en_crypto en) SHA256) token) = None"
    and "ls = [LookStart token, ServerRevokes token, HookStart event, LookStart token]"
  shows "(\<exists>s'. schedule (look_step en) [0, 0, 1, 2, 0, 3] (ls, s)
      = ([LookDone token (wo_now s) (Inr claims), ServerDone, HookDone, LookDone token (wo_now s) (Inr claims)], s')
      \<and> wo_answer s' token = Inr empty_claims)
    \<and> (ev_TokenHash event = HashToken (cr_Sum (en_crypto en) SHA256) token \<and> ev_TokenHash event \<noteq> [] \<longrightarrow>
      (\<exists>s'. schedule (look_step en) [0, 0, 0, 1, 2, 3, 3] (ls, s)
      = ([LookDone token (wo_now s) (Inr claims), ServerDone, HookDone, LookDone token (wo_now s) (Inr empty_claims)], s')))"
proof (intro conjI impI)
  let ?c = "\<lambda>m. cache_token memory_ops (wo_now s) m (token_hash en token) claims (clamp_ttl (wo_now s) (30 * Second) claims)"
  have get: "MemoryCache_Get (wo_now s) (?c m) (token_hash en token) = Some claims" for m
    using mc.get_cache_token [of "token_hash en token" "wo_now s" "wo_now s" m "token_hash en token" claims] assms(3) by simp
  show "\<exists>s'. schedule (look_step en) [0, 0, 1, 2, 0, 3] (ls, s)
      = ([LookDone token (wo_now s) (Inr claims), ServerDone, HookDone, LookDone token (wo_now s) (Inr claims)], s')
      \<and> wo_answer s' token = Inr empty_claims"
    using assms(1-4) get by (simp add: assms(5) Let_def)
  assume ev: "ev_TokenHash event = HashToken (cr_Sum (en_crypto en) SHA256) token \<and> ev_TokenHash event \<noteq> []"
  then have hash: "ev_TokenHash event = token_hash en token" "token_hash en token \<noteq> []" by auto
  have del: "MemoryCache_Get (wo_now s) (snd (process memory_ops t m event)) (token_hash en token) = None" for m t
    using mc.get_delete hash(2) by (simp add: process_def hash(1))
  have inactive: "\<not> cc_Active empty_claims" by (simp add: empty_claims_def)
  show "\<exists>s'. schedule (look_step en) [0, 0, 0, 1, 2, 3, 3] (ls, s)
      = ([LookDone token (wo_now s) (Inr claims), ServerDone, HookDone, LookDone token (wo_now s) (Inr empty_claims)], s')"
    using assms(1-4) del inactive by (simp add: assms(5) Let_def)
qed

section \<open>The example\<close>

definition ex_world :: world where
  "ex_world = new_world (10 * Second) (pv_Introspect ex_provider)"

lemma ex_high: "pv_Introspect ex_provider ''high'' = Inr high_claims" "cc_Active high_claims"
    "clamp_ttl t (30 * Second) high_claims = 30 * Second"
  by (simp_all add: ex_provider_def high_claims_def low_claims_def clamp_ttl_def empty_claims_def IsZero_def)

lemma ex_lookups:
  "\<exists>s'. schedule (look_step ex_env) [0, 0, 1, 0, 1, 2] ([LookStart ''high'', Clock [2, 5], LookStart ''high''], ex_world)
     = ([LookDone ''high'' (10 * Second + 2) (Inr high_claims), Clock [], LookDone ''high'' (10 * Second + 7) (Inr high_claims)], s')
     \<and> wo_handled s' = [(10 * Second, 10 * Second + 2)] \<and> wo_told s' = [(10 * Second, ''high'', high_claims)]"
proof -
  have get: "MemoryCache_Get (10 * Second + 7) (cache_token memory_ops (10 * Second + 2) m (token_hash ex_env ''high'') high_claims (30 * Second))
      (token_hash ex_env ''high'') = Some high_claims" for m
    using mc.get_cache_token [of "token_hash ex_env ''high''" "10 * Second + 7" "10 * Second + 2" m "token_hash ex_env ''high''" high_claims
        "30 * Second"] by simp
  show ?thesis
    using ex_high get by (simp add: ex_world_def new_world_def Let_def)
qed

theorem concurrent_staleness_witness:
  "\<exists>s' t0 token'. schedule (look_step ex_env) [0, 0, 1, 0, 1, 2] ([LookStart ''high'', Clock [2, 5], LookStart ''high''], ex_world)
     = ([LookDone ''high'' (10 * Second + 2) (Inr high_claims), Clock [], LookDone ''high'' (10 * Second + 7) (Inr high_claims)], s')
     \<and> (t0, token', high_claims) \<in> set (wo_told s') \<and> (10 * Second + 7) - t0 \<le> 30 * Second + 2"
proof -
  obtain s' where run: "schedule (look_step ex_env) [0, 0, 1, 0, 1, 2] ([LookStart ''high'', Clock [2, 5], LookStart ''high''], ex_world)
     = ([LookDone ''high'' (10 * Second + 2) (Inr high_claims), Clock [], LookDone ''high'' (10 * Second + 7) (Inr high_claims)], s')"
    and log: "wo_handled s' = [(10 * Second, 10 * Second + 2)]" "wo_told s' = [(10 * Second, ''high'', high_claims)]"
    using ex_lookups by blast
  have "list_all look_initial [LookStart ''high'', Clock [2, 5], LookStart ''high'']" by simp
  from concurrent_staleness [OF this run [unfolded ex_world_def], of "''high''" "10 * Second + 7" high_claims 2] ex_high(2) log
  obtain t0 token' where "(t0, token', high_claims) \<in> set (wo_told s')" "(10 * Second + 7) - t0 \<le> 30 * Second + 2" by auto
  with run show ?thesis by blast
qed

theorem revocation_race_witness:
  "\<exists>s'. schedule (look_step ex_env) [0, 0, 1, 2, 0, 3]
       ([LookStart ''high'', ServerRevokes ''high'', HookStart (empty_event\<lparr>ev_JTI := ''2''\<rparr>), LookStart ''high''], ex_world)
     = ([LookDone ''high'' (10 * Second) (Inr high_claims), ServerDone, HookDone, LookDone ''high'' (10 * Second) (Inr high_claims)], s')
     \<and> wo_answer s' ''high'' = Inr empty_claims"
proof -
  have w: "wo_now ex_world = 10 * Second" "wo_answer ex_world ''high'' = Inr high_claims" "wo_cache ex_world = NewMemoryCache"
    using ex_high(1) by (simp_all add: ex_world_def new_world_def)
  have "0 < clamp_ttl (wo_now ex_world) (30 * Second) high_claims" using ex_high(3) by simp
  from revocation_race [OF w(2) ex_high(2) this _ refl, of ex_env] w show ?thesis by simp
qed

end
