(* ===== verification/Pkce.thy ===== *)
theory Pkce
  imports Go_Encoding "HOL-Library.Word"
begin

text \<open>
  PKCE (\<^verbatim>\<open>pkg/core/pkce/pkce.go\<close>): generation of code verifiers, the S256 challenge,
  verification with a constant-time comparison on bytes, and the RFC 7636 checks.  SHA-256 is
  the parameter \<open>sha\<close>, the outcome of reading random bytes an argument.
\<close>

unbundle bit_operations_syntax

definition MethodS256 :: string where "MethodS256 = ''S256''"
definition MethodPlain :: string where "MethodPlain = ''plain''"

abbreviation MinVerifierLength :: nat where "MinVerifierLength \<equiv> 43"
abbreviation MaxVerifierLength :: nat where "MaxVerifierLength \<equiv> 128"

definition GenerateVerifier :: "string result \<Rightarrow> string result" where
  "GenerateVerifier random = (case random of
       Inl e \<Rightarrow> Inl (Wrapf ''generating PKCE verifier: '' e)
     | Inr b \<Rightarrow> (let v = RawURLEncoding_Encode b in
         Inr (if MaxVerifierLength < length v then take MaxVerifierLength v else v)))"

definition S256Challenge :: "(string \<Rightarrow> string) \<Rightarrow> string \<Rightarrow> string" where
  "S256Challenge sha verifier = RawURLEncoding_Encode (sha verifier)"

text \<open>The verb \<^verbatim>\<open>%q\<close> on a code point.\<close>

definition QuoteRune :: "nat \<times> string \<Rightarrow> string" where
  "QuoteRune rb = CHR 0x27 #
     (case rb of (r, b) \<Rightarrow> if r = 39 then [CHR 0x5C, CHR 0x27] else if r = 34 then [CHR 0x22]
        else if r = rune_error then map char_of [239, 191, 189 :: nat] else quote_rune rb) @ [CHR 0x27]"

definition allowed :: string where
  "allowed = ''ABCDEFGHIJKLMNOPQRSTUVWXYZabcdefghijklmnopqrstuvwxyz0123456789-._~''"

text \<open>The loop \<^verbatim>\<open>for i, c := range v\<close>: code points with their byte offset.\<close>

fun check_runes :: "nat \<Rightarrow> (nat \<times> string) list \<Rightarrow> error option" where
  "check_runes i [] = None"
| "check_runes i (rb # rs) =
     (if fst rb \<notin> set (map byte_of allowed)
      then Some (Errorf (''PKCE: code_verifier contains invalid character '' @ QuoteRune rb @ '' at position '' @ show_nat i))
      else check_runes (i + length (snd rb)) rs)"

definition validateVerifier :: "string \<Rightarrow> error option" where
  "validateVerifier v =
     (if length v < MinVerifierLength
      then Some (Errorf (''PKCE: code_verifier too short ('' @ show_nat (length v) @ '' < '' @ show_nat MinVerifierLength @ '')''))
      else if MaxVerifierLength < length v
      then Some (Errorf (''PKCE: code_verifier too long ('' @ show_nat (length v) @ '' > '' @ show_nat MaxVerifierLength @ '')''))
      else check_runes 0 (runes v))"

text \<open>The accumulator of the comparison is a byte.\<close>

fun diff_bytes :: "8 word \<Rightarrow> string \<Rightarrow> string \<Rightarrow> 8 word" where
  "diff_bytes d (x # a) (y # b) = diff_bytes (d OR (word_of_nat (byte_of x) XOR word_of_nat (byte_of y))) a b"
| "diff_bytes d _ _ = d"

definition secureEqual :: "string \<Rightarrow> string \<Rightarrow> bool" where
  "secureEqual a b = (if length a \<noteq> length b then False else diff_bytes 0 a b = 0)"

definition Verify :: "(string \<Rightarrow> string) \<Rightarrow> string \<Rightarrow> string \<Rightarrow> string \<Rightarrow> error option" where
  "Verify sha verifier challenge method = (case validateVerifier verifier of
       Some e \<Rightarrow> Some e
     | None \<Rightarrow>
        if method = MethodS256 then
          (if \<not> secureEqual (S256Challenge sha verifier) challenge
           then Some (Errorf ''PKCE: code_verifier does not match code_challenge'') else None)
        else if method = MethodPlain then
          (if \<not> secureEqual verifier challenge
           then Some (Errorf ''PKCE: code_verifier does not match code_challenge (plain)'') else None)
        else Some (Errorf (''PKCE: unsupported code_challenge_method '' @ Quote method)))"

definition ValidateMethod :: "string \<Rightarrow> bool \<Rightarrow> error option" where
  "ValidateMethod method allowPlain =
     (if method = MethodS256 then None
      else if method = MethodPlain then
        (if allowPlain then None
         else Some (Errorf ''PKCE: 'plain' code_challenge_method is not permitted; use S256''))
      else Some (Errorf (''PKCE: unsupported code_challenge_method '' @ Quote method)))"

section \<open>Lemmas\<close>

lemma word_of_byte_inj: "(word_of_nat (byte_of x) :: 8 word) = word_of_nat (byte_of y) \<longleftrightarrow> x = y"
  using byte_less [of x] byte_less [of y] by (simp add: word_of_nat_eq_iff take_bit_nat_eq_self)

lemma xor_zero: "a XOR b = 0 \<longleftrightarrow> a = (b :: 8 word)"
proof
  assume "a XOR b = 0"
  then have "(a XOR b) XOR b = b" by simp
  then show "a = b" by (simp add: xor.assoc)
qed simp

lemma diff_bytes_zero: "length a = length b \<Longrightarrow> diff_bytes d a b = 0 \<longleftrightarrow> d = 0 \<and> a = b"
proof (induction d a b rule: diff_bytes.induct)
  case (1 d x a y b)
  have "word_of_nat (byte_of x) XOR word_of_nat (byte_of y) = (0 :: 8 word) \<longleftrightarrow> x = y"
    using word_of_byte_inj [of x y] xor_zero by blast
  moreover have "d OR e = 0 \<longleftrightarrow> d = 0 \<and> e = 0" for e :: "8 word" by (rule or_eq_0_iff)
  ultimately show ?case using 1 by auto
qed auto

text \<open>The constant-time comparison is equality.\<close>

lemma secureEqual_iff: "secureEqual a b \<longleftrightarrow> a = b"
  using diff_bytes_zero [of a b 0] by (auto simp: secureEqual_def)

lemma check_runes_None: "check_runes i rs = None \<longleftrightarrow> (\<forall>rb \<in> set rs. fst rb \<in> set (map byte_of allowed))"
  by (induction rs arbitrary: i) (auto simp del: set_map)

lemma allowed_ascii: "ascii allowed"
  by (simp add: allowed_def is_ascii_def)

lemma check_allowed_chars: "check_runes i (runes v) = None \<longleftrightarrow> set v \<subseteq> set allowed"
proof
  assume "set v \<subseteq> set allowed"
  with allowed_ascii have "ascii v" by (auto simp: ascii_iff)
  with \<open>set v \<subseteq> set allowed\<close> show "check_runes i (runes v) = None"
    by (auto simp: check_runes_None runes_ascii)
next
  assume c: "check_runes i (runes v) = None"
  have "fst rb < 128" if "rb \<in> set (runes v)" for rb
    using c that allowed_ascii by (auto simp: check_runes_None ascii_iff is_ascii_def)
  then have "ascii v" by (intro runes_all_ascii) blast
  with c show "set v \<subseteq> set allowed" by (auto simp: check_runes_None runes_ascii)
qed

text \<open>The verifiers RFC 7636 allows.\<close>

definition rfc7636_verifier :: "string \<Rightarrow> bool" where
  "rfc7636_verifier v = (43 \<le> length v \<and> length v \<le> 128 \<and> set v \<subseteq> set allowed)"

lemma validateVerifier_iff: "validateVerifier v = None \<longleftrightarrow> rfc7636_verifier v"
  by (auto simp: validateVerifier_def rfc7636_verifier_def check_allowed_chars)

lemma allowed_bytes: "map byte_of allowed = [65..<91] @ [97..<123] @ [48..<58] @ [45, 46, 95, 126]"
  by (simp add: allowed_def upt_rec)

lemma url_safe_allowed: "url_safe c \<Longrightarrow> c \<in> set allowed"
proof -
  assume "url_safe c"
  then have "byte_of c \<in> set (map byte_of allowed)"
    unfolding allowed_bytes set_append set_upt
    by (auto simp: url_safe_def b64_value_def between_def Let_def split: if_splits)
  then show ?thesis by auto
qed

section \<open>Properties\<close>

text \<open>Verification is exact.  Under S256 a verifier is accepted for a challenge exactly when it
  is an RFC 7636 verifier whose digest encodes to the challenge; under plain, when it equals
  the challenge; under any other method never.  The constant-time comparison of bytes is
  equality.\<close>

lemma Verify_iff:
  "Verify sha v c method = None \<longleftrightarrow> rfc7636_verifier v \<and>
     (method = ''S256'' \<and> c = RawURLEncoding_Encode (sha v) \<or> method = ''plain'' \<and> c = v)"
  by (auto simp: Verify_def validateVerifier_iff [symmetric] secureEqual_iff S256Challenge_def
      MethodS256_def MethodPlain_def split: option.splits)

text \<open>Generated verifiers work.  From 96 random bytes comes a verifier of 128 allowed
  characters, which is accepted for its own S256 challenge; distinct random bytes give distinct
  verifiers.\<close>

lemma GenerateVerifier_ok:
  assumes "length b = 96" "length b' = 96"
  shows "\<exists>v. GenerateVerifier (Inr b) = Inr v \<and> length v = 128 \<and> rfc7636_verifier v
     \<and> Verify sha v (S256Challenge sha v) MethodS256 = None
     \<and> (GenerateVerifier (Inr b') = Inr v \<longrightarrow> b' = b)"
proof -
  have len: "length (RawURLEncoding_Encode b) = 128" "length (RawURLEncoding_Encode b') = 128"
    using assms by (simp_all add: RawURLEncoding_length)
  have "set (RawURLEncoding_Encode b) \<subseteq> set allowed"
    using b64_encode_raw_safe url_safe_allowed by (auto simp: RawURLEncoding_Encode_def)
  then have ok: "rfc7636_verifier (RawURLEncoding_Encode b)" using len by (simp add: rfc7636_verifier_def)
  then have "Verify sha (RawURLEncoding_Encode b) (S256Challenge sha (RawURLEncoding_Encode b)) MethodS256 = None"
    by (simp add: Verify_def validateVerifier_iff [THEN iffD2] secureEqual_iff)
  with ok len show ?thesis by (auto simp: GenerateVerifier_def Let_def RawURLEncoding_inj)
qed

theorem GenerateVerifier_ok_witness:
  "\<exists>v. GenerateVerifier (Inr (replicate 96 (CHR ''a''))) = Inr v \<and> length v = 128"
  using GenerateVerifier_ok [of "replicate 96 (CHR ''a'')" "replicate 96 (CHR ''a'')" id] by auto

end
