(* ===== verification/Middleware.thy ===== *)
theory Middleware
  imports Guard
begin

text \<open>
  The framework middleware (\<^verbatim>\<open>pkg/middleware/stdlib\<close>, \<^verbatim>\<open>gin\<close>, \<^verbatim>\<open>echo\<close>, \<^verbatim>\<open>grpc\<close>): the bearer
  token, an optional DPoP proof, introspection, the policy, and the claims handed to the
  application.  The standard library adapter writes to the response writer.  Gin and Echo are
  third-party frameworks, so their adapters are modelled by the calls they make on the
  framework's context, in order, and what the framework does with these calls is not modelled;
  gRPC status values and incoming metadata are treated the same way.  The common contract is the locale \<open>claims_middleware\<close>, and all four adapters are
  instances of it.
\<close>

section \<open>Configuration and context\<close>

record MiddlewareConfig =
  mc_Provider :: Provider
  mc_PolicyEngine :: "Engine option"
  mc_Realm :: string
  mc_EnableDPoP :: bool

text \<open>The Gin, Echo and gRPC adapters have configurations of their own with the same fields.\<close>

type_synonym gin_Config = MiddlewareConfig
type_synonym echo_Config = MiddlewareConfig
type_synonym grpc_Config = MiddlewareConfig

text \<open>A value stored in a context: claims, or a value of another type.\<close>

datatype context_value = ClaimsValue CommonClaims | OtherValue

definition invalid_token :: "MiddlewareConfig \<Rightarrow> string \<Rightarrow> StepUpChallenge" where
  "invalid_token cfg desc = \<lparr>ch_ACRValues = [], ch_MaxAge = 0, ch_Error = ErrCodeInvalidToken,
     ch_ErrorDescription = desc, ch_Realm = mc_Realm cfg\<rparr>"

definition dpop_check :: "environment \<Rightarrow> MiddlewareConfig \<Rightarrow> call \<Rightarrow> http_request \<Rightarrow> string \<Rightarrow> error option" where
  "dpop_check en cfg ca r rawToken =
     (if mc_EnableDPoP cfg
      then (case ValidateDPoP (en_codec en) (en_crypto en) (en_urlString en) (ca_now ca) r rawToken DefaultDPoPConfig of
              Inl e \<Rightarrow> Some e | Inr _ \<Rightarrow> None)
      else None)"

definition step_up_challenge :: "MiddlewareConfig \<Rightarrow> PolicyResult \<Rightarrow> StepUpChallenge" where
  "step_up_challenge cfg result =
     NewStepUpChallenge (NewInsufficientACRError (res_RequiredACR result) (res_RequiredMaxAge result)) (mc_Realm cfg)"

section \<open>The standard library (stdlib/middleware.go)\<close>

text \<open>What the handler does: it answers, or calls the next handler with the claims in the context.\<close>

datatype stdlib_outcome = Replied response | NextHandler http_request "CommonClaims option" response

definition stdlib_Middleware ::
  "environment \<Rightarrow> MiddlewareConfig \<Rightarrow> call \<Rightarrow> http_request \<Rightarrow> response \<Rightarrow> stdlib_outcome" where
  "stdlib_Middleware en cfg ca r w =
     (let sm = NewStateMachine in
      case ExtractBearerToken (Header_Get (rq_Header r) ''Authorization'') of
        Inl _ \<Rightarrow> Replied (WriteChallenge (invalid_token cfg ''missing or invalid bearer token'') w)
      | Inr rawToken \<Rightarrow> (case dpop_check en cfg ca r rawToken of
          Some dpopErr \<Rightarrow> Replied (WriteChallenge (invalid_token cfg (''DPoP validation failed: '' @ error_text dpopErr)) w)
        | None \<Rightarrow> (case pv_Introspect (mc_Provider cfg) rawToken of
            Inl _ \<Rightarrow> Replied (WriteChallenge (invalid_token cfg ''token inactive or validation failed'') w)
          | Inr claims \<Rightarrow>
             if \<not> cc_Active claims
             then Replied (WriteChallenge (invalid_token cfg ''token inactive or validation failed'') w)
             else (case mc_PolicyEngine cfg of
                 None \<Rightarrow> NextHandler r (Some claims) w
               | Some eng \<Rightarrow> (case Evaluate eng (policy_request (ca_now ca) (rq_Method r) (rq_Path r) claims) of
                     Inl _ \<Rightarrow> Replied (http_Error ''policy evaluation error'' 500 w)
                   | Inr result \<Rightarrow>
                      if \<not> res_Allowed result
                      then (let challenge = step_up_challenge cfg result;
                                _ = BeginChallenge sm (ca_entropy ca) (ca_now ca) (ca_now ca) r challenge
                            in Replied (WriteChallenge challenge w))
                      else NextHandler r (Some claims) w)))))"

text \<open>\<open>claims\<close> is the value the context holds under the package's key.\<close>

definition stdlib_ClaimsFromContext :: "CommonClaims option \<Rightarrow> CommonClaims option \<times> bool" where
  "stdlib_ClaimsFromContext claims = (claims, claims \<noteq> None)"

section \<open>Gin (gin/middleware.go)\<close>

text \<open>The calls made on the \<^verbatim>\<open>gin.Context\<close>.\<close>

datatype gin_call =
    GinHeader string string
  | GinAbortWithStatusJSON nat "(string \<times> string) list"
  | GinAbortWithStatus nat
  | GinSet string context_value
  | GinNext

definition gin_claimsKey :: string where "gin_claimsKey = ''iam_claims''"

definition gin_issueChallenge :: "string \<Rightarrow> string \<Rightarrow> string \<Rightarrow> string \<Rightarrow> int \<Rightarrow> gin_call list" where
  "gin_issueChallenge realm errCode desc acrValues maxAge =
     (let ch = \<lparr>ch_ACRValues = acrValues, ch_MaxAge = maxAge, ch_Error = errCode, ch_ErrorDescription = desc,
                ch_Realm = realm\<rparr>
      in [GinHeader ''WWW-Authenticate'' (WWWAuthenticateHeader ch),
          GinAbortWithStatusJSON 401 [(''error'', errCode), (''error_description'', desc)]])"

definition gin_Middleware :: "environment \<Rightarrow> gin_Config \<Rightarrow> call \<Rightarrow> http_request \<Rightarrow> gin_call list" where
  "gin_Middleware en cfg ca r =
     (let sm = NewStateMachine in
      case ExtractBearerToken (Header_Get (rq_Header r) ''Authorization'') of
        Inl _ \<Rightarrow> gin_issueChallenge (mc_Realm cfg) ErrCodeInvalidToken ''missing or invalid bearer token'' [] 0
      | Inr rawToken \<Rightarrow> (case dpop_check en cfg ca r rawToken of
          Some dpopErr \<Rightarrow> gin_issueChallenge (mc_Realm cfg) ErrCodeInvalidToken
                            (''DPoP validation failed: '' @ error_text dpopErr) [] 0
        | None \<Rightarrow> (case pv_Introspect (mc_Provider cfg) rawToken of
            Inl _ \<Rightarrow> gin_issueChallenge (mc_Realm cfg) ErrCodeInvalidToken ''token inactive or validation failed'' [] 0
          | Inr claims \<Rightarrow>
             if \<not> cc_Active claims
             then gin_issueChallenge (mc_Realm cfg) ErrCodeInvalidToken ''token inactive or validation failed'' [] 0
             else (case mc_PolicyEngine cfg of
                 None \<Rightarrow> [GinSet gin_claimsKey (ClaimsValue claims), GinNext]
               | Some eng \<Rightarrow> (case Evaluate eng (policy_request (ca_now ca) (rq_Method r) (rq_Path r) claims) of
                     Inl _ \<Rightarrow> [GinAbortWithStatus 500]
                   | Inr result \<Rightarrow>
                      if \<not> res_Allowed result
                      then (let challenge = step_up_challenge cfg result;
                                _ = BeginChallenge sm (ca_entropy ca) (ca_now ca) (ca_now ca) r challenge
                            in [GinHeader ''WWW-Authenticate'' (WWWAuthenticateHeader challenge),
                                GinAbortWithStatusJSON 401 [(''error'', ch_Error challenge),
                                  (''error_description'', ch_ErrorDescription challenge)]])
                      else [GinSet gin_claimsKey (ClaimsValue claims), GinNext])))))"

text \<open>The value that the framework's \<^verbatim>\<open>Get\<close>, a parameter, returns for the key; a value of another type is
  not claims.\<close>

definition context_claims :: "context_value option \<Rightarrow> CommonClaims option \<times> bool" where
  "context_claims val = (case val of Some (ClaimsValue c) \<Rightarrow> (Some c, True) | _ \<Rightarrow> (None, False))"

definition gin_ClaimsFromContext :: "(string \<Rightarrow> context_value option) \<Rightarrow> CommonClaims option \<times> bool" where
  "gin_ClaimsFromContext get = context_claims (get gin_claimsKey)"

section \<open>Echo (echo/middleware.go)\<close>

text \<open>The calls on the \<^verbatim>\<open>echo.Context\<close>, and the framework's error when it is what the handler returns.\<close>

datatype echo_call =
    EchoSetHeader string string
  | EchoJSON nat "(string \<times> string) list"
  | EchoSet string context_value
  | EchoNext
  | EchoErrInternalServerError

definition echo_claimsKey :: string where "echo_claimsKey = ''iam_claims''"

definition echoChallenge :: "string \<Rightarrow> string \<Rightarrow> string \<Rightarrow> string \<Rightarrow> int \<Rightarrow> echo_call list" where
  "echoChallenge realm errCode desc acrValues maxAge =
     (let ch = \<lparr>ch_ACRValues = acrValues, ch_MaxAge = maxAge, ch_Error = errCode, ch_ErrorDescription = desc,
                ch_Realm = realm\<rparr>
      in [EchoSetHeader ''WWW-Authenticate'' (WWWAuthenticateHeader ch),
          EchoJSON 401 [(''error'', errCode), (''error_description'', desc)]])"

definition echo_Middleware :: "environment \<Rightarrow> echo_Config \<Rightarrow> call \<Rightarrow> http_request \<Rightarrow> echo_call list" where
  "echo_Middleware en cfg ca r =
     (let sm = NewStateMachine in
      case ExtractBearerToken (Header_Get (rq_Header r) ''Authorization'') of
        Inl _ \<Rightarrow> echoChallenge (mc_Realm cfg) ErrCodeInvalidToken ''missing or invalid bearer token'' [] 0
      | Inr rawToken \<Rightarrow> (case dpop_check en cfg ca r rawToken of
          Some dpopErr \<Rightarrow> echoChallenge (mc_Realm cfg) ErrCodeInvalidToken
                            (''DPoP validation failed: '' @ error_text dpopErr) [] 0
        | None \<Rightarrow> (case pv_Introspect (mc_Provider cfg) rawToken of
            Inl _ \<Rightarrow> echoChallenge (mc_Realm cfg) ErrCodeInvalidToken ''token inactive or validation failed'' [] 0
          | Inr claims \<Rightarrow>
             if \<not> cc_Active claims
             then echoChallenge (mc_Realm cfg) ErrCodeInvalidToken ''token inactive or validation failed'' [] 0
             else (case mc_PolicyEngine cfg of
                 None \<Rightarrow> [EchoSet echo_claimsKey (ClaimsValue claims), EchoNext]
               | Some eng \<Rightarrow> (case Evaluate eng (policy_request (ca_now ca) (rq_Method r) (rq_Path r) claims) of
                     Inl _ \<Rightarrow> [EchoErrInternalServerError]
                   | Inr result \<Rightarrow>
                      if \<not> res_Allowed result
                      then (let challenge = step_up_challenge cfg result;
                                _ = BeginChallenge sm (ca_entropy ca) (ca_now ca) (ca_now ca) r challenge
                            in echoChallenge (mc_Realm cfg) (ch_Error challenge) (ch_ErrorDescription challenge)
                                 (ch_ACRValues challenge) (ch_MaxAge challenge))
                      else [EchoSet echo_claimsKey (ClaimsValue claims), EchoNext])))))"

definition echo_ClaimsFromContext :: "(string \<Rightarrow> context_value option) \<Rightarrow> CommonClaims option \<times> bool" where
  "echo_ClaimsFromContext get = context_claims (get echo_claimsKey)"

section \<open>gRPC (grpc/interceptor.go)\<close>

text \<open>What the code reads of the call's context: the values of \<^verbatim>\<open>authorization\<close> in the incoming
  metadata, if there is any metadata, and the claims stored under the package's key.\<close>

record rpc_context =
  rpc_authorization :: "string list option"
  rpc_claims :: "CommonClaims option"

datatype rpc_code = Unauthenticated | Internal | PermissionDenied

datatype rpc_status = Status rpc_code string

text \<open>\<open>status_text\<close> is the text gRPC gives a status error.\<close>

definition extractBearerFromMetadata :: "(rpc_status \<Rightarrow> string) \<Rightarrow> rpc_context \<Rightarrow> string + string" where
  "extractBearerFromMetadata status_text ctx =
     (let extract = (\<lambda>h. case ExtractBearerToken h of Inl e \<Rightarrow> Inl (error_text e) | Inr t \<Rightarrow> Inr t) in
      case rpc_authorization ctx of None \<Rightarrow> Inl (status_text (Status Unauthenticated ''no metadata''))
      | Some [] \<Rightarrow> extract []
      | Some (v # vs) \<Rightarrow> extract v)"

definition authenticate ::
  "(rpc_status \<Rightarrow> string) \<Rightarrow> time \<Rightarrow> rpc_context \<Rightarrow> string \<Rightarrow> grpc_Config \<Rightarrow> rpc_status + rpc_context" where
  "authenticate status_text now ctx fullMethod cfg =
     (case extractBearerFromMetadata status_text ctx of
        Inl err \<Rightarrow> Inl (Status Unauthenticated (''missing or invalid bearer token: '' @ err))
      | Inr rawToken \<Rightarrow> (case pv_Introspect (mc_Provider cfg) rawToken of
          Inl _ \<Rightarrow> Inl (Status Unauthenticated ''token inactive or validation failed'')
        | Inr claims \<Rightarrow>
           if \<not> cc_Active claims then Inl (Status Unauthenticated ''token inactive or validation failed'')
           else (case mc_PolicyEngine cfg of
               None \<Rightarrow> Inr (ctx\<lparr>rpc_claims := Some claims\<rparr>)
             | Some eng \<Rightarrow> (case Evaluate eng (policy_request now ''RPC'' fullMethod claims) of
                   Inl _ \<Rightarrow> Inl (Status Internal ''policy evaluation error'')
                 | Inr result \<Rightarrow>
                    if \<not> res_Allowed result
                    then Inl (Status PermissionDenied
                           (if res_RequiredACR result \<noteq> []
                            then ''insufficient authentication context: acr='' @ res_RequiredACR result @ '' required''
                            else if res_Reason result \<noteq> [] then res_Reason result else ''access denied''))
                    else Inr (ctx\<lparr>rpc_claims := Some claims\<rparr>)))))"






definition MethodToPath :: "string \<Rightarrow> string" where
  "MethodToPath fullMethod = TrimPrefix fullMethod ''/''"

section \<open>The contract\<close>

text \<open>A policy engine, if there is one, allows a method and a path for a token.\<close>

definition engine_allows :: "Engine option \<Rightarrow> time \<Rightarrow> string \<times> string \<Rightarrow> CommonClaims \<Rightarrow> bool" where
  "engine_allows engine now target claims = (case engine of None \<Rightarrow> True
     | Some eng \<Rightarrow> (case Evaluate eng (policy_request now (fst target) (snd target) claims) of
         Inl _ \<Rightarrow> False | Inr res \<Rightarrow> res_Allowed res))"

text \<open>An adapter is described by where it finds the credential, what it demands as proof of
  possession, which method and path it asks the policy for, and the claims that reach the
  application, if the application is called at all.\<close>

locale claims_middleware =
  fixes credential :: "'r \<Rightarrow> string option"
    and possession :: "MiddlewareConfig \<Rightarrow> call \<Rightarrow> 'r \<Rightarrow> string \<Rightarrow> bool"
    and target :: "'r \<Rightarrow> string \<times> string"
    and application_gets :: "MiddlewareConfig \<Rightarrow> call \<Rightarrow> 'r \<Rightarrow> CommonClaims option"
  assumes gets_eq: "application_gets cfg ca r = (case credential r of None \<Rightarrow> None
     | Some token \<Rightarrow>
        if \<not> possession cfg ca r token then None
        else (case pv_Introspect (mc_Provider cfg) token of Inl _ \<Rightarrow> None
          | Inr claims \<Rightarrow>
             if cc_Active claims \<and> engine_allows (mc_PolicyEngine cfg) (ca_now ca) (target r) claims
             then Some claims else None))"
begin

lemma gets_iff: "application_gets cfg ca r = Some claims \<longleftrightarrow>
    (\<exists>token. credential r = Some token \<and> possession cfg ca r token
       \<and> pv_Introspect (mc_Provider cfg) token = Inr claims \<and> cc_Active claims
       \<and> engine_allows (mc_PolicyEngine cfg) (ca_now ca) (target r) claims)"
  by (auto simp: gets_eq split: option.splits sum.splits)

text \<open>The configuration that is loaded permits what the application sees.\<close>

lemma gets_permitted:
  assumes "application_gets cfg ca r = Some claims" "mc_PolicyEngine cfg = Some eng"
  shows "\<exists>c. eng_config eng = Some c \<and> permits c (policy_request (ca_now ca) (fst (target r)) (snd (target r)) claims)"
  using assms by (auto simp: gets_iff engine_allows_def elim!: Evaluate_allowedD split: sum.splits)

text \<open>Without a demand for possession, whoever presents the token is let in: the confirmation
  claim of the token plays no part.\<close>

lemma binding_irrelevant:
  assumes "credential r = Some token" "possession cfg ca r token" "pv_Introspect (mc_Provider cfg) token = Inr claims"
    and "cc_Active claims" "mc_PolicyEngine cfg = None"
  shows "application_gets cfg ca r = Some claims"
  using assms by (simp add: gets_eq engine_allows_def)

end

subsection \<open>The adapters meet it\<close>

definition bearer :: "http_request \<Rightarrow> string option" where
  "bearer r = (case ExtractBearerToken (Header_Get (rq_Header r) ''Authorization'') of Inl _ \<Rightarrow> None | Inr t \<Rightarrow> Some t)"

definition request_target :: "http_request \<Rightarrow> string \<times> string" where
  "request_target r = (rq_Method r, rq_Path r)"

text \<open>The claims an adapter hands to the application: those in the context of the next handler, or those it
  stores in the framework's context under its key directly before it passes the request on.\<close>

definition stdlib_hands :: "stdlib_outcome \<Rightarrow> CommonClaims option" where
  "stdlib_hands out = (case out of Replied w \<Rightarrow> None | NextHandler r ctx w \<Rightarrow> fst (stdlib_ClaimsFromContext ctx))"

definition gin_hands :: "gin_call list \<Rightarrow> CommonClaims option" where
  "gin_hands calls = (case calls of [GinSet k v, GinNext] \<Rightarrow> fst (gin_ClaimsFromContext [k \<mapsto> v]) | _ \<Rightarrow> None)"

definition echo_hands :: "echo_call list \<Rightarrow> CommonClaims option" where
  "echo_hands calls = (case calls of [EchoSet k v, EchoNext] \<Rightarrow> fst (echo_ClaimsFromContext [k \<mapsto> v]) | _ \<Rightarrow> None)"

definition proof_shown :: "environment \<Rightarrow> MiddlewareConfig \<Rightarrow> call \<Rightarrow> http_request \<Rightarrow> string \<Rightarrow> bool" where
  "proof_shown en cfg ca r token \<longleftrightarrow> dpop_check en cfg ca r token = None"

lemmas contract_defs = bearer_def proof_shown_def request_target_def engine_allows_def Let_def

interpretation stdlib_mw: claims_middleware bearer "proof_shown en" request_target
    "\<lambda>cfg ca r. stdlib_hands (stdlib_Middleware en cfg ca r new_response)" for en
  by unfold_locales
    (auto simp: stdlib_Middleware_def stdlib_hands_def stdlib_ClaimsFromContext_def contract_defs split: sum.splits option.splits)

lemma gin_hands_simps [simp]:
  "gin_hands (gin_issueChallenge realm code desc acr age) = None"
  "gin_hands [GinHeader k v, c] = None"
  "gin_hands [GinSet gin_claimsKey (ClaimsValue claims), GinNext] = Some claims"
  by (simp_all add: gin_hands_def gin_issueChallenge_def gin_ClaimsFromContext_def context_claims_def Let_def)

lemma echo_hands_simps [simp]:
  "echo_hands (echoChallenge realm code desc acr age) = None"
  "echo_hands [EchoSet echo_claimsKey (ClaimsValue claims), EchoNext] = Some claims"
  by (simp_all add: echo_hands_def echoChallenge_def echo_ClaimsFromContext_def context_claims_def Let_def)

interpretation gin_mw: claims_middleware bearer "proof_shown en" request_target
    "\<lambda>cfg ca r. gin_hands (gin_Middleware en cfg ca r)" for en
  by unfold_locales (auto simp: gin_Middleware_def contract_defs split: sum.splits option.splits)

interpretation echo_mw: claims_middleware bearer "proof_shown en" request_target
    "\<lambda>cfg ca r. echo_hands (echo_Middleware en cfg ca r)" for en
  by unfold_locales (auto simp: echo_Middleware_def contract_defs split: sum.splits option.splits)






section \<open>Properties\<close>

text \<open>C24: the three HTTP adapters do the same, call by call.  For every request either there are claims such
  that the standard library adapter calls the next handler with a context that holds them, and the
  Gin and Echo adapters store them under the key from which \<^verbatim>\<open>ClaimsFromContext\<close> reads them back and
  then pass the request on; or there is a challenge that the standard library adapter writes, and
  the other two set the same \<^verbatim>\<open>WWW-Authenticate\<close> header and then answer 401 with its error and
  description.  Nothing is assumed about the frameworks; the branches for an error of the policy engine
  are never taken.\<close>

theorem adapters_agree:
  "(\<exists>claims ctx gk gv ek ev.
      stdlib_Middleware en cfg ca r w = NextHandler r ctx w \<and> stdlib_ClaimsFromContext ctx = (Some claims, True)
    \<and> gin_Middleware en cfg ca r = [GinSet gk gv, GinNext] \<and> gin_ClaimsFromContext [gk \<mapsto> gv] = (Some claims, True)
    \<and> echo_Middleware en cfg ca r = [EchoSet ek ev, EchoNext] \<and> echo_ClaimsFromContext [ek \<mapsto> ev] = (Some claims, True))
   \<or> (\<exists>ch. stdlib_Middleware en cfg ca r w = Replied (WriteChallenge ch w)
    \<and> gin_Middleware en cfg ca r = [GinHeader ''WWW-Authenticate'' (WWWAuthenticateHeader ch),
        GinAbortWithStatusJSON 401 [(''error'', ch_Error ch), (''error_description'', ch_ErrorDescription ch)]]
    \<and> echo_Middleware en cfg ca r = [EchoSetHeader ''WWW-Authenticate'' (WWWAuthenticateHeader ch),
        EchoJSON 401 [(''error'', ch_Error ch), (''error_description'', ch_ErrorDescription ch)]])"
  (is "?admits \<or> (\<exists>ch. ?challenges ch)")
proof (cases "stdlib_hands (stdlib_Middleware en cfg ca r w)")
  case (Some claims)
  then have "?admits"
    by (auto simp: stdlib_Middleware_def gin_Middleware_def echo_Middleware_def Let_def stdlib_hands_def
        stdlib_ClaimsFromContext_def gin_ClaimsFromContext_def echo_ClaimsFromContext_def context_claims_def
        split: sum.splits option.splits if_splits)
  then show ?thesis ..
next
  case None
  then have "\<exists>ch. ?challenges ch"
    by (auto simp: stdlib_Middleware_def gin_Middleware_def echo_Middleware_def Let_def stdlib_hands_def
        stdlib_ClaimsFromContext_def gin_issueChallenge_def echoChallenge_def invalid_token_def step_up_challenge_def
        NewStepUpChallenge_def split: sum.splits option.splits if_splits)
  then show ?thesis ..
qed


definition wit_mw_claims :: CommonClaims where
  "wit_mw_claims = empty_claims\<lparr>cc_Subject := ''alice'', cc_ACR := ''gold'', cc_AMR := [''otp''], cc_AuthTime := 0,
     cc_Scopes := [''openid''], cc_Active := True\<rparr>"

definition wit_mw :: MiddlewareConfig where
  "wit_mw = \<lparr>mc_Provider = wit_provider\<lparr>pv_Issuer := [], pv_Introspect := (\<lambda>_. Inr wit_mw_claims)\<rparr>,
     mc_PolicyEngine = None, mc_Realm = ''shop'', mc_EnableDPoP = False\<rparr>"

lemma wit_bearer: "ExtractBearerToken ''Bearer t'' = Inr ''t''"
  using ExtractBearerToken_bearer [of "''Bearer''" "''t''"]
  by (simp add: fold_simps is_ascii_def space_char_def IsSpace_def between_def)





text \<open>C26: the middleware is the guard without its extras.  A guard with one tenant, no cache, no
  rate limit, no cookie, no FAPI profile and no issuer to bind to, and without DPoP, answers
  every request with the response that the standard library adapter writes, byte for byte, or
  forwards exactly the requests that the adapter passes on, for the same claims.\<close>

theorem middleware_is_plain_guard:
  assumes "Resolve (g_resolver g) r = Resolved t" "Registry_Get (g_registry g) t = Inr (mc_Provider cfg)"
    and "g_policyEngine g = mc_PolicyEngine cfg" "g_realm g = mc_Realm cfg" "pv_Issuer (mc_Provider cfg) = []"
    and "\<not> g_cache g" "gs_limiter st = None" "g_cookieSecret g = []" "g_fapiCfg g = None"
    and "\<not> g_enableDPoP g" "\<not> mc_EnableDPoP cfg"
  shows "fst (Guard_ServeHTTP en c g ca r w st) = (case stdlib_Middleware en cfg ca r w of
      Replied w' \<Rightarrow> Answered w' | NextHandler r' ctx w' \<Rightarrow> forward (the ctx) t r' w')"
proof -
  have rej: "fst (reject g ca r ErrCodeInvalidToken desc w st') = Answered (WriteChallenge (invalid_token cfg desc) w)" for desc and st' :: "'a guard_state"
    using assms(4) by (simp add: reject_def issueChallenge_def Let_def invalid_token_def)
  have den: "fst (handleDenial en g ca r sub t res w st') = WriteChallenge (step_up_challenge cfg res) w" for sub res and st' :: "'a guard_state"
    using assms(4,8) by (simp add: handleDenial_response denial_challenge_def step_up_challenge_def)
  have pol: "fst (serve_policy en g ca r claims t w st') = (case mc_PolicyEngine cfg of None \<Rightarrow> forward claims t r w
      | Some eng \<Rightarrow> (case Evaluate eng (policy_request (ca_now ca) (rq_Method r) (rq_Path r) claims) of
          Inl _ \<Rightarrow> Answered (http_Error ''policy evaluation error'' 500 w)
        | Inr res \<Rightarrow> if res_Allowed res then forward claims t r w
            else Answered (WriteChallenge (step_up_challenge cfg res) w)))" for claims and st' :: "'a guard_state"
    using assms(3,8) den [of "cc_Subject claims"]
    by (auto simp: serve_policy_def serve_cookie_def split: option.splits sum.splits prod.splits) (metis fst_conv)+
  show ?thesis
    using assms(1,2,5-7,9-11)
    by (auto simp: Guard_ServeHTTP_def serve_tenant_def serve_dpop_def serve_token_def guard_introspect_def binding_error_def
        stdlib_Middleware_def dpop_check_def Let_def rej pol split: option.splits sum.splits)
qed

definition wit_plain_guard :: Guard where
  "wit_plain_guard = \<lparr>g_registry = Register NewRegistry ''acme'' (mc_Provider wit_mw), g_resolver = StaticResolver ''acme'',
     g_policyEngine = None, g_realm = ''shop'', g_sm = NewStateMachine, g_cache = False, g_enableDPoP = False,
     g_dpopCfg = DefaultDPoPConfig, g_dpopNonce = None, g_webhookSecret = [], g_cookieSecret = [], g_fapiCfg = None\<rparr>"

definition wit_mw_request :: http_request where
  "wit_mw_request = \<lparr>rq_Method = ''GET'', rq_Path = ''/x'', rq_RawQuery = [], rq_RequestURI = ''/x'', rq_Host = ''h'',
     rq_RemoteAddr = [], rq_TLS = True, rq_PeerCertificates = 0, rq_Header = [(''Authorization'', [''Bearer t''])], rq_Body = []\<rparr>"

definition wit_env :: environment where
  "wit_env = \<lparr>en_codec = wit_codec, en_crypto = wit_crypto, en_urlString = (\<lambda>_. []), en_rnd = (\<lambda>x. x)\<rparr>"

definition wit_call :: call where
  "wit_call = \<lparr>ca_now = 0, ca_entropy = [], ca_trace = []\<rparr>"

theorem middleware_is_plain_guard_witness:
  "fst (Guard_ServeHTTP wit_env memory_ops wit_plain_guard wit_call wit_mw_request new_response
      \<lparr>gs_cache = NewMemoryCache, gs_replay = NewMemoryCache, gs_limiter = None, gs_audit = None, gs_metrics = None\<rparr>)
     = forward wit_mw_claims ''acme'' wit_mw_request new_response"
proof -
  let ?st = "\<lparr>gs_cache = NewMemoryCache, gs_replay = NewMemoryCache, gs_limiter = None, gs_audit = None, gs_metrics = None\<rparr>"
  have mw: "stdlib_Middleware wit_env wit_mw wit_call wit_mw_request new_response = NextHandler wit_mw_request (Some wit_mw_claims) new_response"
    by (simp add: stdlib_Middleware_def wit_mw_request_def Header_Get_def header_key_simps wit_bearer dpop_check_def wit_mw_def)
      (simp add: wit_mw_claims_def)
  have "fst (Guard_ServeHTTP wit_env memory_ops wit_plain_guard wit_call wit_mw_request new_response ?st)
      = (case stdlib_Middleware wit_env wit_mw wit_call wit_mw_request new_response of
           Replied w' \<Rightarrow> Answered w' | NextHandler r' ctx w' \<Rightarrow> forward (the ctx) ''acme'' r' w')"
    by (rule middleware_is_plain_guard)
      (simp_all add: wit_plain_guard_def static_resolve_def reg.get_register wit_mw_def)
  with mw show ?thesis by simp
qed

text \<open>The middleware never looks at the key a token is bound to.  Replacing the confirmation
  claim of every token the provider knows by any other, or by none, changes nothing about
  who is let in, whether DPoP is enabled or not: a valid proof made with any key is enough.\<close>

lemma middleware_ignores_binding:
  "stdlib_hands (stdlib_Middleware en (cfg\<lparr>mc_Provider := (mc_Provider cfg)\<lparr>pv_Introspect :=
        (\<lambda>token. map_sum id (\<lambda>claims. claims\<lparr>cc_Confirmation := cnf\<rparr>) (pv_Introspect (mc_Provider cfg) token))\<rparr>\<rparr>)
        ca r new_response)
   = map_option (\<lambda>claims. claims\<lparr>cc_Confirmation := cnf\<rparr>)
       (stdlib_hands (stdlib_Middleware en cfg ca r new_response))"
proof -
  have "policy_request now m p (c\<lparr>cc_Confirmation := cnf\<rparr>) = policy_request now m p c" for now m p and c :: CommonClaims
    by (simp add: policy_request_def AuthAge_def)
  then show ?thesis
    by (auto simp: stdlib_mw.gets_eq engine_allows_def proof_shown_def dpop_check_def split: option.splits sum.splits)
qed

text \<open>The gRPC interceptors do not read \<^verbatim>\<open>EnableDPoP\<close> at all.\<close>

lemma grpc_ignores_dpop:
  "authenticate status_text now ctx fullMethod (cfg\<lparr>mc_EnableDPoP := b\<rparr>) = authenticate status_text now ctx fullMethod cfg"
  by (simp add: authenticate_def split: sum.splits)

text \<open>\<^verbatim>\<open>MethodToPath\<close> removes the slash that its comment keeps.\<close>

lemma MethodToPath_drops_slash: "MethodToPath (CHR ''/'' # rest) = rest"
  by (simp add: MethodToPath_def TrimPrefix_def)

end
