(* ===== verification/Providers.thy ===== *)
theory Providers
  imports Tenant Fapi
begin

text \<open>
  The provider adapters (\<^verbatim>\<open>pkg/providers\<close>): the claims mapper (\<^verbatim>\<open>claims_mapper.go\<close>), the
  discovery document (\<^verbatim>\<open>provider.go\<close>), the generic OIDC adapter and the Keycloak and Auth0
  adapters that wrap it.  An adapter is a state; its operations take the network, the HTTP
  client, as it is at the time of the call.  The interface of \<^verbatim>\<open>providers.Provider\<close> with its laws
  is the locale \<open>oidc_provider\<close>, which the three adapters interpret.
\<close>

section \<open>The claims mapper (claims_mapper.go)\<close>

text \<open>A raw claim set is a Go map: one entry per key, listed in the order of one iteration.\<close>

type_synonym RawClaims = "(string \<times> gval) list"

definition stringClaim :: "RawClaims \<Rightarrow> string \<Rightarrow> string" where
  "stringClaim raw key = (case map_of raw key of Some (GString v) \<Rightarrow> v | _ \<Rightarrow> [])"

text \<open>The conversion of a \<^verbatim>\<open>float64\<close> to \<^verbatim>\<open>int64\<close> is exact on integral values in range; \<open>trunc\<close> is what
  it does on the others.\<close>

definition unixTimeClaim :: "(gval \<Rightarrow> int) \<Rightarrow> RawClaims \<Rightarrow> string \<Rightarrow> time" where
  "unixTimeClaim trunc raw key = (case map_of raw key of
       Some (GFloat v) \<Rightarrow> Unix (if int64 v then v else trunc (GFloat v))
     | Some (GFrac s) \<Rightarrow> Unix (trunc (GFrac s))
     | Some (GInt64 v) \<Rightarrow> Unix v
     | Some (GInt v) \<Rightarrow> Unix v
     | _ \<Rightarrow> zero_time)"

fun string_items :: "gval list \<Rightarrow> string list" where
  "string_items [] = []"
| "string_items (item # items) = (case item of GString s \<Rightarrow> s # string_items items | _ \<Rightarrow> string_items items)"

definition toStringSlice :: "gval \<Rightarrow> string list" where
  "toStringSlice v = (case v of GSlice val \<Rightarrow> string_items val | GStrings val \<Rightarrow> val | GString val \<Rightarrow> [val] | _ \<Rightarrow> [])"

fun firstNonEmpty :: "string list \<Rightarrow> string" where
  "firstNonEmpty [] = []"
| "firstNonEmpty (v # vals) = (if v \<noteq> [] then v else firstNonEmpty vals)"

definition roles_key :: "string \<Rightarrow> bool" where
  "roles_key k = (Contains k ''/roles'' \<or> HasSuffix k ''roles'')"

text \<open>The loop over the map returns at the first key it likes.\<close>

fun namespaced_roles :: "RawClaims \<Rightarrow> string list option" where
  "namespaced_roles [] = None"
| "namespaced_roles (kv # raw) = (if roles_key (fst kv) then Some (toStringSlice (snd kv)) else namespaced_roles raw)"

definition extractRoles :: "RawClaims \<Rightarrow> string list" where
  "extractRoles raw =
     (case (case map_of raw ''realm_access'' of Some (GMap ra) \<Rightarrow> map_of ra ''roles'' | _ \<Rightarrow> None) of
        Some roles \<Rightarrow> toStringSlice roles
      | None \<Rightarrow> (case namespaced_roles raw of
          Some roles \<Rightarrow> roles
        | None \<Rightarrow> (case map_of raw ''roles'' of Some roles \<Rightarrow> toStringSlice roles | None \<Rightarrow> [])))"

definition known_claims :: "string list" where
  "known_claims = [''sub'', ''iss'', ''aud'', ''exp'', ''iat'', ''auth_time'', ''acr'', ''amr'', ''sid'', ''email'',
     ''preferred_username'', ''username'', ''nickname'', ''scope'', ''active'', ''tenant_id'', ''tid'', ''org_id'']"

definition MapToCommon :: "(gval \<Rightarrow> int) \<Rightarrow> time \<Rightarrow> RawClaims \<Rightarrow> CommonClaims" where
  "MapToCommon trunc now raw =
     (let expires = unixTimeClaim trunc raw ''exp'' in
      empty_claims\<lparr>cc_Subject := stringClaim raw ''sub'', cc_Issuer := stringClaim raw ''iss'',
        cc_ACR := stringClaim raw ''acr'', cc_SessionID := stringClaim raw ''sid'', cc_Email := stringClaim raw ''email'',
        cc_Username := firstNonEmpty [stringClaim raw ''preferred_username'', stringClaim raw ''username'',
                         stringClaim raw ''nickname''],
        cc_AMR := (case map_of raw ''amr'' of Some amr \<Rightarrow> toStringSlice amr | None \<Rightarrow> []),
        cc_Audience := (case map_of raw ''aud'' of Some aud \<Rightarrow> toStringSlice aud | None \<Rightarrow> []),
        cc_ExpiresAt := expires, cc_IssuedAt := unixTimeClaim trunc raw ''iat'',
        cc_AuthTime := unixTimeClaim trunc raw ''auth_time'',
        cc_Active := (case map_of raw ''active'' of Some (GBool active) \<Rightarrow> active
                        | _ \<Rightarrow> IsZero expires \<or> now < expires),
        cc_Scopes := (case map_of raw ''scope'' of Some (GString scope) \<Rightarrow> if scope \<noteq> [] then Fields scope else [] | _ \<Rightarrow> []),
        cc_Roles := extractRoles raw,
        cc_TenantID := firstNonEmpty [stringClaim raw ''tenant_id'', stringClaim raw ''tid'', stringClaim raw ''org_id''],
        cc_Extra := Some (filter (\<lambda>kv. fst kv \<notin> set known_claims) raw)\<rparr>)"

section \<open>The discovery document (provider.go)\<close>

record OIDCDiscovery =
  od_Issuer :: string
  od_AuthorizationEndpoint :: string
  od_TokenEndpoint :: string
  od_IntrospectionEndpoint :: string
  od_JWKSUri :: string
  od_UserinfoEndpoint :: string
  od_SupportedACRValues :: "string list"
  od_SupportedAMRValues :: "string list"
  od_ScopesSupported :: "string list"

definition empty_discovery :: OIDCDiscovery where
  "empty_discovery = \<lparr>od_Issuer = [], od_AuthorizationEndpoint = [], od_TokenEndpoint = [], od_IntrospectionEndpoint = [],
     od_JWKSUri = [], od_UserinfoEndpoint = [], od_SupportedACRValues = [], od_SupportedAMRValues = [],
     od_ScopesSupported = []\<rparr>"

definition discovery_member :: "string \<Rightarrow> json \<Rightarrow> OIDCDiscovery \<Rightarrow> OIDCDiscovery result" where
  "discovery_member k v d =
     (if EqualFold k ''issuer'' then store (into_string v (od_Issuer d)) (\<lambda>x. d\<lparr>od_Issuer := x\<rparr>)
      else if EqualFold k ''authorization_endpoint''
        then store (into_string v (od_AuthorizationEndpoint d)) (\<lambda>x. d\<lparr>od_AuthorizationEndpoint := x\<rparr>)
      else if EqualFold k ''token_endpoint'' then store (into_string v (od_TokenEndpoint d)) (\<lambda>x. d\<lparr>od_TokenEndpoint := x\<rparr>)
      else if EqualFold k ''introspection_endpoint''
        then store (into_string v (od_IntrospectionEndpoint d)) (\<lambda>x. d\<lparr>od_IntrospectionEndpoint := x\<rparr>)
      else if EqualFold k ''jwks_uri'' then store (into_string v (od_JWKSUri d)) (\<lambda>x. d\<lparr>od_JWKSUri := x\<rparr>)
      else if EqualFold k ''userinfo_endpoint''
        then store (into_string v (od_UserinfoEndpoint d)) (\<lambda>x. d\<lparr>od_UserinfoEndpoint := x\<rparr>)
      else if EqualFold k ''acr_values_supported'' then store (into_strings v) (\<lambda>x. d\<lparr>od_SupportedACRValues := x\<rparr>)
      else if EqualFold k ''amr_values_supported'' then store (into_strings v) (\<lambda>x. d\<lparr>od_SupportedAMRValues := x\<rparr>)
      else if EqualFold k ''scopes_supported'' then store (into_strings v) (\<lambda>x. d\<lparr>od_ScopesSupported := x\<rparr>)
      else Inr d)"

section \<open>The generic adapter (generic/adapter.go)\<close>

record GenericConfig =
  gcf_DiscoveryURL :: string
  gcf_ClientID :: string
  gcf_ClientSecret :: string

record GenericAdapter =
  ga_cfg :: GenericConfig
  ga_discovery :: "OIDCDiscovery option"
  ga_introspector :: "IntrospectorConfig option"

definition generic_New :: "GenericConfig \<Rightarrow> GenericAdapter" where
  "generic_New cfg = \<lparr>ga_cfg = cfg, ga_discovery = None, ga_introspector = None\<rparr>"

definition generic_Name :: string where "generic_Name = ''generic-oidc''"

definition generic_Issuer :: "GenericAdapter \<Rightarrow> string" where
  "generic_Issuer a = (case ga_discovery a of Some d \<Rightarrow> od_Issuer d | None \<Rightarrow> [])"

text \<open>A \<^verbatim>\<open>GET\<close> without body.\<close>

definition get_request :: "string \<Rightarrow> client_request" where
  "get_request url = \<lparr>cq_Method = ''GET'', cq_URL = url, cq_ContentType = [], cq_BasicAuth = None, cq_Body = []\<rparr>"

definition generic_RefreshConfig :: "json_codec \<Rightarrow> http_client \<Rightarrow> GenericAdapter \<Rightarrow> error option \<times> GenericAdapter" where
  "generic_RefreshConfig codec client a =
     (case hc_NewRequest client (gcf_DiscoveryURL (ga_cfg a)) of
        Some e \<Rightarrow> (Some (Wrapf ''building discovery request: '' e), a)
      | None \<Rightarrow> (case hc_Do client (get_request (gcf_DiscoveryURL (ga_cfg a))) of
          Inl e \<Rightarrow> (Some (Wrapf ''fetching discovery document: '' e), a)
        | Inr resp \<Rightarrow> (case decode_into codec discovery_member (cp_Body resp) empty_discovery of
            Inl e \<Rightarrow> (Some (Wrapf ''decoding discovery document: '' e), a)
          | Inr doc \<Rightarrow>
             (None, a\<lparr>ga_discovery := Some doc,
                      ga_introspector := Some \<lparr>ic_Endpoint = od_IntrospectionEndpoint doc,
                         ic_ClientID = gcf_ClientID (ga_cfg a), ic_ClientSecret = gcf_ClientSecret (ga_cfg a)\<rparr>\<rparr>))))"

definition generic_Introspect :: "json_codec \<Rightarrow> http_client \<Rightarrow> GenericAdapter \<Rightarrow> string \<Rightarrow> CommonClaims result" where
  "generic_Introspect codec client a rawToken = (case ga_introspector a of
       None \<Rightarrow> Inl (Errorf ''provider not initialized: call RefreshConfig first'')
     | Some intro \<Rightarrow> Introspect codec client intro rawToken)"

text \<open>\<open>raw\<close> is the text of the first JSON value of a body, as \<^verbatim>\<open>json.RawMessage\<close> keeps it.\<close>

definition generic_JWKS :: "(string \<Rightarrow> string option) \<Rightarrow> http_client \<Rightarrow> GenericAdapter \<Rightarrow> string result" where
  "generic_JWKS raw client a =
     (case ga_discovery a of None \<Rightarrow> Inl (Errorf ''JWKS URI not available, call RefreshConfig first'')
      | Some disc \<Rightarrow>
         if od_JWKSUri disc = [] then Inl (Errorf ''JWKS URI not available, call RefreshConfig first'')
         else (case hc_NewRequest client (od_JWKSUri disc) of Some e \<Rightarrow> Inl e
           | None \<Rightarrow> (case hc_Do client (get_request (od_JWKSUri disc)) of Inl e \<Rightarrow> Inl e
               | Inr resp \<Rightarrow> (case raw (cp_Body resp) of None \<Rightarrow> Inl json_syntax_error | Some result \<Rightarrow> Inr result))))"

section \<open>Keycloak and Auth0\<close>

record KeycloakConfig =
  kc_BaseURL :: string
  kc_Realm :: string
  kc_ClientID :: string
  kc_ClientSecret :: string

record KeycloakAdapter =
  ka_inner :: GenericAdapter
  ka_cfg :: KeycloakConfig

definition keycloak_New :: "KeycloakConfig \<Rightarrow> KeycloakAdapter" where
  "keycloak_New cfg =
     (let discoveryURL = kc_BaseURL cfg @ ''/realms/'' @ kc_Realm cfg @ ''/.well-known/openid-configuration''
      in \<lparr>ka_inner = generic_New \<lparr>gcf_DiscoveryURL = discoveryURL, gcf_ClientID = kc_ClientID cfg,
             gcf_ClientSecret = kc_ClientSecret cfg\<rparr>, ka_cfg = cfg\<rparr>)"

definition keycloak_Name :: string where "keycloak_Name = ''keycloak''"

definition keycloak_Issuer :: "KeycloakAdapter \<Rightarrow> string" where
  "keycloak_Issuer a = generic_Issuer (ka_inner a)"

definition keycloak_RefreshConfig :: "json_codec \<Rightarrow> http_client \<Rightarrow> KeycloakAdapter \<Rightarrow> error option \<times> KeycloakAdapter" where
  "keycloak_RefreshConfig codec client a =
     (case generic_RefreshConfig codec client (ka_inner a) of (err, inner) \<Rightarrow> (err, a\<lparr>ka_inner := inner\<rparr>))"

definition keycloak_Introspect :: "json_codec \<Rightarrow> http_client \<Rightarrow> KeycloakAdapter \<Rightarrow> string \<Rightarrow> CommonClaims result" where
  "keycloak_Introspect codec client a rawToken = generic_Introspect codec client (ka_inner a) rawToken"

definition keycloak_JWKS :: "(string \<Rightarrow> string option) \<Rightarrow> http_client \<Rightarrow> KeycloakAdapter \<Rightarrow> string result" where
  "keycloak_JWKS raw client a = generic_JWKS raw client (ka_inner a)"

record Auth0Config =
  az_Domain :: string
  az_ClientID :: string
  az_ClientSecret :: string
  az_Audience :: string

record Auth0Adapter =
  aa_inner :: GenericAdapter
  aa_cfg :: Auth0Config

definition auth0_New :: "Auth0Config \<Rightarrow> Auth0Adapter" where
  "auth0_New cfg =
     (let discoveryURL = ''https://'' @ az_Domain cfg @ ''/.well-known/openid-configuration''
      in \<lparr>aa_inner = generic_New \<lparr>gcf_DiscoveryURL = discoveryURL, gcf_ClientID = az_ClientID cfg,
             gcf_ClientSecret = az_ClientSecret cfg\<rparr>, aa_cfg = cfg\<rparr>)"

definition auth0_Name :: string where "auth0_Name = ''auth0''"

definition auth0_Issuer :: "Auth0Adapter \<Rightarrow> string" where
  "auth0_Issuer a = generic_Issuer (aa_inner a)"

definition auth0_RefreshConfig :: "json_codec \<Rightarrow> http_client \<Rightarrow> Auth0Adapter \<Rightarrow> error option \<times> Auth0Adapter" where
  "auth0_RefreshConfig codec client a =
     (case generic_RefreshConfig codec client (aa_inner a) of (err, inner) \<Rightarrow> (err, a\<lparr>aa_inner := inner\<rparr>))"

definition auth0_Introspect :: "json_codec \<Rightarrow> http_client \<Rightarrow> Auth0Adapter \<Rightarrow> string \<Rightarrow> CommonClaims result" where
  "auth0_Introspect codec client a rawToken = generic_Introspect codec client (aa_inner a) rawToken"

definition auth0_JWKS :: "(string \<Rightarrow> string option) \<Rightarrow> http_client \<Rightarrow> Auth0Adapter \<Rightarrow> string result" where
  "auth0_JWKS raw client a = generic_JWKS raw client (aa_inner a)"

section \<open>The provider contract\<close>

text \<open>What the users of a provider rely on: a refresh that fails changes nothing, one that succeeds
  makes the state a function of the network it saw, and nothing can be introspected before.\<close>

locale oidc_provider =
  fixes issuer :: "'s \<Rightarrow> string" and refresh :: "'n \<Rightarrow> 's \<Rightarrow> error option \<times> 's"
    and introspect :: "'n \<Rightarrow> 's \<Rightarrow> string \<Rightarrow> CommonClaims result" and ready :: "'s \<Rightarrow> bool"
  assumes refresh_failed: "fst (refresh n s) = Some e \<Longrightarrow> snd (refresh n s) = s"
    and refresh_ready: "fst (refresh n s) = None \<Longrightarrow> ready (snd (refresh n s))"
    and refresh_outcome: "fst (refresh n (snd (refresh m s))) = fst (refresh n s)"
    and refresh_forgets: "fst (refresh n s) = None \<Longrightarrow> snd (refresh n (snd (refresh m s))) = snd (refresh n s)"
    and unready_issuer: "\<not> ready s \<Longrightarrow> issuer s = []"
    and unready_introspect: "\<not> ready s \<Longrightarrow> \<exists>e. introspect n s token = Inl e"
    and introspected: "introspect n s token = Inr c \<Longrightarrow> \<exists>r. c = introToCommonClaims r"
begin

definition refreshes :: "'n list \<Rightarrow> 's \<Rightarrow> 's" where
  "refreshes ns s = fold (\<lambda>n s. snd (refresh n s)) ns s"

lemma refreshes_simps [simp]: "refreshes [] s = s" "refreshes (n # ns) s = refreshes ns (snd (refresh n s))"
  by (simp_all add: refreshes_def)

lemma refreshes_append: "refreshes (ms @ ns) s = refreshes ns (refreshes ms s)"
  by (simp add: refreshes_def)

lemma outcome_stable: "fst (refresh n (refreshes ms s)) = fst (refresh n s)"
proof (induction ms arbitrary: s)
  case (Cons m ms)
  then show ?case by (simp add: refresh_outcome)
qed simp

lemma success_forgets: "fst (refresh n s) = None \<Longrightarrow> snd (refresh n (refreshes ms s)) = snd (refresh n s)"
proof (induction ms arbitrary: s)
  case (Cons m ms)
  then show ?case by (simp add: refresh_outcome refresh_forgets)
qed simp

lemma failures_keep: "(\<And>n. n \<in> set ns \<Longrightarrow> fst (refresh n s) \<noteq> None) \<Longrightarrow> refreshes ns s = s"
proof (induction ns)
  case (Cons n ns)
  then obtain e where "fst (refresh n s) = Some e" by fastforce
  with Cons show ?case by (simp add: refresh_failed)
qed simp

text \<open>After any history the state is that of the last refresh that worked.\<close>

lemma last_success:
  assumes "fst (refresh n s) = None" and "\<And>m. m \<in> set later \<Longrightarrow> fst (refresh m s) \<noteq> None"
  shows "refreshes (earlier @ n # later) s = snd (refresh n s)"
proof -
  have "refreshes (earlier @ n # later) s = refreshes later (snd (refresh n s))"
    using assms(1) by (simp add: refreshes_append success_forgets)
  also have "\<dots> = snd (refresh n s)"
    using assms(2) by (intro failures_keep) (simp add: refresh_outcome)
  finally show ?thesis .
qed

text \<open>Introspection through a provider fills none of the fields that RFC 7662 does not define.\<close>

lemma no_provider_claims:
  assumes "introspect n s token = Inr c"
  shows "cc_Roles c = [] \<and> cc_TenantID c = [] \<and> cc_Email c = [] \<and> cc_SessionID c = [] \<and> cc_Extra c = None"
  using introspected [OF assms] by auto

end

text \<open>What a refresh makes of the network.\<close>

definition fetched :: "json_codec \<Rightarrow> http_client \<Rightarrow> GenericConfig \<Rightarrow> OIDCDiscovery result" where
  "fetched codec client cfg = (case hc_NewRequest client (gcf_DiscoveryURL cfg) of
       Some e \<Rightarrow> Inl (Wrapf ''building discovery request: '' e)
     | None \<Rightarrow> (case hc_Do client (get_request (gcf_DiscoveryURL cfg)) of
         Inl e \<Rightarrow> Inl (Wrapf ''fetching discovery document: '' e)
       | Inr resp \<Rightarrow> (case decode_into codec discovery_member (cp_Body resp) empty_discovery of
           Inl e \<Rightarrow> Inl (Wrapf ''decoding discovery document: '' e) | Inr doc \<Rightarrow> Inr doc)))"

definition configured :: "GenericConfig \<Rightarrow> OIDCDiscovery \<Rightarrow> GenericAdapter" where
  "configured cfg doc = \<lparr>ga_cfg = cfg, ga_discovery = Some doc, ga_introspector = Some \<lparr>ic_Endpoint = od_IntrospectionEndpoint doc,
     ic_ClientID = gcf_ClientID cfg, ic_ClientSecret = gcf_ClientSecret cfg\<rparr>\<rparr>"

lemma generic_refresh_eq: "generic_RefreshConfig codec client a = (case fetched codec client (ga_cfg a) of
    Inl e \<Rightarrow> (Some e, a) | Inr doc \<Rightarrow> (None, configured (ga_cfg a) doc))"
  by (simp add: generic_RefreshConfig_def fetched_def configured_def split: option.splits sum.splits)

definition generic_ready :: "GenericAdapter \<Rightarrow> bool" where
  "generic_ready a \<longleftrightarrow> ga_discovery a \<noteq> None \<or> ga_introspector a \<noteq> None"

lemma generic_provider_laws:
  "oidc_provider generic_Issuer (generic_RefreshConfig codec) (generic_Introspect codec) generic_ready"
proof
  fix n m :: http_client and s :: GenericAdapter and e :: error and token :: string and c :: CommonClaims
  show "fst (generic_RefreshConfig codec n s) = Some e \<Longrightarrow> snd (generic_RefreshConfig codec n s) = s"
    and "fst (generic_RefreshConfig codec n s) = None \<Longrightarrow> generic_ready (snd (generic_RefreshConfig codec n s))"
    and "fst (generic_RefreshConfig codec n (snd (generic_RefreshConfig codec m s))) = fst (generic_RefreshConfig codec n s)"
    and "fst (generic_RefreshConfig codec n s) = None \<Longrightarrow>
      snd (generic_RefreshConfig codec n (snd (generic_RefreshConfig codec m s))) = snd (generic_RefreshConfig codec n s)"
    by (auto simp: generic_refresh_eq generic_ready_def configured_def split: sum.splits)
  show "\<not> generic_ready s \<Longrightarrow> generic_Issuer s = []"
    and "\<not> generic_ready s \<Longrightarrow> \<exists>e. generic_Introspect codec n s token = Inl e"
    by (simp_all add: generic_ready_def generic_Issuer_def generic_Introspect_def)
  show "generic_Introspect codec n s token = Inr c \<Longrightarrow> \<exists>r. c = introToCommonClaims r"
    by (auto simp: generic_Introspect_def split: option.splits elim: Introspect_InrD)
qed

interpretation generic: oidc_provider generic_Issuer "generic_RefreshConfig codec" "generic_Introspect codec" generic_ready
  for codec by (rule generic_provider_laws)

text \<open>The wrappers keep their own configuration beside the inner adapter.\<close>

interpretation keycloak: oidc_provider keycloak_Issuer "keycloak_RefreshConfig codec" "keycloak_Introspect codec"
    "\<lambda>a. generic_ready (ka_inner a)" for codec
  using generic.refresh_failed [of codec] generic.refresh_ready [of codec] generic.refresh_outcome [of codec]
    generic.refresh_forgets [of codec] generic.unready_introspect [of _ codec] generic.introspected [of codec]
  by unfold_locales
    (simp_all add: keycloak_Issuer_def keycloak_RefreshConfig_def keycloak_Introspect_def generic.unready_issuer split_def)

interpretation auth0: oidc_provider auth0_Issuer "auth0_RefreshConfig codec" "auth0_Introspect codec"
    "\<lambda>a. generic_ready (aa_inner a)" for codec
  using generic.refresh_failed [of codec] generic.refresh_ready [of codec] generic.refresh_outcome [of codec]
    generic.refresh_forgets [of codec] generic.unready_introspect [of _ codec] generic.introspected [of codec]
  by unfold_locales
    (simp_all add: auth0_Issuer_def auth0_RefreshConfig_def auth0_Introspect_def generic.unready_issuer split_def)

section \<open>Adapters as providers of a tenant\<close>

definition generic_provider :: "json_codec \<Rightarrow> (string \<Rightarrow> string option) \<Rightarrow> http_client \<Rightarrow> GenericAdapter \<Rightarrow> Provider" where
  "generic_provider codec raw client a = \<lparr>pv_Name = generic_Name, pv_Issuer = generic_Issuer a,
     pv_Introspect = generic_Introspect codec client a, pv_JWKS = generic_JWKS raw client a,
     pv_RefreshConfig = fst (generic_RefreshConfig codec client a)\<rparr>"

definition keycloak_provider :: "json_codec \<Rightarrow> (string \<Rightarrow> string option) \<Rightarrow> http_client \<Rightarrow> KeycloakAdapter \<Rightarrow> Provider" where
  "keycloak_provider codec raw client a = \<lparr>pv_Name = keycloak_Name, pv_Issuer = keycloak_Issuer a,
     pv_Introspect = keycloak_Introspect codec client a, pv_JWKS = keycloak_JWKS raw client a,
     pv_RefreshConfig = fst (keycloak_RefreshConfig codec client a)\<rparr>"

definition auth0_provider :: "json_codec \<Rightarrow> (string \<Rightarrow> string option) \<Rightarrow> http_client \<Rightarrow> Auth0Adapter \<Rightarrow> Provider" where
  "auth0_provider codec raw client a = \<lparr>pv_Name = auth0_Name, pv_Issuer = auth0_Issuer a,
     pv_Introspect = auth0_Introspect codec client a, pv_JWKS = auth0_JWKS raw client a,
     pv_RefreshConfig = fst (auth0_RefreshConfig codec client a)\<rparr>"

section \<open>Lemmas on the mapper\<close>

lemma namespaced_roles_None: "namespaced_roles raw = None \<longleftrightarrow> (\<forall>k \<in> fst ` set raw. \<not> roles_key k)"
  by (induction raw) auto

lemma namespaced_roles_Some:
  "namespaced_roles raw = Some rs \<Longrightarrow> \<exists>kv \<in> set raw. roles_key (fst kv) \<and> rs = toStringSlice (snd kv)"
  by (induction raw) (auto split: if_splits)

text \<open>The last branch of \<^verbatim>\<open>extractRoles\<close> is dead: the loop before it already finds \<^verbatim>\<open>roles\<close>.\<close>

lemma roles_key_roles: "roles_key ''roles''"
  by (simp add: roles_key_def HasSuffix_def)

lemma roles_branch_dead: "map_of raw ''roles'' = Some v \<Longrightarrow> namespaced_roles raw \<noteq> None"
  using namespaced_roles_None [of raw] roles_key_roles by (metis map_of_SomeD fst_conv image_eqI)

lemma MapToCommon_sel [simp]:
  "cc_Roles (MapToCommon trunc now raw) = extractRoles raw"
  "cc_JTI (MapToCommon trunc now raw) = []" "cc_Confirmation (MapToCommon trunc now raw) = None"
  "cc_Extra (MapToCommon trunc now raw) = Some (filter (\<lambda>kv. fst kv \<notin> set known_claims) raw)"
  "cc_ExpiresAt (MapToCommon trunc now raw) = unixTimeClaim trunc raw ''exp''"
  by (simp_all add: MapToCommon_def Let_def empty_claims_def)

section \<open>Properties\<close>

text \<open>A provider works with the last discovery document it could read.  Whatever the network
  did before, and however many refreshes failed since, the adapter reports the issuer of the
  document that was last fetched, sends tokens to the introspection endpoint of that document
  with its own credentials, and would introspect exactly as an adapter that was refreshed once.\<close>

lemma refresh_keeps_last_good:
  assumes "fetched codec client cfg = Inr doc" and "\<And>n. n \<in> set later \<Longrightarrow> \<not> is_ok (fetched codec n cfg)"
    and "a = fold (\<lambda>n a. snd (generic_RefreshConfig codec n a)) (earlier @ client # later) (generic_New cfg)"
  shows "generic_Issuer a = od_Issuer doc
    \<and> generic_Introspect codec net a token = Introspect codec net \<lparr>ic_Endpoint = od_IntrospectionEndpoint doc,
        ic_ClientID = gcf_ClientID cfg, ic_ClientSecret = gcf_ClientSecret cfg\<rparr> token
    \<and> a = snd (generic_RefreshConfig codec client (generic_New cfg))"
proof -
  have new: "ga_cfg (generic_New cfg) = cfg" by (simp add: generic_New_def)
  have "fst (generic_RefreshConfig codec client (generic_New cfg)) = None"
    using assms(1) by (simp add: generic_refresh_eq new)
  moreover have "fst (generic_RefreshConfig codec n (generic_New cfg)) \<noteq> None" if "n \<in> set later" for n
    using assms(2) [OF that] by (auto simp: generic_refresh_eq new split: sum.splits)
  ultimately have "a = snd (generic_RefreshConfig codec client (generic_New cfg))"
    using generic.last_success [of codec client "generic_New cfg" later earlier]
    by (simp add: assms(3) generic.refreshes_def)
  with assms(1) show ?thesis
    by (simp add: generic_refresh_eq new configured_def generic_Issuer_def generic_Introspect_def)
qed

definition wit_discovery :: OIDCDiscovery where
  "wit_discovery = empty_discovery\<lparr>od_Issuer := ''https://as'', od_IntrospectionEndpoint := ''https://as/i''\<rparr>"

definition wit_discovery_codec :: json_codec where
  "wit_discovery_codec = \<lparr>json_parse = (\<lambda>_. None),
     json_decode = (\<lambda>s. if s = ''D'' then Some (JObj [(''issuer'', JStr ''https://as''), (''introspection_endpoint'', JStr ''https://as/i'')])
       else if s = ''E'' then Some (JObj []) else None),
     json_print = (\<lambda>_. []), time_parse = (\<lambda>_. None), time_print = (\<lambda>_. None)\<rparr>"

text \<open>A network that answers every request with one body, and one that is down.\<close>

definition answering :: "nat \<Rightarrow> string \<Rightarrow> http_client" where
  "answering code body = \<lparr>hc_NewRequest = (\<lambda>_. None), hc_Do = (\<lambda>_. Inr \<lparr>cp_StatusCode = code, cp_Body = body\<rparr>)\<rparr>"

definition unreachable :: http_client where
  "unreachable = \<lparr>hc_NewRequest = (\<lambda>_. None), hc_Do = (\<lambda>_. Inl (Errorf ''connection refused''))\<rparr>"

definition wit_generic :: GenericConfig where
  "wit_generic = \<lparr>gcf_DiscoveryURL = ''https://as/d'', gcf_ClientID = ''c'', gcf_ClientSecret = ''s''\<rparr>"

lemma wit_fetched: "fetched wit_discovery_codec (answering 200 ''D'') wit_generic = Inr wit_discovery"
  by (simp add: fetched_def answering_def decode_into_def wit_discovery_codec_def discovery_member_def fold_simps
      wit_discovery_def empty_discovery_def is_ascii_def)

lemma unreachable_fails: "\<not> is_ok (fetched codec unreachable cfg)"
  by (simp add: fetched_def unreachable_def)

theorem refresh_keeps_last_good_witness:
  "generic_Issuer (fold (\<lambda>n a. snd (generic_RefreshConfig wit_discovery_codec n a))
     [unreachable, answering 200 ''D'', unreachable, unreachable] (generic_New wit_generic)) = ''https://as''"
proof -
  have "generic_Issuer (fold (\<lambda>n a. snd (generic_RefreshConfig wit_discovery_codec n a))
      ([unreachable] @ answering 200 ''D'' # [unreachable, unreachable]) (generic_New wit_generic)) = od_Issuer wit_discovery"
    by (rule refresh_keeps_last_good [OF wit_fetched _ refl, THEN conjunct1]) (auto simp: unreachable_fails)
  then show ?thesis by (simp add: wit_discovery_def)
qed

text \<open>Roles do not depend on the iteration order of the claims map when they have one place.  If
  the Keycloak claim \<^verbatim>\<open>realm_access.roles\<close> is present, or at most one key names roles, every
  order in which Go may iterate over the map gives the same roles.\<close>

lemma roles_order_free:
  assumes "distinct (map fst raw)" "distinct (map fst raw')" "set raw = set raw'"
    and "(\<exists>ra v. map_of raw ''realm_access'' = Some (GMap ra) \<and> map_of ra ''roles'' = Some v)
      \<or> (\<forall>kv \<in> set raw. \<forall>kv' \<in> set raw. roles_key (fst kv) \<and> roles_key (fst kv') \<longrightarrow> fst kv = fst kv')"
  shows "cc_Roles (MapToCommon trunc now raw) = cc_Roles (MapToCommon trunc now raw')"
proof -
  have same: "map_of raw = map_of raw'" using assms(1-3) by (simp add: map_of_inject_set)
  show ?thesis
  proof (cases "\<exists>ra v. map_of raw ''realm_access'' = Some (GMap ra) \<and> map_of ra ''roles'' = Some v")
    case True
    then show ?thesis using same by (auto simp: extractRoles_def)
  next
    case False
    then have one: "\<And>kv kv'. kv \<in> set raw \<Longrightarrow> kv' \<in> set raw \<Longrightarrow> roles_key (fst kv) \<Longrightarrow> roles_key (fst kv') \<Longrightarrow> kv = kv'"
      using assms(1,4) by (metis eq_key_imp_eq_value prod.collapse)
    have "namespaced_roles raw = namespaced_roles raw'"
    proof (cases "namespaced_roles raw")
      case None
      then show ?thesis using namespaced_roles_None [of raw] namespaced_roles_None [of raw'] assms(3) by simp
    next
      case (Some rs)
      then have "namespaced_roles raw' \<noteq> None"
        using namespaced_roles_None [of raw] namespaced_roles_None [of raw'] assms(3) by simp
      then obtain rs' where rs': "namespaced_roles raw' = Some rs'" by blast
      with Some one assms(3) show ?thesis
        using namespaced_roles_Some [OF Some] namespaced_roles_Some [OF rs'] by (metis (no_types))
    qed
    then show ?thesis by (simp only: MapToCommon_sel extractRoles_def same)
  qed
qed

definition wit_raw :: RawClaims where
  "wit_raw = [(''sub'', GString ''alice''), (''https://app/roles'', GSlice [GString ''admin'', GInt 3])]"

lemma wit_roles_keys: "\<not> roles_key ''sub''" "roles_key ''https://app/roles''"
  by (simp_all add: roles_key_def HasSuffix_def Contains_def)

theorem roles_order_free_witness:
  "cc_Roles (MapToCommon (\<lambda>_. 0) 0 wit_raw) = cc_Roles (MapToCommon (\<lambda>_. 0) 0 (rev wit_raw))
     \<and> cc_Roles (MapToCommon (\<lambda>_. 0) 0 wit_raw) = [''admin'']"
proof -
  have "cc_Roles (MapToCommon (\<lambda>_. 0) 0 wit_raw) = cc_Roles (MapToCommon (\<lambda>_. 0) 0 (rev wit_raw))"
    by (rule roles_order_free) (auto simp: wit_raw_def wit_roles_keys)
  then show ?thesis by (simp add: extractRoles_def wit_raw_def wit_roles_keys toStringSlice_def)
qed

text \<open>With two such keys the order decides.\<close>

lemma roles_order_matters:
  fixes raw :: RawClaims
  defines "raw \<equiv> [(''roles'', GSlice [GString ''user'']), (''https://app/roles'', GSlice [GString ''admin''])]"
  shows "cc_Roles (MapToCommon trunc now raw) = [''user'']" "cc_Roles (MapToCommon trunc now (rev raw)) = [''admin'']"
  by (simp_all add: raw_def extractRoles_def wit_roles_keys roles_key_roles toStringSlice_def)

text \<open>The mapper keeps every claim exactly once.  A claim under a well-known name never appears
  among the extra claims, any other claim appears there with its value, and a token without
  an \<^verbatim>\<open>active\<close> flag counts as active exactly until it expires.\<close>

lemma MapToCommon_partition:
  "\<exists>extra. cc_Extra (MapToCommon trunc now raw) = Some extra
     \<and> map_of extra k = (if k \<in> set known_claims then None else map_of raw k)
     \<and> (map_of raw ''active'' = None \<longrightarrow>
          (cc_Active (MapToCommon trunc now raw) \<longleftrightarrow>
             IsZero (cc_ExpiresAt (MapToCommon trunc now raw)) \<or> now < cc_ExpiresAt (MapToCommon trunc now raw)))"
proof -
  have "map_of (filter (\<lambda>kv. fst kv \<notin> set known_claims) raw) k = (if k \<in> set known_claims then None else map_of raw k)"
    by (induction raw) auto
  moreover have "map_of raw ''active'' = None \<Longrightarrow> cc_Active (MapToCommon trunc now raw) \<longleftrightarrow>
      IsZero (unixTimeClaim trunc raw ''exp'') \<or> now < unixTimeClaim trunc raw ''exp''"
    by (simp add: MapToCommon_def Let_def)
  ultimately show ?thesis by simp
qed

theorem MapToCommon_partition_witness: "cc_Active (MapToCommon (\<lambda>_. 0) 5 [(''exp'', GInt64 9)])"
  using MapToCommon_partition [of "\<lambda>_. 0" 5 "[(''exp'', GInt64 9)]" "[]"]
  by (simp add: unixTimeClaim_def Unix_def)

text \<open>Roles, e-mail, session and extra claims, which the mapper would fill, are never filled by an
  adapter: the adapters do not call the mapper.\<close>

lemma keycloak_no_roles:
  assumes "keycloak_Introspect codec client a token = Inr c"
  shows "cc_Roles c = [] \<and> cc_TenantID c = [] \<and> cc_Email c = [] \<and> cc_SessionID c = [] \<and> cc_Extra c = None"
  using assms by (rule keycloak.no_provider_claims)

lemma auth0_no_roles:
  assumes "auth0_Introspect codec client a token = Inr c"
  shows "cc_Roles c = [] \<and> cc_TenantID c = [] \<and> cc_Email c = [] \<and> cc_SessionID c = [] \<and> cc_Extra c = None"
  using assms by (rule auth0.no_provider_claims)

text \<open>A refresh does not look at the status: a page that decodes to an empty object replaces the
  configuration, and the adapter then names no issuer.\<close>

lemma refresh_accepts_error_page:
  assumes "hc_NewRequest client (gcf_DiscoveryURL (ga_cfg a)) = None"
    and "hc_Do client (get_request (gcf_DiscoveryURL (ga_cfg a))) = Inr resp" "json_decode codec (cp_Body resp) = Some (JObj [])"
  shows "fst (generic_RefreshConfig codec client a) = None"
    "generic_Issuer (snd (generic_RefreshConfig codec client a)) = []"
  using assms by (simp_all add: generic_RefreshConfig_def decode_into_def generic_Issuer_def empty_discovery_def)

end
