(* ===== verification/Jwt_Validator.thy ===== *)
theory Jwt_Validator
  imports Dpop Providers
begin

text \<open>
  Local JWT validation (\<^verbatim>\<open>pkg/core/token/jwtvalidator.go\<close>): the validator with its cached key
  set, the resolution of a signing key with one refresh and retry, the fetch of the JWKS, and
  the mapping of the claims.  The JWT library is a parameter, \<open>jwt_library\<close>: it parses a token,
  asks the key function for a key, and checks signature and registered claims.  What the
  validator relies on is the predicate \<open>jwt_contract\<close>, the documented behaviour of
  \<^verbatim>\<open>ParseWithClaims\<close> under the options the validator passes.
\<close>

section \<open>Configuration, state and claims\<close>

record JWTValidatorConfig =
  jc_JWKSURL :: string
  jc_CacheTTL :: duration
  jc_ExpectedIssuer :: string
  jc_ExpectedAudience :: string
  jc_ValidMethods :: "string list"

text \<open>The options of the parser: \<^verbatim>\<open>WithExpirationRequired\<close>, \<^verbatim>\<open>WithIssuedAt\<close>, \<^verbatim>\<open>WithValidMethods\<close>,
  \<^verbatim>\<open>WithIssuer\<close> and \<^verbatim>\<open>WithAudience\<close>.\<close>

record parser_options =
  po_ExpirationRequired :: bool
  po_IssuedAt :: bool
  po_ValidMethods :: "string list"
  po_Issuer :: "string option"
  po_Audience :: "string option"

record JWTValidator =
  jv_jwksURL :: string
  jv_cacheTTL :: duration
  jv_parseOpts :: parser_options
  jv_keySet :: "(string \<times> public_key) list"
  jv_fetchedAt :: time

definition defaultValidMethods :: "string list" where
  "defaultValidMethods = [''RS256'', ''RS384'', ''RS512'', ''ES256'', ''ES384'', ''ES512'']"

definition NewJWTValidator :: "JWTValidatorConfig \<Rightarrow> JWTValidator" where
  "NewJWTValidator cfg =
     \<lparr>jv_jwksURL = jc_JWKSURL cfg,
      jv_cacheTTL = (if jc_CacheTTL cfg = 0 then 5 * Minute else jc_CacheTTL cfg),
      jv_parseOpts = \<lparr>po_ExpirationRequired = True, po_IssuedAt = True,
        po_ValidMethods = (if jc_ValidMethods cfg = [] then defaultValidMethods else jc_ValidMethods cfg),
        po_Issuer = (if jc_ExpectedIssuer cfg \<noteq> [] then Some (jc_ExpectedIssuer cfg) else None),
        po_Audience = (if jc_ExpectedAudience cfg \<noteq> [] then Some (jc_ExpectedAudience cfg) else None)\<rparr>,
      jv_keySet = [], jv_fetchedAt = zero_time\<rparr>"

text \<open>The registered claims of the library, and the claims of the source.\<close>

record jwtRawClaims =
  jr_Issuer :: string
  jr_Subject :: string
  jr_Audience :: "string list"
  jr_ExpiresAt :: "time option"
  jr_NotBefore :: "time option"
  jr_IssuedAt :: "time option"
  jr_ID :: string
  jr_ACR :: string
  jr_AMR :: "string list"
  jr_SID :: string
  jr_AuthTime :: int
  jr_Email :: string
  jr_Username :: string
  jr_Scope :: string
  jr_TenantID :: string
  jr_RealmAccessRoles :: "string list"
  jr_Roles :: "string list"

definition toCommonClaims :: "jwtRawClaims \<Rightarrow> CommonClaims" where
  "toCommonClaims r = empty_claims\<lparr>cc_Subject := jr_Subject r, cc_Issuer := jr_Issuer r, cc_ACR := jr_ACR r,
     cc_AMR := jr_AMR r, cc_SessionID := jr_SID r, cc_Email := jr_Email r, cc_Username := jr_Username r,
     cc_TenantID := jr_TenantID r, cc_Active := True,
     cc_ExpiresAt := (case jr_ExpiresAt r of Some t \<Rightarrow> t | None \<Rightarrow> zero_time),
     cc_IssuedAt := (case jr_IssuedAt r of Some t \<Rightarrow> t | None \<Rightarrow> zero_time),
     cc_AuthTime := (if jr_AuthTime r \<noteq> 0 then Unix (jr_AuthTime r) else zero_time),
     cc_Audience := [] @ jr_Audience r,
     cc_Scopes := (if jr_Scope r \<noteq> [] then Fields (jr_Scope r) else []),
     cc_Roles := (if 0 < length (jr_RealmAccessRoles r) then jr_RealmAccessRoles r else jr_Roles r)\<rparr>"

section \<open>The key set\<close>

definition lookupKey :: "time \<Rightarrow> JWTValidator \<Rightarrow> string \<Rightarrow> public_key result" where
  "lookupKey now v kid =
     (let expired = jv_cacheTTL v < Since now (jv_fetchedAt v) in
      case map_of (jv_keySet v) kid of
        Some key \<Rightarrow> if \<not> expired then Inr key else Inl (Errorf (''key '' @ Quote kid @ '' not found in JWKS cache''))
      | None \<Rightarrow> Inl (Errorf (''key '' @ Quote kid @ '' not found in JWKS cache'')))"

fun into_jwks :: "json \<Rightarrow> jwk list result" where
  "into_jwks (JArr vs) = into_list (\<lambda>v. into_jwk v []) vs"
| "into_jwks JNull = Inr []"
| "into_jwks _ = Inl json_type_error"

definition jwks_member :: "string \<Rightarrow> json \<Rightarrow> jwk list \<Rightarrow> jwk list result" where
  "jwks_member k v keys = (if EqualFold k ''keys'' then into_jwks v else Inr keys)"

text \<open>The loop over the keys: unsupported ones are skipped, and of two with one \<^verbatim>\<open>kid\<close> the last wins.\<close>

fun collect_keys :: "crypto \<Rightarrow> jwk list \<Rightarrow> (string \<times> public_key) list \<Rightarrow> (string \<times> public_key) list" where
  "collect_keys cr [] keys = keys"
| "collect_keys cr (jwk # jwks) keys = (case PublicKeyFromJWK cr jwk of
       Inl _ \<Rightarrow> collect_keys cr jwks keys
     | Inr key \<Rightarrow> collect_keys cr jwks (AList.update (jwk_string jwk ''kid'') key keys))"

definition fetchJWKS ::
  "json_codec \<Rightarrow> crypto \<Rightarrow> http_client \<Rightarrow> time \<Rightarrow> JWTValidator \<Rightarrow> error option \<times> JWTValidator" where
  "fetchJWKS codec cr client now v =
     (case hc_NewRequest client (jv_jwksURL v) of Some e \<Rightarrow> (Some e, v)
      | None \<Rightarrow> (case hc_Do client (get_request (jv_jwksURL v)) of
          Inl e \<Rightarrow> (Some (Wrapf (''fetching JWKS from '' @ jv_jwksURL v @ '': '') e), v)
        | Inr resp \<Rightarrow>
           if cp_StatusCode resp \<noteq> 200
           then (Some (Errorf (''JWKS endpoint returned '' @ show_nat (cp_StatusCode resp))), v)
           else (case decode_into codec jwks_member (cp_Body resp) [] of
               Inl e \<Rightarrow> (Some (Wrapf ''decoding JWKS: '' e), v)
             | Inr keys \<Rightarrow> (None, v\<lparr>jv_keySet := collect_keys cr keys [], jv_fetchedAt := now\<rparr>))))"

definition RefreshKeys ::
  "json_codec \<Rightarrow> crypto \<Rightarrow> http_client \<Rightarrow> time \<Rightarrow> JWTValidator \<Rightarrow> error option \<times> JWTValidator" where
  "RefreshKeys codec cr client now v = fetchJWKS codec cr client now v"

text \<open>The key function is called with the header of the token.\<close>

definition keyfunc ::
  "json_codec \<Rightarrow> crypto \<Rightarrow> http_client \<Rightarrow> time \<Rightarrow> (string \<times> gval) list \<Rightarrow> JWTValidator
     \<Rightarrow> public_key result \<times> JWTValidator" where
  "keyfunc codec cr client now header v =
     (let kid = jwk_string header ''kid'' in
      case lookupKey now v kid of Inr key \<Rightarrow> (Inr key, v)
      | Inl _ \<Rightarrow> (case fetchJWKS codec cr client now v of
            (Some fetchErr, v') \<Rightarrow> (Inl (Wrapf ''fetching JWKS: '' fetchErr), v')
          | (None, v') \<Rightarrow> (lookupKey now v' kid, v')))"

section \<open>Validation\<close>

record jwt_library =
  jl_header :: "string \<Rightarrow> (string \<times> gval) list option"
  jl_claims :: "string \<Rightarrow> jwtRawClaims option"
  jl_verifies :: "string \<Rightarrow> public_key \<Rightarrow> string \<Rightarrow> bool"
  jl_ParseWithClaims :: "parser_options \<Rightarrow> time \<Rightarrow> string
     \<Rightarrow> ((string \<times> gval) list \<Rightarrow> JWTValidator \<Rightarrow> public_key result \<times> JWTValidator)
     \<Rightarrow> JWTValidator \<Rightarrow> jwtRawClaims result \<times> JWTValidator"

definition JWTValidator_Validate ::
  "jwt_library \<Rightarrow> json_codec \<Rightarrow> crypto \<Rightarrow> http_client \<Rightarrow> time \<Rightarrow> JWTValidator \<Rightarrow> string
     \<Rightarrow> CommonClaims result \<times> JWTValidator" where
  "JWTValidator_Validate lib codec cr client now v rawToken =
     (case jl_ParseWithClaims lib (jv_parseOpts v) now rawToken (keyfunc codec cr client now) v of
        (Inl err, v') \<Rightarrow> (Inl (Wrapf ''jwt validation: '' err), v')
      | (Inr raw, v') \<Rightarrow> (Inr (toCommonClaims raw), v'))"

text \<open>The documented behaviour of the library.  A token is accepted only when the key function
  returned a key for its header, the algorithm of that header is among the valid methods, the
  signature verifies under that algorithm and key, and the registered claims pass the options;
  a valid token with a resolvable key is accepted; the key function is called at most once.\<close>

definition claims_valid :: "parser_options \<Rightarrow> time \<Rightarrow> jwtRawClaims \<Rightarrow> bool" where
  "claims_valid opts now c \<longleftrightarrow>
     (po_ExpirationRequired opts \<longrightarrow> jr_ExpiresAt c \<noteq> None)
   \<and> (\<forall>t. jr_ExpiresAt c = Some t \<longrightarrow> now < t) \<and> (\<forall>t. jr_NotBefore c = Some t \<longrightarrow> t \<le> now)
   \<and> (po_IssuedAt opts \<longrightarrow> (\<forall>t. jr_IssuedAt c = Some t \<longrightarrow> t \<le> now))
   \<and> (\<forall>iss. po_Issuer opts = Some iss \<longrightarrow> jr_Issuer c = iss)
   \<and> (\<forall>aud. po_Audience opts = Some aud \<longrightarrow> aud \<in> set (jr_Audience c))"

definition jwt_contract :: "jwt_library \<Rightarrow> bool" where
  "jwt_contract lib \<longleftrightarrow>
     (\<forall>opts now raw kf v c v'. jl_ParseWithClaims lib opts now raw kf v = (Inr c, v') \<longrightarrow>
        (\<exists>header alg key. jl_header lib raw = Some header \<and> jl_claims lib raw = Some c
           \<and> map_of header ''alg'' = Some (GString alg) \<and> alg \<in> set (po_ValidMethods opts) \<and> kf header v = (Inr key, v')
           \<and> jl_verifies lib alg key raw \<and> claims_valid opts now c))
   \<and> (\<forall>opts now raw kf v e v'. jl_ParseWithClaims lib opts now raw kf v = (Inl e, v') \<longrightarrow>
        v' = v \<or> (\<exists>header. jl_header lib raw = Some header \<and> v' = snd (kf header v)))
   \<and> (\<forall>opts now raw kf v header c alg key v'. jl_header lib raw = Some header \<and> jl_claims lib raw = Some c
        \<and> map_of header ''alg'' = Some (GString alg) \<and> alg \<in> set (po_ValidMethods opts) \<and> kf header v = (Inr key, v')
        \<and> jl_verifies lib alg key raw \<and> claims_valid opts now c
        \<longrightarrow> jl_ParseWithClaims lib opts now raw kf v = (Inr c, v'))"

section \<open>Histories\<close>

text \<open>What happens to a validator: tokens are validated and keys are refreshed, each at some time and
  with the network as it is then.\<close>

datatype jwt_event = Validates string | Refreshes

inductive jwt_history ::
  "jwt_library \<Rightarrow> json_codec \<Rightarrow> crypto \<Rightarrow> JWTValidator \<Rightarrow> (time \<times> http_client \<times> jwt_event) list \<Rightarrow> JWTValidator \<Rightarrow> bool"
  for lib codec cr where
  start: "jwt_history lib codec cr v [] v"
| validate: "jwt_history lib codec cr v es v' \<Longrightarrow>
    jwt_history lib codec cr v (es @ [(now, client, Validates raw)])
      (snd (JWTValidator_Validate lib codec cr client now v' raw))"
| refresh: "jwt_history lib codec cr v es v' \<Longrightarrow>
    jwt_history lib codec cr v (es @ [(now, client, Refreshes)]) (snd (RefreshKeys codec cr client now v'))"

inductive_cases jwt_history_snocE: "jwt_history lib codec cr v (es @ [e]) v'"

text \<open>The keys that an endpoint publishes.\<close>

definition published :: "json_codec \<Rightarrow> crypto \<Rightarrow> http_client \<Rightarrow> string \<Rightarrow> (string \<times> public_key) list option" where
  "published codec cr client url =
     (if hc_NewRequest client url \<noteq> None then None
      else (case hc_Do client (get_request url) of Inl _ \<Rightarrow> None
        | Inr resp \<Rightarrow>
           if cp_StatusCode resp \<noteq> 200 then None
           else (case decode_into codec jwks_member (cp_Body resp) [] of Inl _ \<Rightarrow> None
             | Inr keys \<Rightarrow> Some (collect_keys cr keys []))))"

lemma fetchJWKS_eq:
  "published codec cr client (jv_jwksURL v) = Some keys \<Longrightarrow>
     fetchJWKS codec cr client now v = (None, v\<lparr>jv_keySet := keys, jv_fetchedAt := now\<rparr>)"
  "published codec cr client (jv_jwksURL v) = None \<Longrightarrow> \<exists>e. fetchJWKS codec cr client now v = (Some e, v)"
  by (auto simp: published_def fetchJWKS_def split: if_splits sum.splits option.splits)

text \<open>Where the key set of a validator comes from: nowhere yet, or from one of the fetches so far.\<close>

definition key_source ::
  "json_codec \<Rightarrow> crypto \<Rightarrow> string \<Rightarrow> (time \<times> http_client) set \<Rightarrow> JWTValidator \<Rightarrow> bool" where
  "key_source codec cr url fetches v \<longleftrightarrow> jv_jwksURL v = url
     \<and> (jv_keySet v = [] \<or> (\<exists>client. (jv_fetchedAt v, client) \<in> fetches \<and> published codec cr client url = Some (jv_keySet v)))"

lemma key_source_mono: "key_source codec cr url F v \<Longrightarrow> F \<subseteq> G \<Longrightarrow> key_source codec cr url G v"
  unfolding key_source_def by blast

lemma key_source_fetch:
  assumes "key_source codec cr url F v"
  shows "key_source codec cr url (insert (now, client) F) (snd (fetchJWKS codec cr client now v))"
proof (cases "published codec cr client url")
  case None
  then obtain e where "fetchJWKS codec cr client now v = (Some e, v)"
    using fetchJWKS_eq(2) assms by (metis key_source_def)
  with assms show ?thesis by (auto intro: key_source_mono)
next
  case (Some keys)
  with assms fetchJWKS_eq(1) [of codec cr client v keys now] show ?thesis by (auto simp: key_source_def)
qed

lemma fetchJWKS_keeps:
  "jv_jwksURL (snd (fetchJWKS codec cr client now v)) = jv_jwksURL v"
  "jv_cacheTTL (snd (fetchJWKS codec cr client now v)) = jv_cacheTTL v"
  "jv_parseOpts (snd (fetchJWKS codec cr client now v)) = jv_parseOpts v"
  by (simp_all add: fetchJWKS_def split: option.splits sum.splits)

lemma keyfunc_state: "snd (keyfunc codec cr client now header v) = v
    \<or> snd (keyfunc codec cr client now header v) = snd (fetchJWKS codec cr client now v)"
  by (simp add: keyfunc_def Let_def split: sum.splits prod.splits option.splits)

lemma JWTValidator_state:
  assumes "jwt_contract lib"
  shows "snd (JWTValidator_Validate lib codec cr client now v raw) = v
    \<or> snd (JWTValidator_Validate lib codec cr client now v raw) = snd (fetchJWKS codec cr client now v)"
proof -
  obtain res v' where p: "jl_ParseWithClaims lib (jv_parseOpts v) now raw (keyfunc codec cr client now) v = (res, v')"
    by (rule prod.exhaust)
  have "v' = v \<or> (\<exists>header. v' = snd (keyfunc codec cr client now header v))"
  proof (cases res)
    case (Inl e)
    with p assms show ?thesis unfolding jwt_contract_def by blast
  next
    case (Inr c)
    with p assms show ?thesis unfolding jwt_contract_def by (metis snd_conv)
  qed
  with keyfunc_state p show ?thesis
    by (auto simp: JWTValidator_Validate_def split: sum.splits) metis+
qed

lemma jwt_history_invariant:
  assumes "jwt_history lib codec cr v es v'" "jwt_contract lib" "jv_keySet v = []"
  shows "key_source codec cr (jv_jwksURL v) ((\<lambda>(t, n, e). (t, n)) ` set es) v'
    \<and> jv_cacheTTL v' = jv_cacheTTL v \<and> jv_parseOpts v' = jv_parseOpts v"
  using assms
proof (induction rule: jwt_history.induct)
  case (start v)
  then show ?case by (simp add: key_source_def)
next
  case (validate v es v' now client raw)
  let ?F = "(\<lambda>(t, n, e). (t, n)) ` set es"
  have IH: "key_source codec cr (jv_jwksURL v) ?F v'" "jv_cacheTTL v' = jv_cacheTTL v" "jv_parseOpts v' = jv_parseOpts v"
    using validate by auto
  consider "snd (JWTValidator_Validate lib codec cr client now v' raw) = v'"
    | "snd (JWTValidator_Validate lib codec cr client now v' raw) = snd (fetchJWKS codec cr client now v')"
    using JWTValidator_state [OF validate.prems(1)] by blast
  then show ?case
  proof cases
    case 1
    with IH show ?thesis by (auto intro: key_source_mono)
  next
    case 2
    with IH key_source_fetch [OF IH(1), of now client] show ?thesis by (simp add: fetchJWKS_keeps)
  qed
next
  case (refresh v es v' now client)
  with key_source_fetch [of codec cr "jv_jwksURL v" _ v' now client] show ?case
    by (simp add: RefreshKeys_def fetchJWKS_keeps)
qed

text \<open>A key that the cache does not have is fetched.\<close>

lemma Validate_fetches:
  assumes "jwt_contract lib" "jl_header lib raw = Some header" "jl_claims lib raw = Some c"
    and "map_of header ''alg'' = Some (GString alg)" "alg \<in> set (po_ValidMethods (jv_parseOpts v))"
    and "claims_valid (jv_parseOpts v) now c" "0 \<le> jv_cacheTTL v"
    and "published codec cr client (jv_jwksURL v) = Some keys" "map_of keys (jwk_string header ''kid'') = Some key"
    and "jl_verifies lib alg key raw" "\<not> is_ok (lookupKey now v (jwk_string header ''kid''))"
  shows "JWTValidator_Validate lib codec cr client now v raw
    = (Inr (toCommonClaims c), v\<lparr>jv_keySet := keys, jv_fetchedAt := now\<rparr>)"
proof -
  let ?v' = "v\<lparr>jv_keySet := keys, jv_fetchedAt := now\<rparr>"
  have "lookupKey now ?v' (jwk_string header ''kid'') = Inr key"
    using assms(7,9) by (simp add: lookupKey_def Since_def time_Sub_def)
  moreover obtain e where "lookupKey now v (jwk_string header ''kid'') = Inl e"
    using assms(11) by (auto simp: is_ok_def split: sum.splits)
  ultimately have kf: "keyfunc codec cr client now header v = (Inr key, ?v')"
    using fetchJWKS_eq(1) [OF assms(8)] by (simp add: keyfunc_def)
  have "jl_ParseWithClaims lib (jv_parseOpts v) now raw (keyfunc codec cr client now) v = (Inr c, ?v')"
    using assms(1)[unfolded jwt_contract_def, THEN conjunct2, THEN conjunct2] assms(2-6,10) kf by blast
  then show ?thesis by (simp add: JWTValidator_Validate_def)
qed

section \<open>Properties\<close>

text \<open>C28: a locally validated token is signed by a key that was published recently.  Whatever
  tokens were validated and whatever the key endpoint answered before, a token that is
  accepted carries an algorithm the validator allows, verifies under a key that the endpoint
  published for the token's \<^verbatim>\<open>kid\<close> in a document fetched no longer than the cache life time ago,
  has not expired, and has the expected issuer and audience;
  the claims returned are those of the token.\<close>

theorem jwt_key_fresh:
  assumes "jwt_contract lib" "jwt_history lib codec cr (NewJWTValidator cfg) es v"
    and "JWTValidator_Validate lib codec cr client now v raw = (Inr claims, v')"
  shows "\<exists>header alg key fetched net keys c. jl_header lib raw = Some header \<and> map_of header ''alg'' = Some (GString alg)
    \<and> alg \<in> set (if jc_ValidMethods cfg = [] then defaultValidMethods else jc_ValidMethods cfg) \<and> jl_verifies lib alg key raw
    \<and> (fetched = now \<and> net = client \<or> (\<exists>e. (fetched, net, e) \<in> set es))
    \<and> published codec cr net (jc_JWKSURL cfg) = Some keys \<and> map_of keys (jwk_string header ''kid'') = Some key
    \<and> Since now fetched \<le> (if jc_CacheTTL cfg = 0 then 5 * Minute else jc_CacheTTL cfg)
    \<and> jl_claims lib raw = Some c \<and> claims = toCommonClaims c \<and> now < cc_ExpiresAt claims
    \<and> (jc_ExpectedIssuer cfg \<noteq> [] \<longrightarrow> cc_Issuer claims = jc_ExpectedIssuer cfg)
    \<and> (jc_ExpectedAudience cfg \<noteq> [] \<longrightarrow> jc_ExpectedAudience cfg \<in> set (cc_Audience claims))"
proof -
  let ?v0 = "NewJWTValidator cfg" and ?F = "(\<lambda>(t, n, e). (t, n)) ` set es"
  have inv: "key_source codec cr (jc_JWKSURL cfg) ?F v" "jv_cacheTTL v = jv_cacheTTL ?v0" "jv_parseOpts v = jv_parseOpts ?v0"
    using jwt_history_invariant [OF assms(2,1)] by (simp_all add: NewJWTValidator_def)
  obtain c where p: "jl_ParseWithClaims lib (jv_parseOpts v) now raw (keyfunc codec cr client now) v = (Inr c, v')"
    and claims: "claims = toCommonClaims c"
    using assms(3) by (auto simp: JWTValidator_Validate_def split: prod.splits sum.splits)
  obtain header alg key where h: "jl_header lib raw = Some header" "jl_claims lib raw = Some c"
    "map_of header ''alg'' = Some (GString alg)" "alg \<in> set (po_ValidMethods (jv_parseOpts v))"
    "keyfunc codec cr client now header v = (Inr key, v')" "jl_verifies lib alg key raw" "claims_valid (jv_parseOpts v) now c"
    using p assms(1) unfolding jwt_contract_def by meson
  have src: "key_source codec cr (jc_JWKSURL cfg) (insert (now, client) ?F) v'"
    using keyfunc_state [of codec cr client now header v] key_source_fetch [OF inv(1), of now client] inv(1) h(5)
    by (auto intro: key_source_mono)
  have look: "lookupKey now v' (jwk_string header ''kid'') = Inr key" and ttl: "jv_cacheTTL v' = jv_cacheTTL ?v0"
    using h(5) inv(2) fetchJWKS_keeps(2) [of codec cr client now v]
    by (auto simp: keyfunc_def Let_def split: sum.splits prod.splits option.splits)
  from look have key: "map_of (jv_keySet v') (jwk_string header ''kid'') = Some key"
    "Since now (jv_fetchedAt v') \<le> jv_cacheTTL v'"
    by (auto simp: lookupKey_def Let_def not_less split: option.splits if_splits)
  then have "jv_keySet v' \<noteq> []" by auto
  with src obtain net where net: "(jv_fetchedAt v', net) \<in> insert (now, client) ?F"
    "published codec cr net (jc_JWKSURL cfg) = Some (jv_keySet v')" unfolding key_source_def by blast
  have valid: "now < cc_ExpiresAt claims" "jc_ExpectedIssuer cfg \<noteq> [] \<longrightarrow> cc_Issuer claims = jc_ExpectedIssuer cfg"
    "jc_ExpectedAudience cfg \<noteq> [] \<longrightarrow> jc_ExpectedAudience cfg \<in> set (cc_Audience claims)"
    using h(7) by (auto simp: claims_valid_def inv(3) NewJWTValidator_def claims toCommonClaims_def)
  show ?thesis
    using h net key ttl valid claims inv(3)
    by (intro exI [of _ header] exI [of _ alg] exI [of _ key] exI [of _ "jv_fetchedAt v'"] exI [of _ net]
        exI [of _ "jv_keySet v'"] exI [of _ c]) (auto simp: NewJWTValidator_def)
qed

text \<open>Key rotation needs no restart.  If the endpoint now publishes the key of a valid token, the
  token is accepted, whether the cached key set is missing, expired, or older than the key:
  the validator fetches once and retries.\<close>

lemma jwt_rotation:
  assumes "jwt_contract lib" "jl_header lib raw = Some header" "jl_claims lib raw = Some c"
    and "map_of header ''alg'' = Some (GString alg)" "alg \<in> set (po_ValidMethods (jv_parseOpts v))"
    and "claims_valid (jv_parseOpts v) now c" "0 \<le> jv_cacheTTL v"
    and "published codec cr client (jv_jwksURL v) = Some keys" "map_of keys (jwk_string header ''kid'') = Some key"
    and "jl_verifies lib alg key raw" "\<not> is_ok (lookupKey now v (jwk_string header ''kid''))"
  shows "JWTValidator_Validate lib codec cr client now v raw
    = (Inr (toCommonClaims c), v\<lparr>jv_keySet := keys, jv_fetchedAt := now\<rparr>)"
  using assms by (rule Validate_fetches)

text \<open>Locally validated claims carry neither the token's identifier nor its key binding.  Every
  DPoP proof fails against them, and a revocation by token identifier cannot name them.\<close>

lemma jwt_claims_unbound:
  assumes "JWTValidator_Validate lib codec cr client now v raw = (Inr claims, v')"
  shows "cc_JTI claims = [] \<and> cc_Confirmation claims = None \<and> VerifyDPoPBinding codec' cr' proof claims \<noteq> None"
  using assms
  by (auto simp: JWTValidator_Validate_def toCommonClaims_def empty_claims_def VerifyDPoPBinding_def
      split: prod.splits sum.splits)

subsection \<open>Witnesses\<close>

text \<open>A library that knows one token, and an endpoint that publishes its key.\<close>

definition wit_jwt_claims :: jwtRawClaims where
  "wit_jwt_claims = \<lparr>jr_Issuer = ''https://as'', jr_Subject = ''alice'', jr_Audience = [''api''], jr_ExpiresAt = Some (100 * Second),
     jr_NotBefore = None, jr_IssuedAt = Some 0, jr_ID = ''1'', jr_ACR = ''gold'', jr_AMR = [], jr_SID = [], jr_AuthTime = 0,
     jr_Email = [], jr_Username = [], jr_Scope = ''openid'', jr_TenantID = [], jr_RealmAccessRoles = [], jr_Roles = []\<rparr>"

definition wit_jwt_header :: "(string \<times> gval) list" where
  "wit_jwt_header = [(''alg'', GString ''RS256''), (''kid'', GString ''k1'')]"

definition wit_jwt_parse where
  "wit_jwt_parse opts now raw kf v =
     (if raw \<noteq> ''T'' \<or> ''RS256'' \<notin> set (po_ValidMethods opts) then (Inl (Errorf ''token is malformed''), v)
      else (case kf wit_jwt_header v of (Inl e, v') \<Rightarrow> (Inl e, v')
        | (Inr key, v') \<Rightarrow>
           if key = RSAKey 1 3 \<and> claims_valid opts now wit_jwt_claims then (Inr wit_jwt_claims, v')
           else (Inl (Errorf ''signature is invalid''), v')))"

definition wit_jwt_library :: jwt_library where
  "wit_jwt_library = \<lparr>jl_header = (\<lambda>raw. if raw = ''T'' then Some wit_jwt_header else None),
     jl_claims = (\<lambda>raw. if raw = ''T'' then Some wit_jwt_claims else None),
     jl_verifies = (\<lambda>alg key raw. key = RSAKey 1 3), jl_ParseWithClaims = wit_jwt_parse\<rparr>"

lemma wit_jwt_contract: "jwt_contract wit_jwt_library"
  unfolding jwt_contract_def
  by (auto simp: wit_jwt_library_def wit_jwt_parse_def wit_jwt_header_def split: if_splits sum.splits prod.splits)

definition wit_jwks_codec :: json_codec where
  "wit_jwks_codec = \<lparr>json_parse = (\<lambda>_. None),
     json_decode = (\<lambda>s. if s = ''K'' then Some (JObj [(''keys'', JArr [JObj ((''kid'', JStr ''k1'') # wit_jwk)])]) else None),
     json_print = (\<lambda>_. []), time_parse = (\<lambda>_. None), time_print = (\<lambda>_. None)\<rparr>"

definition wit_jwt_cfg :: JWTValidatorConfig where
  "wit_jwt_cfg = \<lparr>jc_JWKSURL = ''https://as/keys'', jc_CacheTTL = 0, jc_ExpectedIssuer = ''https://as'',
     jc_ExpectedAudience = ''api'', jc_ValidMethods = []\<rparr>"

lemma wit_published:
  "published wit_jwks_codec wit_crypto (answering 200 ''K'') url = Some [(''k1'', RSAKey 1 3)]"
proof -
  let ?jwk = "(''kid'', JStr ''k1'') # wit_jwk"
  have "RawURLEncoding_Decode ''AQ'' = Inr [CHR 0x01]" "RawURLEncoding_Decode ''Aw'' = Inr [CHR 0x03]" by code_simp+
  then have "PublicKeyFromJWK wit_crypto (rev (map (\<lambda>kv. (fst kv, json_to_gval (snd kv))) ?jwk)) = Inr (RSAKey 1 3)"
    by (simp add: PublicKeyFromJWK_def rsaKeyFromJWK_def jwk_string_def wit_jwk_def SetBytes_def wrap64_def)
  moreover have "jwk_string (rev (map (\<lambda>kv. (fst kv, json_to_gval (snd kv))) ?jwk)) ''kid'' = ''k1''"
    by (simp add: jwk_string_def wit_jwk_def)
  ultimately show ?thesis
    by (simp add: published_def answering_def decode_into_def wit_jwks_codec_def jwks_member_def fold_simps)
qed

lemma wit_jwt_valid: "claims_valid (jv_parseOpts (NewJWTValidator wit_jwt_cfg)) Second wit_jwt_claims"
  by (simp add: claims_valid_def NewJWTValidator_def wit_jwt_cfg_def wit_jwt_claims_def)

lemma wit_jwt_premises:
  "jl_header wit_jwt_library ''T'' = Some wit_jwt_header" "jl_claims wit_jwt_library ''T'' = Some wit_jwt_claims"
  "map_of wit_jwt_header ''alg'' = Some (GString ''RS256'')"
  "''RS256'' \<in> set (po_ValidMethods (jv_parseOpts (NewJWTValidator wit_jwt_cfg)))"
  "0 \<le> jv_cacheTTL (NewJWTValidator wit_jwt_cfg)"
  "map_of [(''k1'', RSAKey 1 3)] (jwk_string wit_jwt_header ''kid'') = Some (RSAKey 1 3)"
  "jl_verifies wit_jwt_library ''RS256'' (RSAKey 1 3) ''T''"
  "\<not> is_ok (lookupKey Second (NewJWTValidator wit_jwt_cfg) (jwk_string wit_jwt_header ''kid''))"
  by (simp_all add: wit_jwt_library_def wit_jwt_header_def NewJWTValidator_def wit_jwt_cfg_def defaultValidMethods_def
      jwk_string_def lookupKey_def)

theorem jwt_rotation_witness:
  "fst (JWTValidator_Validate wit_jwt_library wit_jwks_codec wit_crypto (answering 200 ''K'') Second
     (NewJWTValidator wit_jwt_cfg) ''T'') = Inr (toCommonClaims wit_jwt_claims)"
  using jwt_rotation [OF wit_jwt_contract wit_jwt_premises(1-4) wit_jwt_valid wit_jwt_premises(5) wit_published
      wit_jwt_premises(6-8)] by simp

lemma wit_jwt_accepted:
  "\<exists>v'. JWTValidator_Validate wit_jwt_library wit_jwks_codec wit_crypto (answering 200 ''K'') Second
     (NewJWTValidator wit_jwt_cfg) ''T'' = (Inr (toCommonClaims wit_jwt_claims), v')"
  using Validate_fetches [OF wit_jwt_contract wit_jwt_premises(1-4) wit_jwt_valid wit_jwt_premises(5) wit_published
      wit_jwt_premises(6-8)] by simp

theorem jwt_key_fresh_witness:
  "\<exists>alg key. jl_verifies wit_jwt_library alg key ''T'' \<and> alg \<in> set defaultValidMethods
     \<and> Second < cc_ExpiresAt (toCommonClaims wit_jwt_claims)"
proof -
  obtain v' where v': "JWTValidator_Validate wit_jwt_library wit_jwks_codec wit_crypto (answering 200 ''K'') Second
     (NewJWTValidator wit_jwt_cfg) ''T'' = (Inr (toCommonClaims wit_jwt_claims), v')" using wit_jwt_accepted by blast
  have "jc_ValidMethods wit_jwt_cfg = []" by (simp add: wit_jwt_cfg_def)
  with jwt_key_fresh [OF wit_jwt_contract jwt_history.start v'] show ?thesis by auto
qed

theorem jwt_claims_unbound_witness: "cc_JTI (toCommonClaims wit_jwt_claims) = []"
proof -
  obtain v' where v': "JWTValidator_Validate wit_jwt_library wit_jwks_codec wit_crypto (answering 200 ''K'') Second
     (NewJWTValidator wit_jwt_cfg) ''T'' = (Inr (toCommonClaims wit_jwt_claims), v')" using wit_jwt_accepted by blast
  from jwt_claims_unbound [OF v'] show ?thesis by blast
qed

end
