(* ===== verification/Token_Exchange.thy ===== *)
theory Token_Exchange
  imports Fapi
begin

text \<open>
  Token exchange (\<^verbatim>\<open>pkg/core/tokenexchange/exchange.go\<close>, RFC 8693): the request and its form, the
  call to the token endpoint with its error responses, and the separate validation of a
  response.
\<close>

definition TokenTypeAccessToken :: string where
  "TokenTypeAccessToken = ''urn:ietf:params:oauth:token-type:access_token''"
definition TokenTypeRefreshToken :: string where
  "TokenTypeRefreshToken = ''urn:ietf:params:oauth:token-type:refresh_token''"
definition TokenTypeIDToken :: string where
  "TokenTypeIDToken = ''urn:ietf:params:oauth:token-type:id_token''"
definition TokenTypeJWT :: string where
  "TokenTypeJWT = ''urn:ietf:params:oauth:token-type:jwt''"
definition TokenTypeSAML1 :: string where
  "TokenTypeSAML1 = ''urn:ietf:params:oauth:token-type:saml1''"
definition TokenTypeSAML2 :: string where
  "TokenTypeSAML2 = ''urn:ietf:params:oauth:token-type:saml2''"

record ExchangeRequest =
  xq_GrantType :: string
  xq_SubjectToken :: string
  xq_SubjectTokenType :: string
  xq_ActorToken :: string
  xq_ActorTokenType :: string
  xq_RequestedTokenType :: string
  xq_Resource :: string
  xq_Audience :: string
  xq_Scope :: string
  xq_ClientID :: string
  xq_ClientSecret :: string

record ExchangeResponse =
  xp_AccessToken :: string
  xp_IssuedTokenType :: string
  xp_TokenType :: string
  xp_ExpiresIn :: int
  xp_Scope :: string
  xp_RefreshToken :: string

record ExchangeError =
  xe_Code :: string
  xe_Description :: string

definition ExchangeError_Error :: "ExchangeError \<Rightarrow> string" where
  "ExchangeError_Error e = (if xe_Description e \<noteq> []
     then ''token exchange error '' @ Quote (xe_Code e) @ '': '' @ xe_Description e
     else ''token exchange error '' @ Quote (xe_Code e))"

text \<open>The client is its endpoint; the HTTP client is an argument of the call.\<close>

record ExchangeClient =
  xc_endpoint :: string

definition NewClient :: "string \<Rightarrow> ExchangeClient" where
  "NewClient tokenEndpoint = \<lparr>xc_endpoint = tokenEndpoint\<rparr>"

definition empty_exchange_response :: ExchangeResponse where
  "empty_exchange_response = \<lparr>xp_AccessToken = [], xp_IssuedTokenType = [], xp_TokenType = [], xp_ExpiresIn = 0,
     xp_Scope = [], xp_RefreshToken = []\<rparr>"

definition exchange_response_member :: "string \<Rightarrow> json \<Rightarrow> ExchangeResponse \<Rightarrow> ExchangeResponse result" where
  "exchange_response_member k v r =
     (if EqualFold k ''access_token'' then store (into_string v (xp_AccessToken r)) (\<lambda>x. r\<lparr>xp_AccessToken := x\<rparr>)
      else if EqualFold k ''issued_token_type''
        then store (into_string v (xp_IssuedTokenType r)) (\<lambda>x. r\<lparr>xp_IssuedTokenType := x\<rparr>)
      else if EqualFold k ''token_type'' then store (into_string v (xp_TokenType r)) (\<lambda>x. r\<lparr>xp_TokenType := x\<rparr>)
      else if EqualFold k ''expires_in'' then store (into_int64 v (xp_ExpiresIn r)) (\<lambda>x. r\<lparr>xp_ExpiresIn := x\<rparr>)
      else if EqualFold k ''scope'' then store (into_string v (xp_Scope r)) (\<lambda>x. r\<lparr>xp_Scope := x\<rparr>)
      else if EqualFold k ''refresh_token'' then store (into_string v (xp_RefreshToken r)) (\<lambda>x. r\<lparr>xp_RefreshToken := x\<rparr>)
      else Inr r)"

definition exchange_error_member :: "string \<Rightarrow> json \<Rightarrow> ExchangeError \<Rightarrow> ExchangeError result" where
  "exchange_error_member k v e =
     (if EqualFold k ''error'' then store (into_string v (xe_Code e)) (\<lambda>x. e\<lparr>xe_Code := x\<rparr>)
      else if EqualFold k ''error_description'' then store (into_string v (xe_Description e)) (\<lambda>x. e\<lparr>xe_Description := x\<rparr>)
      else Inr e)"

text \<open>The form; each key is set at most once.\<close>

definition exchange_form :: "ExchangeRequest \<Rightarrow> (string \<times> string) list" where
  "exchange_form req =
     [(''grant_type'', ''urn:ietf:params:oauth:grant-type:token-exchange''),
      (''subject_token'', xq_SubjectToken req), (''subject_token_type'', xq_SubjectTokenType req)]
     @ (if xq_ActorToken req \<noteq> []
        then [(''actor_token'', xq_ActorToken req),
              (''actor_token_type'', if xq_ActorTokenType req = [] then TokenTypeAccessToken else xq_ActorTokenType req)]
        else [])
     @ [(''requested_token_type'', if xq_RequestedTokenType req = [] then TokenTypeAccessToken else xq_RequestedTokenType req)]
     @ (if xq_Resource req \<noteq> [] then [(''resource'', xq_Resource req)] else [])
     @ (if xq_Audience req \<noteq> [] then [(''audience'', xq_Audience req)] else [])
     @ (if xq_Scope req \<noteq> [] then [(''scope'', xq_Scope req)] else [])"

definition exchange_call :: "ExchangeClient \<Rightarrow> ExchangeRequest \<Rightarrow> client_request" where
  "exchange_call c req = \<lparr>cq_Method = ''POST'', cq_URL = xc_endpoint c, cq_ContentType = ''application/x-www-form-urlencoded'',
     cq_BasicAuth = (if xq_ClientID req \<noteq> [] then Some (xq_ClientID req, xq_ClientSecret req) else None),
     cq_Body = Values_Encode (exchange_form req)\<rparr>"

text \<open>An error is the endpoint's own error response, or any other error.\<close>

datatype exchange_failure = EndpointError ExchangeError | OtherError error

definition Exchange ::
  "json_codec \<Rightarrow> http_client \<Rightarrow> ExchangeClient \<Rightarrow> ExchangeRequest \<Rightarrow> exchange_failure + ExchangeResponse" where
  "Exchange codec client c req =
     (if xq_SubjectToken req = [] then Inl (OtherError (Errorf ''SubjectToken is required''))
      else if xq_SubjectTokenType req = [] then Inl (OtherError (Errorf ''SubjectTokenType is required''))
      else (case hc_NewRequest client (xc_endpoint c) of
          Some e \<Rightarrow> Inl (OtherError (Wrapf ''building exchange request: '' e))
        | None \<Rightarrow> (case hc_Do client (exchange_call c req) of
            Inl e \<Rightarrow> Inl (OtherError (Wrapf ''token exchange request: '' e))
          | Inr resp \<Rightarrow>
             if cp_StatusCode resp \<noteq> 200
             then (let other = OtherError (Errorf (''token endpoint returned '' @ show_nat (cp_StatusCode resp))) in
                   case decode_into codec exchange_error_member (cp_Body resp) \<lparr>xe_Code = [], xe_Description = []\<rparr> of
                     Inl _ \<Rightarrow> Inl other
                   | Inr errResp \<Rightarrow> if xe_Code errResp \<noteq> [] then Inl (EndpointError errResp) else Inl other)
             else (case decode_into codec exchange_response_member (cp_Body resp) empty_exchange_response of
                 Inl e \<Rightarrow> Inl (OtherError (Wrapf ''decoding token exchange response: '' e))
               | Inr tokenResp \<Rightarrow> Inr tokenResp))))"

definition Exchange_Validate :: "ExchangeResponse \<Rightarrow> error option" where
  "Exchange_Validate r =
     (if xp_AccessToken r = [] then Some (Errorf ''response missing access_token'')
      else if xp_IssuedTokenType r = [] then Some (Errorf ''response missing issued_token_type'')
      else if xp_TokenType r = [] then Some (Errorf ''response missing token_type'')
      else None)"

section \<open>Properties\<close>

lemma exchange_form_distinct: "distinct (map fst (exchange_form req))"
  by (auto simp: exchange_form_def)

lemma Exchange_InrD:
  assumes "Exchange codec client c req = Inr resp"
  obtains http where "xq_SubjectToken req \<noteq> []" "xq_SubjectTokenType req \<noteq> []"
    "hc_Do client (exchange_call c req) = Inr http" "cp_StatusCode http = 200"
    "decode_into codec exchange_response_member (cp_Body http) empty_exchange_response = Inr resp"
  using assms by (auto simp: Exchange_def Let_def split: if_splits option.splits sum.splits)

text \<open>The token endpoint receives exactly what was asked.  When an exchange succeeds, the client
  sent one form post, and reading that form back gives the grant type, the subject token with
  its type, the actor token with its type if there is one and never an actor type without
  actor, the requested type with its default, and the optional parameters that are not empty,
  whatever characters the tokens contain; the answer was a 200.\<close>

lemma exchange_sends_request:
  assumes "Exchange codec client c req = Inr resp"
  shows "\<exists>(call :: client_request) http form. hc_Do client call = Inr http \<and> cp_StatusCode http = 200
    \<and> cq_Method call = ''POST'' \<and> cq_URL call = xc_endpoint c \<and> form = map_of (ParseQuery (cq_Body call))
    \<and> form ''grant_type'' = Some ''urn:ietf:params:oauth:grant-type:token-exchange''
    \<and> form ''subject_token'' = Some (xq_SubjectToken req) \<and> xq_SubjectToken req \<noteq> []
    \<and> form ''subject_token_type'' = Some (xq_SubjectTokenType req)
    \<and> form ''actor_token'' = (if xq_ActorToken req = [] then None else Some (xq_ActorToken req))
    \<and> form ''actor_token_type'' = (if xq_ActorToken req = [] then None
        else Some (if xq_ActorTokenType req = [] then TokenTypeAccessToken else xq_ActorTokenType req))
    \<and> form ''requested_token_type'' = Some (if xq_RequestedTokenType req = [] then TokenTypeAccessToken else xq_RequestedTokenType req)
    \<and> form ''resource'' = (if xq_Resource req = [] then None else Some (xq_Resource req))
    \<and> form ''audience'' = (if xq_Audience req = [] then None else Some (xq_Audience req))
    \<and> form ''scope'' = (if xq_Scope req = [] then None else Some (xq_Scope req))"
proof -
  obtain http where h: "xq_SubjectToken req \<noteq> []" "hc_Do client (exchange_call c req) = Inr http" "cp_StatusCode http = 200"
    using Exchange_InrD [OF assms] by metis
  have form: "map_of (ParseQuery (cq_Body (exchange_call c req))) = map_of (exchange_form req)"
    by (simp add: exchange_call_def ParseQuery_Values_Encode map_of_sort_key exchange_form_distinct)
  show ?thesis
    using h form
    by (intro exI [of _ "exchange_call c req"] exI [of _ http] exI [of _ "map_of (exchange_form req)"])
      (auto simp: exchange_form_def exchange_call_def)
qed

text \<open>A successful exchange is not a valid response.  \<^verbatim>\<open>Exchange\<close> returns whatever a 200 decodes to:
  for every request there is an answer that it passes on although \<^verbatim>\<open>Validate\<close> rejects it, an
  empty object for instance.\<close>

lemma exchange_passes_invalid:
  assumes "xq_SubjectToken req \<noteq> []" "xq_SubjectTokenType req \<noteq> []" "hc_NewRequest client (xc_endpoint c) = None"
    and "hc_Do client (exchange_call c req) = Inr http" "cp_StatusCode http = 200" "json_decode codec (cp_Body http) = Some (JObj [])"
  shows "\<exists>resp. Exchange codec client c req = Inr resp \<and> Exchange_Validate resp \<noteq> None"
  using assms by (simp add: Exchange_def decode_into_def Exchange_Validate_def empty_exchange_response_def)

lemma Exchange_Validate_None: "Exchange_Validate r = None \<longleftrightarrow> xp_AccessToken r \<noteq> [] \<and> xp_IssuedTokenType r \<noteq> [] \<and> xp_TokenType r \<noteq> []"
  by (simp add: Exchange_Validate_def)

subsection \<open>Witnesses\<close>

definition wit_exchange :: ExchangeRequest where
  "wit_exchange = \<lparr>xq_GrantType = [], xq_SubjectToken = ''a&scope=admin'', xq_SubjectTokenType = TokenTypeAccessToken, xq_ActorToken = [],
     xq_ActorTokenType = ''ignored'', xq_RequestedTokenType = [], xq_Resource = [], xq_Audience = ''api'', xq_Scope = [],
     xq_ClientID = ''c'', xq_ClientSecret = ''s''\<rparr>"

definition wit_exchange_codec :: json_codec where
  "wit_exchange_codec = \<lparr>json_parse = (\<lambda>_. None), json_decode = (\<lambda>_. Some (JObj [])), json_print = (\<lambda>_. []),
     time_parse = (\<lambda>_. None), time_print = (\<lambda>_. None)\<rparr>"

definition wit_endpoint :: http_client where
  "wit_endpoint = \<lparr>hc_NewRequest = (\<lambda>_. None), hc_Do = (\<lambda>_. Inr \<lparr>cp_StatusCode = 200, cp_Body = ''{}''\<rparr>)\<rparr>"

lemma wit_exchange_done:
  "Exchange wit_exchange_codec wit_endpoint (NewClient ''https://as/token'') wit_exchange = Inr empty_exchange_response"
  by (simp add: Exchange_def wit_exchange_def wit_endpoint_def decode_into_def wit_exchange_codec_def TokenTypeAccessToken_def)

theorem exchange_sends_request_witness:
  "\<exists>call :: client_request. cq_URL call = ''https://as/token'' \<and> map_of (ParseQuery (cq_Body call)) ''subject_token'' = Some ''a&scope=admin''
     \<and> map_of (ParseQuery (cq_Body call)) ''scope'' = None"
  using exchange_sends_request [OF wit_exchange_done] by (auto simp: wit_exchange_def NewClient_def)

theorem exchange_passes_invalid_witness:
  "\<exists>resp. Exchange wit_exchange_codec wit_endpoint (NewClient ''https://as/token'') wit_exchange = Inr resp
     \<and> Exchange_Validate resp \<noteq> None"
  by (rule exchange_passes_invalid [of _ _ _ "\<lparr>cp_StatusCode = 200, cp_Body = ''{}''\<rparr>"])
    (simp_all add: wit_exchange_def wit_endpoint_def wit_exchange_codec_def TokenTypeAccessToken_def)

end
