(* ===== verification/Go_Mux.thy ===== *)
theory Go_Mux
  imports Forms
begin

text \<open>
  Request routing of \<^verbatim>\<open>net/http\<close>: the escaped path of a URL, \<^verbatim>\<open>path.Clean\<close> on rooted paths,
  \<^verbatim>\<open>ServeMux\<close> for patterns of literal segments with or without a trailing slash, and
  \<^verbatim>\<open>StripPrefix\<close>.  A request is a \<^typ>\<open>http_request\<close>, whose path is the decoded one, with the
  \<^verbatim>\<open>RawPath\<close> of its URL beside it.
\<close>

section \<open>Escaped paths\<close>

definition path_char :: "char \<Rightarrow> bool" where
  "path_char c = (unreserved c \<or> c \<in> set ''$&+,/:;=@'')"

definition EscapePath :: "string \<Rightarrow> string" where
  "EscapePath s = concat (map (\<lambda>c. if path_char c then [c]
     else [CHR ''%'', upper_hex (byte_of c div 16), upper_hex (byte_of c mod 16)]) s)"

definition validEncoded :: "string \<Rightarrow> bool" where
  "validEncoded s = list_all (\<lambda>c. c \<in> set ''!$&()*+,;=:@[]%'' \<or> byte_of c = 39 \<or> path_char c) s"

definition EscapedPath :: "string \<Rightarrow> string \<Rightarrow> string" where
  "EscapedPath rawPath path =
     (if rawPath \<noteq> [] \<and> validEncoded rawPath \<and> PathUnescape rawPath = Some path then rawPath
      else if path = ''*'' then ''*'' else EscapePath path)"

lemma EscapePath_id: "list_all path_char s \<Longrightarrow> EscapePath s = s"
  by (induction s) (simp_all add: EscapePath_def)

section \<open>Clean paths\<close>

fun clean_segments :: "string list \<Rightarrow> string list \<Rightarrow> string list" where
  "clean_segments out [] = out"
| "clean_segments out (seg # segs) =
     (if seg = [] \<or> seg = ''.'' then clean_segments out segs
      else if seg = ''..'' then clean_segments (butlast out) segs
      else clean_segments (out @ [seg]) segs)"

text \<open>\<^verbatim>\<open>path.Clean\<close> of a path that starts with a slash, and \<^verbatim>\<open>cleanPath\<close> of the multiplexer.\<close>

definition path_Clean :: "string \<Rightarrow> string" where
  "path_Clean p = CHR ''/'' # Join (clean_segments [] (Split (tl p) (CHR ''/''))) ''/''"

definition cleanPath :: "string \<Rightarrow> string" where
  "cleanPath p0 =
     (if p0 = [] then ''/''
      else (let p = (if hd p0 \<noteq> CHR ''/'' then CHR ''/'' # p0 else p0); np = path_Clean p
            in if last p = CHR ''/'' \<and> np \<noteq> ''/'' then np @ ''/'' else np))"

lemma clean_segments_plain:
  "list_all (\<lambda>s. s \<notin> {[], ''.'', ''..''}) segs \<Longrightarrow> clean_segments out segs = out @ segs"
  by (induction segs arbitrary: out) auto

text \<open>A cleaned path has no empty, single dot or double dot segment.\<close>

lemma clean_segments_clean:
  "list_all (\<lambda>s. s \<notin> {[], ''.'', ''..''}) out \<Longrightarrow> list_all (\<lambda>s. s \<notin> {[], ''.'', ''..''}) (clean_segments out segs)"
proof (induction segs arbitrary: out)
  case (Cons seg segs)
  moreover have "list_all (\<lambda>s. s \<notin> {[], ''.'', ''..''}) (butlast out)"
    using Cons.prems by (auto simp: list_all_iff dest: in_set_butlastD)
  ultimately show ?case by simp
qed simp

section \<open>The multiplexer\<close>

text \<open>A pattern: its literal segments, and whether it ends in a slash and so matches everything below.\<close>

type_synonym mux_pattern = "string list \<times> bool"

definition path_segments :: "string \<Rightarrow> string list" where
  "path_segments path = map (\<lambda>seg. case PathUnescape seg of Some s \<Rightarrow> s | None \<Rightarrow> seg) (Split (tl path) (CHR ''/''))"

definition pattern_matches :: "mux_pattern \<Rightarrow> string list \<Rightarrow> bool" where
  "pattern_matches pat segs = (if snd pat then length (fst pat) < length segs \<and> take (length (fst pat)) segs = fst pat
     else segs = fst pat)"

text \<open>The most specific pattern: the one with the most segments.\<close>

fun mux_match :: "(mux_pattern \<times> 'h) list \<Rightarrow> string list \<Rightarrow> (mux_pattern \<times> 'h) option" where
  "mux_match [] segs = None"
| "mux_match (route # routes) segs =
     (if pattern_matches (fst route) segs
      then (case mux_match routes segs of
              None \<Rightarrow> Some route
            | Some other \<Rightarrow> if length (fst (fst route)) < length (fst (fst other)) then Some other else Some route)
      else mux_match routes segs)"

definition exactMatch :: "mux_pattern \<Rightarrow> string \<Rightarrow> bool" where
  "exactMatch pat path = (\<not> snd pat \<or> path \<noteq> [] \<and> last path = CHR ''/''
     \<and> Suc (length (fst pat)) = length (filter (\<lambda>c. c = CHR ''/'') path))"

datatype 'h mux_result = Route 'h | RedirectTo string string | NoRoute | BadRequest

definition route_of :: "(mux_pattern \<times> 'h) list \<Rightarrow> string \<Rightarrow> 'h mux_result" where
  "route_of routes path = (case mux_match routes (path_segments path) of Some (pat, h) \<Rightarrow> Route h | None \<Rightarrow> NoRoute)"

text \<open>\<^verbatim>\<open>matchOrRedirect\<close>: the path with a slash appended, if that is an exact match where this is not.\<close>

definition slash_redirect :: "(mux_pattern \<times> 'h) list \<Rightarrow> string \<Rightarrow> bool" where
  "slash_redirect routes path =
     (\<not> (case mux_match routes (path_segments path) of Some (pat, _) \<Rightarrow> exactMatch pat path | None \<Rightarrow> False)
      \<and> \<not> HasSuffix path ''/''
      \<and> (case mux_match routes (path_segments (path @ ''/'')) of Some (pat, _) \<Rightarrow> exactMatch pat (path @ ''/'') | None \<Rightarrow> False))"

definition ServeMux_Handler :: "(mux_pattern \<times> 'h) list \<Rightarrow> http_request \<Rightarrow> string \<Rightarrow> 'h mux_result" where
  "ServeMux_Handler routes r rawPath =
     (let escaped = EscapedPath rawPath (rq_Path r);
          redirect = RedirectTo (cleanPath (rq_Path r) @ ''/'') (rq_RawQuery r) in
      if rq_RequestURI r = ''*'' then BadRequest
      else if rq_Method r = ''CONNECT''
      then (if slash_redirect routes escaped then redirect else route_of routes escaped)
      else (let path = cleanPath escaped in
        if slash_redirect routes path then redirect
        else if path \<noteq> escaped then RedirectTo path (rq_RawQuery r)
        else route_of routes path))"

text \<open>\<^verbatim>\<open>http.StripPrefix\<close>: the stripped request, or nothing for a 404.\<close>

definition StripPrefix :: "string \<Rightarrow> http_request \<Rightarrow> string \<Rightarrow> (http_request \<times> string) option" where
  "StripPrefix prefix r rawPath =
     (let p = TrimPrefix (rq_Path r) prefix; rp = TrimPrefix rawPath prefix in
      if length p < length (rq_Path r) \<and> (rawPath = [] \<or> length rp < length rawPath)
      then Some (r\<lparr>rq_Path := p\<rparr>, rp) else None)"

section \<open>Lemmas\<close>

lemma mux_match_in: "mux_match routes segs = Some route \<Longrightarrow> route \<in> set routes \<and> pattern_matches (fst route) segs"
  by (induction routes arbitrary: route) (auto split: if_splits option.splits)

lemma mux_match_None: "mux_match routes segs = None \<longleftrightarrow> (\<forall>route \<in> set routes. \<not> pattern_matches (fst route) segs)"
  by (induction routes) (auto split: option.splits)

lemma mux_match_longest:
  "mux_match routes segs = Some route \<Longrightarrow> other \<in> set routes \<Longrightarrow> pattern_matches (fst other) segs
     \<Longrightarrow> length (fst (fst other)) \<le> length (fst (fst route))"
proof (induction routes arbitrary: route)
  case (Cons r rs)
  show ?case
  proof (cases "mux_match rs segs")
    case None
    with Cons.prems mux_match_None [of rs segs] show ?thesis by (auto split: if_splits)
  next
    case (Some m)
    with Cons show ?thesis by (fastforce split: if_splits)
  qed
qed simp

lemma Route_match:
  assumes "ServeMux_Handler routes r rawPath = Route h"
  obtains pat path where "mux_match routes (path_segments path) = Some (pat, h)" "path = EscapedPath rawPath (rq_Path r)"
    "rq_Method r \<noteq> ''CONNECT'' \<Longrightarrow> cleanPath path = path"
  using assms by (auto simp: ServeMux_Handler_def route_of_def Let_def split: if_splits option.splits)

lemma StripPrefix_Some:
  assumes "StripPrefix prefix r rawPath = Some (r', rp)"
  shows "rq_Path r = prefix @ rq_Path r'" "r' = r\<lparr>rq_Path := rq_Path r'\<rparr>" "rp = TrimPrefix rawPath prefix"
  using assms by (auto simp: StripPrefix_def Let_def TrimPrefix_def HasPrefix_iff split: if_splits)

end
