(* ===== verification/Server.thy ===== *)
theory Server
  imports Guard Go_Mux
begin

text \<open>
  The service around the guard: the admin API (\<^verbatim>\<open>internal/admin/handler.go\<close>, \<^verbatim>\<open>ui.go\<close>), the router
  (\<^verbatim>\<open>internal/server/router.go\<close>), the server configuration (\<^verbatim>\<open>server.go\<close>) and the reverse proxy's
  error path (\<^verbatim>\<open>internal/gateway/proxy.go\<close>).  The service is modelled as its callers wire it: the
  admin API and the guard get a pointer to the same policy engine, which is therefore part of the
  mutable state, and a reload is seen by the next request.  The router takes both ready-made and does not
  ensure this; with two engines a reload would not reach the guard.
\<close>

section \<open>Admin API (admin/handler.go)\<close>

record AdminConfig =
  ac_Registry :: Registry
  ac_Engine :: Engine
  ac_AdminToken :: string

datatype admin_route = Tenants | PolicySummary | PolicyReload

record AdminHandler =
  ah_registry :: Registry
  ah_adminToken :: string
  ah_mux :: "(mux_pattern \<times> admin_route) list"

definition admin_routes :: "(mux_pattern \<times> admin_route) list" where
  "admin_routes = [(([''tenants''], False), Tenants), (([''policy'', ''summary''], False), PolicySummary),
     (([''policy'', ''reload''], False), PolicyReload)]"

text \<open>The handler and the engine it operates on.\<close>

definition admin_New :: "AdminConfig \<Rightarrow> AdminHandler \<times> Engine" where
  "admin_New cfg = (\<lparr>ah_registry = ac_Registry cfg, ah_adminToken = ac_AdminToken cfg, ah_mux = admin_routes\<rparr>, ac_Engine cfg)"

definition writeJSON :: "json_codec \<Rightarrow> json \<Rightarrow> response \<Rightarrow> response" where
  "writeJSON codec v w = Write (json_print codec v @ [char_of (10::nat)]) (set_header ''Content-Type'' ''application/json'' w)"

definition checkBearer :: "AdminHandler \<Rightarrow> http_request \<Rightarrow> bool" where
  "checkBearer h r = (let auth = Header_Get (rq_Header r) ''Authorization'' in
     HasPrefix auth ''Bearer '' \<and> TrimPrefix auth ''Bearer '' = ah_adminToken h)"

definition handleTenants :: "json_codec \<Rightarrow> AdminHandler \<Rightarrow> http_request \<Rightarrow> response \<Rightarrow> response" where
  "handleTenants codec h r w =
     (if rq_Method r \<noteq> ''GET'' then http_Error ''method not allowed'' 405 w
      else (let ids = Registry_List (ah_registry h) in
            writeJSON codec (JObj [(''count'', JInt (int (length ids))), (''tenants'', JArr (map JStr ids))]) w))"

definition handlePolicySummary :: "json_codec \<Rightarrow> Engine \<Rightarrow> http_request \<Rightarrow> response \<Rightarrow> response" where
  "handlePolicySummary codec engine r w =
     (if rq_Method r \<noteq> ''GET'' then http_Error ''method not allowed'' 405 w
      else writeJSON codec (JObj [(''summary'', JStr (Summary engine))]) w)"

definition reload_member :: "string \<Rightarrow> json \<Rightarrow> string \<Rightarrow> string result" where
  "reload_member k v yaml = (if EqualFold k ''yaml'' then into_string v yaml else Inr yaml)"

definition handlePolicyReload ::
  "json_codec \<Rightarrow> (string \<Rightarrow> Config result) \<Rightarrow> Engine \<Rightarrow> http_request \<Rightarrow> response \<Rightarrow> response \<times> Engine" where
  "handlePolicyReload codec unmarshal engine r w =
     (if rq_Method r \<noteq> ''POST'' then (http_Error ''method not allowed'' 405 w, engine)
      else (case decode_into codec reload_member (rq_Body r) [] of
          Inl _ \<Rightarrow> (http_Error ''invalid JSON body'' 400 w, engine)
        | Inr yaml \<Rightarrow> (case LoadFromBytes unmarshal yaml of
            Inl err \<Rightarrow> (http_Error (''invalid policy YAML: '' @ error_text err) 400 w, engine)
          | Inr cfg \<Rightarrow>
             (let engine' = Reload engine (Some cfg) in
              (writeJSON codec (JObj [(''status'', JStr ''reloaded''), (''summary'', JStr (Summary engine'))]) w, engine')))))"

text \<open>The embedded page of \<^verbatim>\<open>ui.go\<close> is the parameter \<open>html\<close>.\<close>

definition UIHandler :: "string \<Rightarrow> response \<Rightarrow> response" where
  "UIHandler html w =
     Write html (WriteHeader 200 (set_header ''X-Content-Type-Options'' ''nosniff'' (set_header ''X-Frame-Options'' ''DENY''
       (set_header ''Content-Type'' ''text/html; charset=utf-8'' w))))"

definition http_NotFound :: "response \<Rightarrow> response" where
  "http_NotFound w = http_Error ''404 page not found'' 404 w"

text \<open>What a multiplexer does on its own: redirects (the body of a redirect is left out), 404 and 400.\<close>

definition http_Redirect :: "string \<Rightarrow> string \<Rightarrow> response \<Rightarrow> response" where
  "http_Redirect path query w = WriteHeader 301 (set_header ''Location'' (EscapePath path @ (if query = [] then [] else CHR ''?'' # query)) w)"

definition mux_answer :: "'h mux_result \<Rightarrow> response \<Rightarrow> response" where
  "mux_answer res w = (case res of RedirectTo path query \<Rightarrow> http_Redirect path query w
     | BadRequest \<Rightarrow> WriteHeader 400 (set_header ''Connection'' ''close'' w) | _ \<Rightarrow> http_NotFound w)"

definition admin_ServeHTTP ::
  "json_codec \<Rightarrow> (string \<Rightarrow> Config result) \<Rightarrow> string \<Rightarrow> AdminHandler \<Rightarrow> http_request \<Rightarrow> string \<Rightarrow> response \<Rightarrow> Engine
     \<Rightarrow> response \<times> Engine" where
  "admin_ServeHTTP codec unmarshal html h r rawPath w engine =
     (if rq_Path r = ''/ui'' \<or> rq_Path r = ''/ui/'' then (UIHandler html w, engine)
      else if ah_adminToken h \<noteq> [] \<and> \<not> checkBearer h r
      then (http_Error (CHR ''{'' # CHR 0x22 # ''error'' @ CHR 0x22 # CHR '':'' # CHR 0x22 # ''unauthorized'' @ CHR 0x22 # ''}'') 401
              (set_header ''WWW-Authenticate'' (''Bearer realm='' @ CHR 0x22 # ''IAM Admin'' @ [CHR 0x22]) w), engine)
      else (case ServeMux_Handler (ah_mux h) r rawPath of
          Route Tenants \<Rightarrow> (handleTenants codec h r w, engine)
        | Route PolicySummary \<Rightarrow> (handlePolicySummary codec engine r w, engine)
        | Route PolicyReload \<Rightarrow> handlePolicyReload codec unmarshal engine r w
        | other \<Rightarrow> (mux_answer other w, engine)))"

section \<open>The reverse proxy (gateway/proxy.go)\<close>

text \<open>The proxy is its target; what it does to a request is the library's business, and \<open>parse\<close> is
  \<^verbatim>\<open>url.Parse\<close>.\<close>

record 'u ReverseProxy =
  px_target :: 'u

definition NewReverseProxy :: "(string \<Rightarrow> 'u result) \<Rightarrow> string \<Rightarrow> 'u ReverseProxy result" where
  "NewReverseProxy parse upstreamURL = (case parse upstreamURL of
       Inl e \<Rightarrow> Inl (Wrapf (''parsing upstream URL '' @ Quote upstreamURL @ '': '') e)
     | Inr target \<Rightarrow> Inr \<lparr>px_target = target\<rparr>)"

definition proxy_ErrorHandler :: "error \<Rightarrow> response \<Rightarrow> response" where
  "proxy_ErrorHandler err w = http_Error (''upstream error: '' @ error_text err) 502 w"

section \<open>The router (server/router.go)\<close>

datatype service_route = Metrics | Health | AdminAPI | RevocationWebhook | Gateway

definition service_routes :: "bool \<Rightarrow> (mux_pattern \<times> service_route) list" where
  "service_routes hasAdmin =
     [(([''metrics''], False), Metrics), (([''health''], False), Health)]
     @ (if hasAdmin then [(([''admin''], True), AdminAPI)] else [])
     @ [(([''webhook'', ''revoke''], False), RevocationWebhook), (([], True), Gateway)]"

record RouterConfig =
  rc_Gateway :: Guard
  rc_AdminHandler :: "AdminHandler option"

definition health_response :: "response \<Rightarrow> response" where
  "health_response w =
     Write (CHR ''{'' # CHR 0x22 # ''status'' @ CHR 0x22 # CHR '':'' # CHR 0x22 # ''ok'' @ CHR 0x22 # ''}'') (WriteHeader 200 w)"

text \<open>What one call of the service depends on beside its request: the environment of the guard, the
  YAML reader, the page of the admin UI, and the body as the webhook reads it.\<close>

record service =
  sv_env :: environment
  sv_unmarshal :: "string \<Rightarrow> Config result"
  sv_html :: string

record 's service_state =
  st_engine :: Engine
  st_guard :: "'s guard_state"

text \<open>Metrics are rendered by a third-party handler.\<close>

datatype service_outcome = Response response | MetricsPage | ToUpstream http_request string response | Crash

definition guard_outcome :: "outcome \<Rightarrow> service_outcome" where
  "guard_outcome out = (case out of Answered w \<Rightarrow> Response w | Forwarded r t w \<Rightarrow> ToUpstream r t w | Panicked \<Rightarrow> Crash)"

text \<open>The guard as it is during a call: with the engine as it was last reloaded, since the guard, if it has
  an engine at all, has the one of the admin API.\<close>

definition current_guard :: "RouterConfig \<Rightarrow> 's service_state \<Rightarrow> Guard" where
  "current_guard cfg st = (rc_Gateway cfg)\<lparr>g_policyEngine := map_option (\<lambda>_. st_engine st) (g_policyEngine (rc_Gateway cfg))\<rparr>"

definition NewRouter ::
  "service \<Rightarrow> 's cache_ops \<Rightarrow> RouterConfig \<Rightarrow> call \<Rightarrow> http_request \<Rightarrow> string \<Rightarrow> string result \<Rightarrow> response \<Rightarrow> 's service_state
     \<Rightarrow> service_outcome \<times> 's service_state" where
  "NewRouter sv c cfg ca r rawPath read w st =
     (case ServeMux_Handler (service_routes (rc_AdminHandler cfg \<noteq> None)) r rawPath of
        Route Metrics \<Rightarrow> (MetricsPage, st)
      | Route Health \<Rightarrow> (Response (health_response w), st)
      | Route AdminAPI \<Rightarrow> (case rc_AdminHandler cfg of
            None \<Rightarrow> (Response (http_NotFound w), st)
          | Some h \<Rightarrow> (case StripPrefix ''/admin'' r rawPath of
                None \<Rightarrow> (Response (http_NotFound w), st)
              | Some (r', rp) \<Rightarrow>
                  (case admin_ServeHTTP (en_codec (sv_env sv)) (sv_unmarshal sv) (sv_html sv) h r' rp w (st_engine st) of
                     (w', engine') \<Rightarrow> (Response w', st\<lparr>st_engine := engine'\<rparr>))))
      | Route RevocationWebhook \<Rightarrow>
          (case Guard_RevocationHandler (sv_env sv) c (current_guard cfg st) ca r read w (st_guard st) of
             (w', gs) \<Rightarrow> (Response w', st\<lparr>st_guard := gs\<rparr>))
      | Route Gateway \<Rightarrow>
          (case Guard_ServeHTTP (sv_env sv) c (current_guard cfg st) ca r w (st_guard st) of
             (out, gs) \<Rightarrow> (guard_outcome out, st\<lparr>st_guard := gs\<rparr>))
      | other \<Rightarrow> (Response (mux_answer other w), st))"

section \<open>The server (server/server.go)\<close>

record ServerConfig =
  sc_Addr :: string
  sc_ReadTimeout :: duration
  sc_WriteTimeout :: duration
  sc_IdleTimeout :: duration

definition server_DefaultConfig :: ServerConfig where
  "server_DefaultConfig = \<lparr>sc_Addr = '':8080'', sc_ReadTimeout = 15 * Second, sc_WriteTimeout = 30 * Second,
     sc_IdleTimeout = 60 * Second\<rparr>"

text \<open>\<^verbatim>\<open>http.Server\<close> with the fields the source sets, and the outcome of its two blocking calls.\<close>

record 'h http_Server =
  hs_Addr :: string
  hs_Handler :: 'h
  hs_ReadTimeout :: duration
  hs_WriteTimeout :: duration
  hs_IdleTimeout :: duration

record 'h server_library =
  sl_ListenAndServe :: "'h http_Server \<Rightarrow> error"
  sl_Shutdown :: "'h http_Server \<Rightarrow> error option"

record 'h HttpServer =
  sv_httpSrv :: "'h http_Server"
  sv_addr :: string

definition server_New :: "'h \<Rightarrow> ServerConfig \<Rightarrow> 'h HttpServer" where
  "server_New handler cfg =
     \<lparr>sv_httpSrv = \<lparr>hs_Addr = sc_Addr cfg, hs_Handler = handler, hs_ReadTimeout = sc_ReadTimeout cfg,
        hs_WriteTimeout = sc_WriteTimeout cfg, hs_IdleTimeout = sc_IdleTimeout cfg\<rparr>,
      sv_addr = sc_Addr cfg\<rparr>"

text \<open>The line that is printed, and the error that ends the server.\<close>

definition server_Start :: "'h server_library \<Rightarrow> 'h HttpServer \<Rightarrow> string \<times> error" where
  "server_Start lib s = (''IAM service listening on '' @ sv_addr s @ [CHR 0x0A], sl_ListenAndServe lib (sv_httpSrv s))"

definition server_Shutdown :: "'h server_library \<Rightarrow> 'h HttpServer \<Rightarrow> error option" where
  "server_Shutdown lib s = sl_Shutdown lib (sv_httpSrv s)"

section \<open>Lemmas\<close>

lemma cut_prefix: "HasPrefix a p \<and> TrimPrefix a p = t \<longleftrightarrow> a = p @ t"
  by (auto simp: HasPrefix_iff)

lemma checkBearer_iff: "checkBearer h r \<longleftrightarrow> Header_Get (rq_Header r) ''Authorization'' = ''Bearer '' @ ah_adminToken h"
  unfolding checkBearer_def Let_def by (rule cut_prefix)

lemma handlePolicyReload_changes:
  assumes "handlePolicyReload codec unmarshal engine r w = (w', engine')" "engine' \<noteq> engine"
  obtains yaml cfg where "rq_Method r = ''POST''" "decode_into codec reload_member (rq_Body r) [] = Inr yaml"
    "LoadFromBytes unmarshal yaml = Inr cfg" "engine' = Reload engine (Some cfg)"
  using assms by (auto simp: handlePolicyReload_def Let_def split: if_splits sum.splits)

lemma admin_changes:
  assumes "admin_ServeHTTP codec unmarshal html h r rawPath w engine = (w', engine')" "engine' \<noteq> engine"
  obtains "ServeMux_Handler (ah_mux h) r rawPath = Route PolicyReload"
    "handlePolicyReload codec unmarshal engine r w = (w', engine')" "ah_adminToken h \<noteq> [] \<Longrightarrow> checkBearer h r"
  using assms by (auto simp: admin_ServeHTTP_def split: if_splits mux_result.splits admin_route.splits)

lemma router_changes:
  assumes "NewRouter sv c cfg ca r rawPath read w st = (out, st')" "st_engine st' \<noteq> st_engine st"
  obtains h r' rp w' where "rc_AdminHandler cfg = Some h" "StripPrefix ''/admin'' r rawPath = Some (r', rp)"
    "admin_ServeHTTP (en_codec (sv_env sv)) (sv_unmarshal sv) (sv_html sv) h r' rp w (st_engine st) = (w', st_engine st')"
  using assms by (auto simp: NewRouter_def split: mux_result.splits service_route.splits option.splits prod.splits)

lemma router_upstream:
  assumes "NewRouter sv c cfg ca r rawPath read w st = (ToUpstream r' t w', st')"
  shows "Guard_ServeHTTP (sv_env sv) c (current_guard cfg st) ca r w (st_guard st) = (Forwarded r' t w', st_guard st')
    \<and> st_engine st' = st_engine st \<and> ServeMux_Handler (service_routes (rc_AdminHandler cfg \<noteq> None)) r rawPath = Route Gateway"
  using assms
  by (auto simp: NewRouter_def guard_outcome_def split: mux_result.splits service_route.splits option.splits prod.splits outcome.splits)

lemma current_guard_sel [simp]:
  "g_policyEngine (current_guard cfg st) = map_option (\<lambda>_. st_engine st) (g_policyEngine (rc_Gateway cfg))"
  "g_registry (current_guard cfg st) = g_registry (rc_Gateway cfg)" "g_resolver (current_guard cfg st) = g_resolver (rc_Gateway cfg)"
  by (simp_all add: current_guard_def)

lemma allowed_permits:
  "allowed_by g now m p claims \<Longrightarrow> g_policyEngine g = Some eng \<Longrightarrow>
     \<exists>pc. eng_config eng = Some pc \<and> permits pc (policy_request now m p claims)"
  by (auto simp: allowed_by_def elim!: Evaluate_allowedD split: sum.splits)

text \<open>What reaches the upstream is permitted by the configuration that is loaded.\<close>

lemma upstream_permitted:
  assumes "NewRouter sv c cfg ca r rawPath read w st = (ToUpstream r' t w', st')" "g_policyEngine (rc_Gateway cfg) \<noteq> None"
  shows "\<exists>claims pc. cc_Active claims \<and> eng_config (st_engine st) = Some pc
    \<and> permits pc (policy_request (ca_now ca) (rq_Method r) (rq_Path r) claims)
    \<and> permits pc (policy_request (ca_now ca) (rq_Method r') (rq_Path r') claims)"
proof -
  have fwd: "Guard_ServeHTTP (sv_env sv) c (current_guard cfg st) ca r w (st_guard st) = (Forwarded r' t w', st_guard st')"
    using router_upstream [OF assms(1)] by blast
  obtain provider token claims st1 where
    auth: "authenticates (sv_env sv) c (current_guard cfg st) ca r (st_guard st) t provider token claims st1"
    and pol: "serve_policy (sv_env sv) (current_guard cfg st) ca r claims t w st1 = (Forwarded r' t w', st_guard st')"
    using Guard_ForwardedD [OF fwd] by blast
  have "cc_Active claims" using auth by (auto simp: authenticates_def token_passes_def token_established_def)
  moreover have eng: "g_policyEngine (current_guard cfg st) = Some (st_engine st)" using assms(2) by auto
  ultimately show ?thesis
    using serve_policy_ForwardedD [OF pol] allowed_permits [OF _ eng] by (metis option.inject)
qed

lemma reload_path:
  "ServeMux_Handler (service_routes True) (r\<lparr>rq_Method := m, rq_Path := ''/admin/policy/reload'', rq_RequestURI := ''/admin/policy/reload''\<rparr>) []
     = Route AdminAPI"
  "ServeMux_Handler admin_routes (r\<lparr>rq_Method := m, rq_Path := ''/policy/reload'', rq_RequestURI := ''/admin/policy/reload''\<rparr>) []
     = Route PolicyReload"
proof -
  have e: "EscapedPath [] ''/admin/policy/reload'' = ''/admin/policy/reload''" "EscapedPath [] ''/policy/reload'' = ''/policy/reload''"
    by code_simp+
  have c: "cleanPath ''/admin/policy/reload'' = ''/admin/policy/reload''" "cleanPath ''/policy/reload'' = ''/policy/reload''"
    by code_simp+
  have s: "\<not> slash_redirect (service_routes True) ''/admin/policy/reload''" "\<not> slash_redirect admin_routes ''/policy/reload''"
    "route_of (service_routes True) ''/admin/policy/reload'' = Route AdminAPI" "route_of admin_routes ''/policy/reload'' = Route PolicyReload"
    by code_simp+
  show "ServeMux_Handler (service_routes True) (r\<lparr>rq_Method := m, rq_Path := ''/admin/policy/reload'', rq_RequestURI := ''/admin/policy/reload''\<rparr>) []
      = Route AdminAPI"
    "ServeMux_Handler admin_routes (r\<lparr>rq_Method := m, rq_Path := ''/policy/reload'', rq_RequestURI := ''/admin/policy/reload''\<rparr>) []
      = Route PolicyReload"
    by (simp_all add: ServeMux_Handler_def e c s Let_def)
qed

lemma reload_served:
  assumes "rc_AdminHandler cfg = Some (fst (admin_New acfg))"
    and "ac_AdminToken acfg \<noteq> [] \<longrightarrow> Header_Get (rq_Header r) ''Authorization'' = ''Bearer '' @ ac_AdminToken acfg"
    and "rq_Method r = ''POST''" "rq_Path r = ''/admin/policy/reload''" "rq_RequestURI r = ''/admin/policy/reload''"
    and "decode_into (en_codec (sv_env sv)) reload_member (rq_Body r) [] = Inr yaml"
    and "LoadFromBytes (sv_unmarshal sv) yaml = Inr pc"
  shows "NewRouter sv c cfg ca r [] read w st = (Response (writeJSON (en_codec (sv_env sv)) (JObj [(''status'', JStr ''reloaded''),
      (''summary'', JStr (Summary (Reload (st_engine st) (Some pc))))]) w), st\<lparr>st_engine := Reload (st_engine st) (Some pc)\<rparr>)"
proof -
  let ?h = "fst (admin_New acfg)" and ?r' = "r\<lparr>rq_Path := ''/policy/reload''\<rparr>"
  let ?e' = "Reload (st_engine st) (Some pc)"
  let ?w1 = "writeJSON (en_codec (sv_env sv)) (JObj [(''status'', JStr ''reloaded''), (''summary'', JStr (Summary ?e'))]) w"
  have r: "r = r\<lparr>rq_Method := ''POST'', rq_Path := ''/admin/policy/reload'', rq_RequestURI := ''/admin/policy/reload''\<rparr>"
    and r': "?r' = r\<lparr>rq_Method := ''POST'', rq_Path := ''/policy/reload'', rq_RequestURI := ''/admin/policy/reload''\<rparr>"
    using assms(3-5) by simp_all
  have route: "ServeMux_Handler (service_routes True) r [] = Route AdminAPI" "ServeMux_Handler admin_routes ?r' [] = Route PolicyReload"
    using reload_path [where r = r and m = "''POST''"] r r' by simp_all
  have strip: "StripPrefix ''/admin'' r [] = Some (?r', [])"
    using assms(4) by (simp add: StripPrefix_def TrimPrefix_def)
  have "handlePolicyReload (en_codec (sv_env sv)) (sv_unmarshal sv) (st_engine st) ?r' w = (?w1, ?e')"
    using assms(3,6,7) by (simp add: handlePolicyReload_def Let_def)
  moreover have "ah_adminToken ?h \<noteq> [] \<longrightarrow> checkBearer ?h ?r'" "ah_mux ?h = admin_routes"
    using assms(2) by (simp_all add: admin_New_def checkBearer_iff)
  ultimately have "admin_ServeHTTP (en_codec (sv_env sv)) (sv_unmarshal sv) (sv_html sv) ?h ?r' [] w (st_engine st) = (?w1, ?e')"
    using route(2) by (auto simp: admin_ServeHTTP_def)
  with assms(1) route(1) strip show ?thesis by (simp add: NewRouter_def)
qed

section \<open>Properties\<close>

text \<open>C29: the policy changes only by an authorized reload with a valid configuration.  Whatever request
  the service handles, if the engine is different afterwards then the admin API is enabled,
  the request is a POST below its prefix that presents the admin token where one is set, its
  body carries a YAML text that parses to a configuration every policy of which names a
  resource, and the engine now holds exactly that configuration.\<close>

theorem engine_changes_only_by_reload:
  assumes "NewRouter sv c cfg ca r rawPath read w st = (out, st')" "st_engine st' \<noteq> st_engine st"
  shows "\<exists>h yaml pc. rc_AdminHandler cfg = Some h \<and> rq_Method r = ''POST'' \<and> HasPrefix (rq_Path r) ''/admin''
    \<and> (ah_adminToken h \<noteq> [] \<longrightarrow> Header_Get (rq_Header r) ''Authorization'' = ''Bearer '' @ ah_adminToken h)
    \<and> decode_into (en_codec (sv_env sv)) reload_member (rq_Body r) [] = Inr yaml
    \<and> sv_unmarshal sv yaml = Inr pc \<and> (\<forall>p \<in> set (cfg_Policies pc). pol_Resources p \<noteq> [])
    \<and> eng_config (st_engine st') = Some pc"
proof -
  obtain h r' rp w' where h: "rc_AdminHandler cfg = Some h" and strip: "StripPrefix ''/admin'' r rawPath = Some (r', rp)"
    and adm: "admin_ServeHTTP (en_codec (sv_env sv)) (sv_unmarshal sv) (sv_html sv) h r' rp w (st_engine st) = (w', st_engine st')"
    using router_changes [OF assms] by blast
  obtain bearer: "ah_adminToken h \<noteq> [] \<longrightarrow> checkBearer h r'"
    and rel: "handlePolicyReload (en_codec (sv_env sv)) (sv_unmarshal sv) (st_engine st) r' w = (w', st_engine st')"
    using admin_changes [OF adm assms(2)] by blast
  obtain yaml pc where y: "rq_Method r' = ''POST''" "decode_into (en_codec (sv_env sv)) reload_member (rq_Body r') [] = Inr yaml"
    "LoadFromBytes (sv_unmarshal sv) yaml = Inr pc" "st_engine st' = Reload (st_engine st) (Some pc)"
    using handlePolicyReload_changes [OF rel assms(2)] .
  have r': "rq_Path r = ''/admin'' @ rq_Path r'" "rq_Header r' = rq_Header r" "rq_Body r' = rq_Body r" "rq_Method r' = rq_Method r"
    using StripPrefix_Some(1) [OF strip] arg_cong [OF StripPrefix_Some(2) [OF strip], of rq_Header]
      arg_cong [OF StripPrefix_Some(2) [OF strip], of rq_Body] arg_cong [OF StripPrefix_Some(2) [OF strip], of rq_Method]
    by simp_all
  have "HasPrefix (rq_Path r) ''/admin''" unfolding r'(1) by (rule HasPrefix_append)
  then show ?thesis
    using h bearer y r' LoadFromBytes_valid [of "sv_unmarshal sv" yaml pc] by (auto simp: checkBearer_iff Reload_def)
qed

text \<open>C30: a reload governs the very next request, in a service whose guard and admin API share one policy
  engine.  A POST of a valid configuration to the reload
  endpoint, with the admin token where one is set, is answered with 200, and from then on a
  request reaches the upstream only if that configuration permits it, for the request received
  and for the one forwarded.\<close>

theorem reload_takes_effect:
  assumes "rc_AdminHandler cfg = Some (fst (admin_New acfg))"
    and "ac_AdminToken acfg \<noteq> [] \<longrightarrow> Header_Get (rq_Header r) ''Authorization'' = ''Bearer '' @ ac_AdminToken acfg"
    and "rq_Method r = ''POST''" "rq_Path r = ''/admin/policy/reload''" "rq_RequestURI r = ''/admin/policy/reload''"
    and "decode_into (en_codec (sv_env sv)) reload_member (rq_Body r) [] = Inr yaml"
    and "LoadFromBytes (sv_unmarshal sv) yaml = Inr pc" "rw_Status w = None" "g_policyEngine (rc_Gateway cfg) \<noteq> None"
  shows "\<exists>w1 st1. NewRouter sv c cfg ca r [] read w st = (Response w1, st1) \<and> rw_Status w1 = Some 200
    \<and> eng_config (st_engine st1) = Some pc
    \<and> (\<forall>ca2 r2 rawPath2 read2 w2 r' t w' st2.
         NewRouter sv c cfg ca2 r2 rawPath2 read2 w2 st1 = (ToUpstream r' t w', st2) \<longrightarrow>
         (\<exists>claims. cc_Active claims \<and> permits pc (policy_request (ca_now ca2) (rq_Method r2) (rq_Path r2) claims)
            \<and> permits pc (policy_request (ca_now ca2) (rq_Method r') (rq_Path r') claims)))"
proof -
  let ?e' = "Reload (st_engine st) (Some pc)"
  let ?w1 = "writeJSON (en_codec (sv_env sv)) (JObj [(''status'', JStr ''reloaded''), (''summary'', JStr (Summary ?e'))]) w"
  have "NewRouter sv c cfg ca r [] read w st = (Response ?w1, st\<lparr>st_engine := ?e'\<rparr>)"
    using assms(1-7) by (rule reload_served)
  moreover have "rw_Status ?w1 = Some 200" using assms(8) by (simp add: writeJSON_def http_simps)
  moreover have "eng_config (st_engine (st\<lparr>st_engine := ?e'\<rparr>)) = Some pc" by (simp add: Reload_def)
  ultimately show ?thesis
    using upstream_permitted [OF _ assms(9), of sv c _ _ _ _ _ "st\<lparr>st_engine := ?e'\<rparr>"]
    by (intro exI [of _ ?w1] exI [of _ "st\<lparr>st_engine := ?e'\<rparr>"]) (metis option.inject)
qed

text \<open>A service with one admin token, and a reload of one configuration.\<close>

definition wit_service :: service where
  "wit_service = \<lparr>sv_env = \<lparr>en_codec = \<lparr>json_parse = (\<lambda>_. None),
         json_decode = (\<lambda>s. if s = ''B'' then Some (JObj [(''yaml'', JStr ''Y'')]) else None),
         json_print = (\<lambda>_. []), time_parse = (\<lambda>_. None), time_print = (\<lambda>_. None)\<rparr>,
       en_crypto = wit_crypto, en_urlString = (\<lambda>_. []), en_rnd = (\<lambda>x. x)\<rparr>,
     sv_unmarshal = (\<lambda>y. if y = ''Y'' then Inr wit_config else Inl (Errorf ''yaml'')), sv_html = []\<rparr>"

definition wit_admin :: AdminConfig where
  "wit_admin = \<lparr>ac_Registry = NewRegistry, ac_Engine = Engine_New None, ac_AdminToken = ''adm''\<rparr>"

definition wit_router :: RouterConfig where
  "wit_router = \<lparr>rc_Gateway = \<lparr>g_registry = NewRegistry, g_resolver = StaticResolver ''acme'', g_policyEngine = Some (Engine_New None),
       g_realm = ''shop'', g_sm = NewStateMachine, g_cache = False, g_enableDPoP = False, g_dpopCfg = DefaultDPoPConfig,
       g_dpopNonce = None, g_webhookSecret = [], g_cookieSecret = [], g_fapiCfg = None\<rparr>,
     rc_AdminHandler = Some (fst (admin_New wit_admin))\<rparr>"

definition wit_reload :: http_request where
  "wit_reload = \<lparr>rq_Method = ''POST'', rq_Path = ''/admin/policy/reload'', rq_RawQuery = [], rq_RequestURI = ''/admin/policy/reload'',
     rq_Host = ''h'', rq_RemoteAddr = [], rq_TLS = True, rq_PeerCertificates = 0,
     rq_Header = [(''Authorization'', [''Bearer adm''])], rq_Body = ''B''\<rparr>"

definition wit_service_state :: "MemoryCache service_state" where
  "wit_service_state = \<lparr>st_engine = Engine_New None, st_guard = \<lparr>gs_cache = NewMemoryCache, gs_replay = NewMemoryCache,
     gs_limiter = None, gs_audit = None, gs_metrics = None\<rparr>\<rparr>"

definition wit_service_call :: call where
  "wit_service_call = \<lparr>ca_now = 0, ca_entropy = [], ca_trace = []\<rparr>"

lemma wit_reload_premises:
  "rc_AdminHandler wit_router = Some (fst (admin_New wit_admin))"
  "ac_AdminToken wit_admin \<noteq> [] \<longrightarrow> Header_Get (rq_Header wit_reload) ''Authorization'' = ''Bearer '' @ ac_AdminToken wit_admin"
  "rq_Method wit_reload = ''POST''" "rq_Path wit_reload = ''/admin/policy/reload''" "rq_RequestURI wit_reload = ''/admin/policy/reload''"
  "decode_into (en_codec (sv_env wit_service)) reload_member (rq_Body wit_reload) [] = Inr ''Y''"
  "LoadFromBytes (sv_unmarshal wit_service) ''Y'' = Inr wit_config"
  "g_policyEngine (rc_Gateway wit_router) \<noteq> None"
proof -
  have "\<forall>p \<in> set (cfg_Policies wit_config). pol_Resources p \<noteq> []" by (simp add: wit_config_def wit_policy_def)
  then show "LoadFromBytes (sv_unmarshal wit_service) ''Y'' = Inr wit_config"
    by (simp add: LoadFromBytes_valid wit_service_def)
qed (simp_all add: wit_router_def wit_admin_def wit_reload_def Header_Get_def header_key_simps decode_into_def wit_service_def
    reload_member_def fold_simps)

lemma wit_reload_served:
  "\<exists>w1 st1. NewRouter wit_service memory_ops wit_router wit_service_call wit_reload [] (Inr []) new_response wit_service_state
     = (Response w1, st1) \<and> st_engine st1 \<noteq> st_engine wit_service_state"
  using reload_served [OF wit_reload_premises(1-7), of memory_ops wit_service_call "Inr []" new_response wit_service_state]
  by (simp add: Reload_def wit_service_state_def Engine_New_def)

theorem engine_changes_only_by_reload_witness:
  "\<exists>h :: AdminHandler. rc_AdminHandler wit_router = Some h
     \<and> Header_Get (rq_Header wit_reload) ''Authorization'' = ''Bearer '' @ ah_adminToken h"
proof -
  obtain w1 st1 where n: "NewRouter wit_service memory_ops wit_router wit_service_call wit_reload [] (Inr []) new_response wit_service_state
     = (Response w1, st1)" and ch: "st_engine st1 \<noteq> st_engine wit_service_state" using wit_reload_served by blast
  have "ah_adminToken (fst (admin_New wit_admin)) \<noteq> []" by (simp add: admin_New_def wit_admin_def)
  with engine_changes_only_by_reload [OF n ch] wit_reload_premises(1) show ?thesis by auto
qed

theorem reload_takes_effect_witness:
  "\<exists>w1 st1. NewRouter wit_service memory_ops wit_router wit_service_call wit_reload [] (Inr []) new_response wit_service_state
     = (Response w1, st1) \<and> rw_Status w1 = Some 200 \<and> eng_config (st_engine st1) = Some wit_config"
  using reload_takes_effect [OF wit_reload_premises(1-7) _ wit_reload_premises(8), of new_response memory_ops wit_service_call
      "Inr []" wit_service_state] by (fastforce simp: new_response_def)

text \<open>A reload whose JSON has no \<^verbatim>\<open>yaml\<close> member loads the empty text, which the YAML reader accepts as the
  empty configuration: the answer is 200 and nothing is permitted any more.\<close>

lemma empty_reload_denies_all:
  assumes "rq_Method r = ''POST''" "json_decode codec (rq_Body r) = Some (JObj [])" "unmarshal [] = Inr pc" "cfg_Policies pc = []"
  shows "\<exists>w'. handlePolicyReload codec unmarshal engine r w = (w', Reload engine (Some pc))" "\<not> permits pc req"
proof -
  have "LoadFromBytes unmarshal [] = Inr pc" using assms(3,4) LoadFromBytes_valid [of unmarshal "[]" pc] by simp
  then show "\<exists>w'. handlePolicyReload codec unmarshal engine r w = (w', Reload engine (Some pc))"
    using assms(1,2) by (simp add: handlePolicyReload_def decode_into_def Let_def)
  show "\<not> permits pc req" using assms(4) by (simp add: permits_def governing_def)
qed

text \<open>Encoded dot segments survive routing: the multiplexer cleans the escaped path, and the policy then
  sees the decoded one, which a double star pattern of another area matches.\<close>

lemma encoded_dots_reach_the_guard:
  assumes "rq_Method r \<noteq> ''CONNECT''" "rq_Path r = ''/public/../api/pay''" "rq_RequestURI r \<noteq> ''*''"
  shows "ServeMux_Handler (service_routes True) r ''/public/%2e%2e/api/pay'' = Route Gateway"
    "MatchResource ''/public/**'' (rq_Path r)"
proof -
  have "EscapedPath ''/public/%2e%2e/api/pay'' ''/public/../api/pay'' = ''/public/%2e%2e/api/pay''"
    "cleanPath ''/public/%2e%2e/api/pay'' = ''/public/%2e%2e/api/pay''"
    "\<not> slash_redirect (service_routes True) ''/public/%2e%2e/api/pay''"
    "route_of (service_routes True) ''/public/%2e%2e/api/pay'' = Route Gateway" by code_simp+
  then show "ServeMux_Handler (service_routes True) r ''/public/%2e%2e/api/pay'' = Route Gateway"
    using assms by (simp add: ServeMux_Handler_def Let_def)
  have "MatchResource ''/public/**'' ''/public/../api/pay''" by code_simp
  then show "MatchResource ''/public/**'' (rq_Path r)" using assms(2) by simp
qed

end
