(* ===== verification/Redis_Cache.thy ===== *)
theory Redis_Cache
  imports Guard
begin

text \<open>
  The distributed cache: \<^verbatim>\<open>RedisCache\<close> of \<^verbatim>\<open>pkg/core/token/cache.go\<close> over the \<^verbatim>\<open>RedisClient\<close> interface,
  and the go-redis adapter (\<^verbatim>\<open>pkg/core/token/goredis/adapter.go\<close>).  Claims are stored as JSON, so
  the theory has the JSON form of \<^verbatim>\<open>CommonClaims\<close>, and shows that a decision made on claims read
  back from Redis is the decision made on the claims that were stored.  The go-redis client is a
  parameter; the predicate \<open>redis_contract\<close> is what is relied on, with a grain for the
  resolution of its expiry times.
\<close>

section \<open>The JSON form of claims (claims.go)\<close>

text \<open>\<^verbatim>\<open>json.Marshal\<close> of an interface value; the keys of a map are sorted.\<close>

fun gval_json :: "gval \<Rightarrow> json" where
  "gval_json GNil = JNull"
| "gval_json (GBool b) = JBool b"
| "gval_json (GString s) = JStr s"
| "gval_json (GFloat i) = JInt i"
| "gval_json (GFrac s) = JNum s"
| "gval_json (GInt64 i) = JInt i"
| "gval_json (GInt i) = JInt i"
| "gval_json (GStrings ss) = JArr (map JStr ss)"
| "gval_json (GSlice vs) = JArr (map gval_json vs)"
| "gval_json (GMap kvs) = JObj (sort_key fst (AList.clearjunk (map (\<lambda>kv. (fst kv, gval_json (snd kv))) kvs)))"

text \<open>A nil slice is \<^verbatim>\<open>null\<close>; nil and empty slices are not distinguished.\<close>

definition strings_json :: "string list \<Rightarrow> json" where
  "strings_json ss = (if ss = [] then JNull else JArr (map JStr ss))"

definition extra_json :: "(string \<times> gval) list option \<Rightarrow> json" where
  "extra_json extra = (case extra of None \<Rightarrow> JNull | Some m \<Rightarrow> gval_json (GMap m))"

definition confirmation_json :: "Confirmation \<Rightarrow> json" where
  "confirmation_json cnf = JObj (if cnf_JKT cnf = [] then [] else [(''jkt'', JStr (cnf_JKT cnf))])"

definition claims_json :: "string \<Rightarrow> string \<Rightarrow> string \<Rightarrow> CommonClaims \<Rightarrow> json" where
  "claims_json expires issued authTime c = JObj
     ([(''sub'', JStr (cc_Subject c)), (''iss'', JStr (cc_Issuer c)), (''aud'', strings_json (cc_Audience c)),
       (''jti'', JStr (cc_JTI c)), (''ExpiresAt'', JStr expires), (''IssuedAt'', JStr issued)]
      @ (case cc_Confirmation c of None \<Rightarrow> [] | Some cnf \<Rightarrow> [(''cnf'', confirmation_json cnf)])
      @ [(''acr'', JStr (cc_ACR c)), (''amr'', strings_json (cc_AMR c)), (''sid'', JStr (cc_SessionID c)),
         (''auth_time'', JStr authTime), (''email'', JStr (cc_Email c)), (''preferred_username'', JStr (cc_Username c)),
         (''Roles'', strings_json (cc_Roles c)), (''Scopes'', strings_json (cc_Scopes c)), (''tenant_id'', JStr (cc_TenantID c))]
      @ (if cc_AuthorizationDetails c = [] then []
         else [(''authorization_details'', JArr (map AuthorizationDetail_MarshalJSON (cc_AuthorizationDetails c)))])
      @ [(''Extra'', extra_json (cc_Extra c)), (''Active'', JBool (cc_Active c))])"

definition claims_marshal :: "json_codec \<Rightarrow> CommonClaims \<Rightarrow> string result" where
  "claims_marshal codec c =
     (case (time_print codec (cc_ExpiresAt c), time_print codec (cc_IssuedAt c), time_print codec (cc_AuthTime c)) of
        (Some e, Some i, Some a) \<Rightarrow> Inr (json_print codec (claims_json e i a c))
      | _ \<Rightarrow> Inl (Errorf ''json: error calling MarshalJSON for type time.Time''))"

fun into_extra :: "json \<Rightarrow> (string \<times> gval) list option \<Rightarrow> (string \<times> gval) list option result" where
  "into_extra (JObj kvs) old = Inr (Some (rev (map (\<lambda>kv. (fst kv, json_to_gval (snd kv))) kvs)
     @ (case old of None \<Rightarrow> [] | Some m \<Rightarrow> m)))"
| "into_extra JNull old = Inr None"
| "into_extra _ old = Inl json_type_error"

definition claims_member :: "json_codec \<Rightarrow> string \<Rightarrow> json \<Rightarrow> CommonClaims \<Rightarrow> CommonClaims result" where
  "claims_member codec k v c =
     (if EqualFold k ''sub'' then store (into_string v (cc_Subject c)) (\<lambda>x. c\<lparr>cc_Subject := x\<rparr>)
      else if EqualFold k ''iss'' then store (into_string v (cc_Issuer c)) (\<lambda>x. c\<lparr>cc_Issuer := x\<rparr>)
      else if EqualFold k ''aud'' then store (into_strings v) (\<lambda>x. c\<lparr>cc_Audience := x\<rparr>)
      else if EqualFold k ''jti'' then store (into_string v (cc_JTI c)) (\<lambda>x. c\<lparr>cc_JTI := x\<rparr>)
      else if EqualFold k ''ExpiresAt'' then store (into_time codec v (cc_ExpiresAt c)) (\<lambda>x. c\<lparr>cc_ExpiresAt := x\<rparr>)
      else if EqualFold k ''IssuedAt'' then store (into_time codec v (cc_IssuedAt c)) (\<lambda>x. c\<lparr>cc_IssuedAt := x\<rparr>)
      else if EqualFold k ''cnf'' then store (into_confirmation v (cc_Confirmation c)) (\<lambda>x. c\<lparr>cc_Confirmation := x\<rparr>)
      else if EqualFold k ''acr'' then store (into_string v (cc_ACR c)) (\<lambda>x. c\<lparr>cc_ACR := x\<rparr>)
      else if EqualFold k ''amr'' then store (into_strings v) (\<lambda>x. c\<lparr>cc_AMR := x\<rparr>)
      else if EqualFold k ''sid'' then store (into_string v (cc_SessionID c)) (\<lambda>x. c\<lparr>cc_SessionID := x\<rparr>)
      else if EqualFold k ''auth_time'' then store (into_time codec v (cc_AuthTime c)) (\<lambda>x. c\<lparr>cc_AuthTime := x\<rparr>)
      else if EqualFold k ''email'' then store (into_string v (cc_Email c)) (\<lambda>x. c\<lparr>cc_Email := x\<rparr>)
      else if EqualFold k ''preferred_username'' then store (into_string v (cc_Username c)) (\<lambda>x. c\<lparr>cc_Username := x\<rparr>)
      else if EqualFold k ''Roles'' then store (into_strings v) (\<lambda>x. c\<lparr>cc_Roles := x\<rparr>)
      else if EqualFold k ''Scopes'' then store (into_strings v) (\<lambda>x. c\<lparr>cc_Scopes := x\<rparr>)
      else if EqualFold k ''tenant_id'' then store (into_string v (cc_TenantID c)) (\<lambda>x. c\<lparr>cc_TenantID := x\<rparr>)
      else if EqualFold k ''authorization_details''
           then store (into_details v) (\<lambda>x. c\<lparr>cc_AuthorizationDetails := x\<rparr>)
      else if EqualFold k ''Extra'' then store (into_extra v (cc_Extra c)) (\<lambda>x. c\<lparr>cc_Extra := x\<rparr>)
      else if EqualFold k ''Active'' then store (into_bool v (cc_Active c)) (\<lambda>x. c\<lparr>cc_Active := x\<rparr>)
      else Inr c)"

section \<open>The cache (cache.go)\<close>

record 's RedisClient =
  rd_Get :: "time \<Rightarrow> 's \<Rightarrow> string \<Rightarrow> string result"
  rd_Set :: "time \<Rightarrow> 's \<Rightarrow> string \<Rightarrow> string \<Rightarrow> duration \<Rightarrow> error option \<times> 's"
  rd_Del :: "'s \<Rightarrow> string list \<Rightarrow> error option \<times> 's"
  rd_FlushDB :: "'s \<Rightarrow> error option \<times> 's"

record 's RedisCache =
  rc_client :: "'s RedisClient"
  rc_keyPrefix :: string

definition NewRedisCache :: "'s RedisClient \<Rightarrow> string \<Rightarrow> 's RedisCache" where
  "NewRedisCache client keyPrefix =
     \<lparr>rc_client = client, rc_keyPrefix = (if keyPrefix = [] then ''iam:token:'' else keyPrefix)\<rparr>"

definition RedisCache_Get :: "json_codec \<Rightarrow> 's RedisCache \<Rightarrow> time \<Rightarrow> 's \<Rightarrow> string \<Rightarrow> CommonClaims option" where
  "RedisCache_Get codec r now s key = (case rd_Get (rc_client r) now s (rc_keyPrefix r @ key) of
       Inl _ \<Rightarrow> None
     | Inr val \<Rightarrow>
        if val = [] then None
        else (case unmarshal_into codec (claims_member codec) val empty_claims of Inl _ \<Rightarrow> None | Inr claims \<Rightarrow> Some claims))"

definition RedisCache_Set ::
  "json_codec \<Rightarrow> 's RedisCache \<Rightarrow> time \<Rightarrow> 's \<Rightarrow> string \<Rightarrow> CommonClaims \<Rightarrow> duration \<Rightarrow> error option \<times> 's" where
  "RedisCache_Set codec r now s key claims ttl = (case claims_marshal codec claims of
       Inl e \<Rightarrow> (Some (Wrapf ''marshaling claims: '' e), s)
     | Inr b \<Rightarrow> rd_Set (rc_client r) now s (rc_keyPrefix r @ key) b ttl)"

definition RedisCache_Delete :: "'s RedisCache \<Rightarrow> 's \<Rightarrow> string \<Rightarrow> error option \<times> 's" where
  "RedisCache_Delete r s key = rd_Del (rc_client r) s [rc_keyPrefix r @ key]"

definition RedisCache_Flush :: "'s RedisCache \<Rightarrow> 's \<Rightarrow> error option \<times> 's" where
  "RedisCache_Flush r s = rd_FlushDB (rc_client r) s"

definition redis_ops :: "json_codec \<Rightarrow> 's RedisCache \<Rightarrow> 's cache_ops" where
  "redis_ops codec r = \<lparr>co_Get = RedisCache_Get codec r, co_Set = RedisCache_Set codec r,
     co_Delete = RedisCache_Delete r, co_Flush = RedisCache_Flush r\<rparr>"

section \<open>The go-redis adapter (goredis/adapter.go)\<close>

text \<open>The reply of the go-redis client to a \<^verbatim>\<open>GET\<close>: a value, the sentinel \<^verbatim>\<open>redis.Nil\<close>, or another error.\<close>

datatype redis_reply = RedisValue string | RedisNil | RedisError error

record 's go_redis =
  gr_Get :: "time \<Rightarrow> 's \<Rightarrow> string \<Rightarrow> redis_reply"
  gr_Set :: "time \<Rightarrow> 's \<Rightarrow> string \<Rightarrow> string \<Rightarrow> duration \<Rightarrow> error option \<times> 's"
  gr_Del :: "'s \<Rightarrow> string list \<Rightarrow> error option \<times> 's"
  gr_FlushDB :: "'s \<Rightarrow> error option \<times> 's"

definition Adapter_Get :: "'s go_redis \<Rightarrow> time \<Rightarrow> 's \<Rightarrow> string \<Rightarrow> string result" where
  "Adapter_Get client now s key = (case gr_Get client now s key of
     RedisNil \<Rightarrow> Inr [] | RedisValue val \<Rightarrow> Inr val | RedisError err \<Rightarrow> Inl err)"

definition Adapter_Set :: "'s go_redis \<Rightarrow> time \<Rightarrow> 's \<Rightarrow> string \<Rightarrow> string \<Rightarrow> duration \<Rightarrow> error option \<times> 's" where
  "Adapter_Set client now s key value ttl = gr_Set client now s key value ttl"

definition Adapter_Del :: "'s go_redis \<Rightarrow> 's \<Rightarrow> string list \<Rightarrow> error option \<times> 's" where
  "Adapter_Del client s keys = gr_Del client s keys"

definition Adapter_FlushDB :: "'s go_redis \<Rightarrow> 's \<Rightarrow> error option \<times> 's" where
  "Adapter_FlushDB client s = gr_FlushDB client s"

definition goredis_New :: "'s go_redis \<Rightarrow> 's RedisClient" where
  "goredis_New client = \<lparr>rd_Get = Adapter_Get client, rd_Set = Adapter_Set client, rd_Del = Adapter_Del client,
     rd_FlushDB = Adapter_FlushDB client\<rparr>"

section \<open>What is relied on\<close>

text \<open>The documented effect of the commands, when they succeed: a value set with a positive life time is
  there up to the grain before it ends and gone the grain after it; other keys are untouched.\<close>

definition redis_contract :: "duration \<Rightarrow> 's go_redis \<Rightarrow> bool" where
  "redis_contract grain gr \<longleftrightarrow>
     (\<forall>now s k v ttl s' t. gr_Set gr now s k v ttl = (None, s') \<and> 0 < ttl \<longrightarrow>
        (t + grain \<le> now + ttl \<longrightarrow> gr_Get gr t s' k = RedisValue v) \<and> (now + ttl + grain < t \<longrightarrow> gr_Get gr t s' k = RedisNil))
   \<and> (\<forall>now s k v ttl s' t k'. gr_Set gr now s k v ttl = (None, s') \<and> k' \<noteq> k \<longrightarrow> gr_Get gr t s' k' = gr_Get gr t s k')
   \<and> (\<forall>s ks s' t k. gr_Del gr s ks = (None, s') \<longrightarrow> gr_Get gr t s' k = (if k \<in> set ks then RedisNil else gr_Get gr t s k))"

text \<open>The JSON text level keeps the claims: their object and their times come back.\<close>

definition codec_keeps_claims :: "json_codec \<Rightarrow> CommonClaims \<Rightarrow> bool" where
  "codec_keeps_claims codec c =
     (case (time_print codec (cc_ExpiresAt c), time_print codec (cc_IssuedAt c), time_print codec (cc_AuthTime c)) of
        (Some e, Some i, Some a) \<Rightarrow>
          time_parse codec e = Some (cc_ExpiresAt c) \<and> time_parse codec i = Some (cc_IssuedAt c)
        \<and> time_parse codec a = Some (cc_AuthTime c) \<and> json_print codec (claims_json e i a c) \<noteq> []
        \<and> json_parse codec (json_print codec (claims_json e i a c)) = Some (claims_json e i a c)
      | _ \<Rightarrow> False)"

text \<open>Authorization details as they are decoded: one field per name, among them the type.\<close>

definition detail_wf :: "AuthorizationDetail \<Rightarrow> bool" where
  "detail_wf d = (distinct (map fst (ad_Fields d)) \<and> map_of (ad_Fields d) ''type'' = Some (JStr (ad_Type d)))"

section \<open>Round trip\<close>

definition norm_gval :: "gval \<Rightarrow> gval" where
  "norm_gval v = json_to_gval (gval_json v)"

definition norm_extra :: "(string \<times> gval) list \<Rightarrow> (string \<times> gval) list" where
  "norm_extra m = rev (map (\<lambda>kv. (fst kv, json_to_gval (snd kv)))
     (sort_key fst (AList.clearjunk (map (\<lambda>kv. (fst kv, gval_json (snd kv))) m))))"

lemma map_of_map_snd: "map_of (map (\<lambda>kv. (fst kv, f (snd kv))) xs) = map_option f \<circ> map_of xs"
  by (induction xs) auto

lemma norm_extra_lookup: "map_of (norm_extra m) k = map_option norm_gval (map_of m k)"
proof -
  let ?j = "AList.clearjunk (map (\<lambda>kv. (fst kv, gval_json (snd kv))) m)"
  have d: "distinct (map fst ?j)" by (simp add: distinct_clearjunk)
  then have ds: "distinct (map fst (sort_key fst ?j))" by (simp add: distinct_map)
  then have "map_of (rev (map (\<lambda>kv. (fst kv, json_to_gval (snd kv))) (sort_key fst ?j)))
      = map_of (map (\<lambda>kv. (fst kv, json_to_gval (snd kv))) (sort_key fst ?j))"
    by (intro map_of_inject_set [THEN iffD2]) (simp_all add: rev_map [symmetric] o_def)
  also have "\<dots> = map_option json_to_gval \<circ> map_of (sort_key fst ?j)"
    by (rule map_of_map_snd)
  also have "map_of (sort_key fst ?j) = map_of ?j" using d by (rule map_of_sort_key)
  also have "map_of ?j = map_option gval_json \<circ> map_of m" by (simp add: map_of_clearjunk map_of_map_snd)
  finally show ?thesis by (cases "map_of m k") (simp_all add: norm_extra_def norm_gval_def)
qed

lemma norm_gval_strings: "norm_gval v = GString s \<longleftrightarrow> v = GString s"
  by (cases v) (simp_all add: norm_gval_def)

lemma string_values_norm: "string_values (map norm_gval vs) = string_values vs"
proof (induction vs)
  case (Cons v vs)
  then show ?case by (cases v) (simp_all add: norm_gval_def)
qed simp

lemma string_values_GString: "string_values (map GString ss) = ss"
  by (induction ss) simp_all

text \<open>The claims as they are read back.\<close>

definition norm_detail :: "AuthorizationDetail \<Rightarrow> AuthorizationDetail" where
  "norm_detail d = d\<lparr>ad_Fields := json_object_map [] (sort_key fst (AList.update ''type'' (JStr (ad_Type d)) (ad_Fields d)))\<rparr>"

definition norm_claims :: "CommonClaims \<Rightarrow> CommonClaims" where
  "norm_claims c = c\<lparr>cc_Extra := map_option norm_extra (cc_Extra c),
     cc_AuthorizationDetails := map norm_detail (cc_AuthorizationDetails c)\<rparr>"

lemma norm_detail_lookup:
  assumes "detail_wf d"
  shows "map_of (ad_Fields (norm_detail d)) = map_of (ad_Fields d)" "ad_Type (norm_detail d) = ad_Type d"
proof -
  let ?m = "AList.update ''type'' (JStr (ad_Type d)) (ad_Fields d)"
  have d: "distinct (map fst ?m)" using assms by (simp add: detail_wf_def distinct_update)
  then have "distinct (map fst (sort_key fst ?m))" by (simp add: distinct_map)
  then have "map_of (ad_Fields (norm_detail d)) = map_of ?m"
    using d by (simp add: norm_detail_def json_object_map_id map_of_sort_key)
  also have "\<dots> = map_of (ad_Fields d)" using assms by (simp add: detail_wf_def map_of_update fun_upd_idem)
  finally show "map_of (ad_Fields (norm_detail d)) = map_of (ad_Fields d)" .
qed (simp add: norm_detail_def)

lemma detail_decodes:
  assumes "detail_wf d"
  shows "AuthorizationDetail_UnmarshalJSON (AuthorizationDetail_MarshalJSON d) = Inr (norm_detail d)"
proof -
  let ?m = "json_object_map [] (sort_key fst (AList.update ''type'' (JStr (ad_Type d)) (ad_Fields d)))"
  have "map_of ?m ''type'' = Some (JStr (ad_Type d))"
    using norm_detail_lookup(1) [OF assms] assms by (simp add: norm_detail_def detail_wf_def)
  then show ?thesis
    by (simp add: AuthorizationDetail_UnmarshalJSON_def AuthorizationDetail_MarshalJSON_def norm_detail_def)
qed

lemma details_decode:
  "list_all detail_wf ds \<Longrightarrow> into_list AuthorizationDetail_UnmarshalJSON (map AuthorizationDetail_MarshalJSON ds)
     = Inr (map norm_detail ds)"
  by (induction ds) (simp_all add: detail_decodes)

lemma claims_member_fields:
  "claims_member codec ''sub'' v c = store (into_string v (cc_Subject c)) (\<lambda>x. c\<lparr>cc_Subject := x\<rparr>)"
  "claims_member codec ''iss'' v c = store (into_string v (cc_Issuer c)) (\<lambda>x. c\<lparr>cc_Issuer := x\<rparr>)"
  "claims_member codec ''aud'' v c = store (into_strings v) (\<lambda>x. c\<lparr>cc_Audience := x\<rparr>)"
  "claims_member codec ''jti'' v c = store (into_string v (cc_JTI c)) (\<lambda>x. c\<lparr>cc_JTI := x\<rparr>)"
  "claims_member codec ''ExpiresAt'' v c = store (into_time codec v (cc_ExpiresAt c)) (\<lambda>x. c\<lparr>cc_ExpiresAt := x\<rparr>)"
  "claims_member codec ''IssuedAt'' v c = store (into_time codec v (cc_IssuedAt c)) (\<lambda>x. c\<lparr>cc_IssuedAt := x\<rparr>)"
  "claims_member codec ''cnf'' v c = store (into_confirmation v (cc_Confirmation c)) (\<lambda>x. c\<lparr>cc_Confirmation := x\<rparr>)"
  "claims_member codec ''acr'' v c = store (into_string v (cc_ACR c)) (\<lambda>x. c\<lparr>cc_ACR := x\<rparr>)"
  "claims_member codec ''amr'' v c = store (into_strings v) (\<lambda>x. c\<lparr>cc_AMR := x\<rparr>)"
  "claims_member codec ''sid'' v c = store (into_string v (cc_SessionID c)) (\<lambda>x. c\<lparr>cc_SessionID := x\<rparr>)"
  "claims_member codec ''auth_time'' v c = store (into_time codec v (cc_AuthTime c)) (\<lambda>x. c\<lparr>cc_AuthTime := x\<rparr>)"
  "claims_member codec ''email'' v c = store (into_string v (cc_Email c)) (\<lambda>x. c\<lparr>cc_Email := x\<rparr>)"
  "claims_member codec ''preferred_username'' v c = store (into_string v (cc_Username c)) (\<lambda>x. c\<lparr>cc_Username := x\<rparr>)"
  "claims_member codec ''Roles'' v c = store (into_strings v) (\<lambda>x. c\<lparr>cc_Roles := x\<rparr>)"
  "claims_member codec ''Scopes'' v c = store (into_strings v) (\<lambda>x. c\<lparr>cc_Scopes := x\<rparr>)"
  "claims_member codec ''tenant_id'' v c = store (into_string v (cc_TenantID c)) (\<lambda>x. c\<lparr>cc_TenantID := x\<rparr>)"
  "claims_member codec ''authorization_details'' v c = store (into_details v) (\<lambda>x. c\<lparr>cc_AuthorizationDetails := x\<rparr>)"
  "claims_member codec ''Extra'' v c = store (into_extra v (cc_Extra c)) (\<lambda>x. c\<lparr>cc_Extra := x\<rparr>)"
  "claims_member codec ''Active'' v c = store (into_bool v (cc_Active c)) (\<lambda>x. c\<lparr>cc_Active := x\<rparr>)"
  by (simp_all add: claims_member_def fold_simps)

lemma strings_json_decodes: "into_strings (strings_json ss) = Inr ss"
  by (simp add: strings_json_def)

lemma confirmation_decodes: "into_confirmation (confirmation_json cnf) None = Inr (Some cnf)"
  by (simp add: into_confirmation_def confirmation_json_def fold_simps)

lemma extra_decodes: "into_extra (extra_json extra) None = Inr (map_option norm_extra extra)"
  by (cases extra) (simp_all add: extra_json_def norm_extra_def)

lemma claims_decode:
  assumes "time_parse codec e = Some (cc_ExpiresAt c)" "time_parse codec i = Some (cc_IssuedAt c)"
    "time_parse codec a = Some (cc_AuthTime c)" "list_all detail_wf (cc_AuthorizationDetails c)"
  shows "into_struct (claims_member codec) (claims_json e i a c) empty_claims = Inr (norm_claims c)"
  using assms
  by (cases "cc_Confirmation c"; cases "cc_AuthorizationDetails c = []")
    (simp_all add: claims_json_def empty_claims_def into_members_append claims_member_fields strings_json_decodes
      confirmation_decodes extra_decodes details_decode norm_claims_def)

section \<open>Decisions\<close>

lemma norm_claims_sel [simp]:
  "cc_Active (norm_claims c) = cc_Active c" "cc_ExpiresAt (norm_claims c) = cc_ExpiresAt c" "cc_Issuer (norm_claims c) = cc_Issuer c"
  "cc_Subject (norm_claims c) = cc_Subject c" "cc_ACR (norm_claims c) = cc_ACR c" "cc_Scopes (norm_claims c) = cc_Scopes c"
  "cc_JTI (norm_claims c) = cc_JTI c" "cc_Confirmation (norm_claims c) = cc_Confirmation c" "cc_AuthTime (norm_claims c) = cc_AuthTime c"
  "cc_AMR (norm_claims c) = cc_AMR c" "cc_SessionID (norm_claims c) = cc_SessionID c"
  by (simp_all add: norm_claims_def)

lemma extraString_norm: "extraString (norm_claims c) k = extraString c k"
proof -
  have "(case map_option norm_gval v of Some (GString s) \<Rightarrow> s | _ \<Rightarrow> []) = (case v of Some (GString s) \<Rightarrow> s | _ \<Rightarrow> [])" for v
  proof (cases v)
    case (Some g)
    then show ?thesis by (cases g) (simp_all add: norm_gval_def)
  qed simp
  then show ?thesis by (cases "cc_Extra c") (simp_all add: extraString_def norm_claims_def norm_extra_lookup)
qed

lemma entry_hashes_norm: "entry_hashes (norm_claims c) = entry_hashes c"
proof (cases "cc_Extra c")
  case None
  then show ?thesis by (simp add: entry_hashes_def norm_claims_def)
next
  case (Some m)
  have "(case map_option norm_gval v of Some (GStrings v) \<Rightarrow> v | Some (GSlice v) \<Rightarrow> string_values v | _ \<Rightarrow> [])
      = (case v of Some (GStrings v) \<Rightarrow> v | Some (GSlice v) \<Rightarrow> string_values v | _ \<Rightarrow> [])" for v
  proof (cases v)
    case (Some g)
    then show ?thesis
      using string_values_norm [unfolded norm_gval_def [abs_def]] string_values_GString
      by (cases g) (simp_all add: norm_gval_def o_def)
  qed simp
  with Some show ?thesis by (simp add: entry_hashes_def norm_claims_def norm_extra_lookup)
qed

lemma Satisfies_norm: "detail_wf d \<Longrightarrow> Satisfies f (norm_detail d) = Satisfies f d"
  by (simp add: Satisfies_iff GetString_def GetStringSlice_def norm_detail_lookup)

lemma satisfied_norm: "list_all detail_wf ds \<Longrightarrow> satisfied_by_any f (map norm_detail ds) = satisfied_by_any f ds"
  by (induction ds) (simp_all add: Satisfies_norm)

lemma MatchAll_norm: "list_all detail_wf ds \<Longrightarrow> MatchAll fs (map norm_detail ds) = MatchAll fs ds"
proof (induction fs)
  case (Cons f fs)
  then show ?case by (simp only: MatchAll.simps satisfied_norm)
qed simp

lemma Evaluate_norm:
  assumes "list_all detail_wf (cc_AuthorizationDetails c)"
  shows "Evaluate eng (policy_request now m p (norm_claims c)) = Evaluate eng (policy_request now m p c)"
proof -
  let ?r = "policy_request now m p c" and ?r' = "policy_request now m p (norm_claims c)"
  have sel: "pr_Method ?r' = pr_Method ?r" "pr_Path ?r' = pr_Path ?r" "pr_TokenACR ?r' = pr_TokenACR ?r" "pr_TokenAMR ?r' = pr_TokenAMR ?r"
    "pr_TokenScopes ?r' = pr_TokenScopes ?r" "pr_AuthAge ?r' = pr_AuthAge ?r"
    "pr_AuthorizationDetails ?r' = map norm_detail (pr_AuthorizationDetails ?r)" "pr_AuthorizationDetails ?r = cc_AuthorizationDetails c"
    by (simp_all add: policy_request_def AuthAge_def) (simp add: norm_claims_def)
  have "check cfg pol ?r' = check cfg pol ?r" for cfg pol
    unfolding check_def sel(1-7) MatchAll_norm [OF assms [folded sel(8)]] ..
  moreover have "matchesPolicy pol ?r' = matchesPolicy pol ?r" for pol
    unfolding matchesPolicy_def sel(1-2) ..
  ultimately have "evaluate_policies cfg ps ?r' = evaluate_policies cfg ps ?r" for cfg ps
    by (induction ps) simp_all
  then show ?thesis by (simp only: Evaluate_def)
qed

lemma binding_error_norm: "binding_error en g ca provider proof (norm_claims c) = binding_error en g ca provider proof c"
proof -
  have "VerifyDPoPBinding codec cr pf (norm_claims c) = VerifyDPoPBinding codec cr pf c" for codec cr pf
    by (simp add: VerifyDPoPBinding_def)
  moreover have "common_view now (norm_claims c) = common_view now c" for now
    by (simp add: common_view_def HasDPoP_def HasPARRequestURI_def GetAuthAge_def GetNonce_def AuthAge_def extraString_norm)
  ultimately show ?thesis by (simp only: binding_error_def norm_claims_sel)
qed

lemma serve_policy_norm:
  assumes "list_all detail_wf (cc_AuthorizationDetails c)"
  shows "serve_policy en g ca r (norm_claims c) t w st = serve_policy en g ca r c t w st"
proof -
  have fwd: "forward (norm_claims c) t r w = forward c t r w" for r w by (simp only: forward_def identity_headers_def norm_claims_sel)
  have "completeStepUp g ca r saved (norm_claims c) t w st = completeStepUp g ca r saved c t w st" for saved and st :: "'a guard_state"
    by (simp only: completeStepUp_def Evaluate_norm [OF assms] norm_claims_sel)
  with fwd have "serve_cookie en g ca r (norm_claims c) t w st = serve_cookie en g ca r c t w st" for st :: "'a guard_state"
    by (simp only: serve_cookie_def)
  then show ?thesis by (simp only: serve_policy_def Evaluate_norm [OF assms] norm_claims_sel)
qed

lemma redis_get_set:
  assumes "redis_contract grain gr" "RedisCache_Set codec (NewRedisCache (goredis_New gr) prefix) now s key c ttl = (None, s')"
    and "codec_keeps_claims codec c" "list_all detail_wf (cc_AuthorizationDetails c)" "0 < ttl"
  shows "t + grain \<le> now + ttl \<Longrightarrow> RedisCache_Get codec (NewRedisCache (goredis_New gr) prefix) t s' key = Some (norm_claims c)"
    and "now + ttl + grain < t \<Longrightarrow> RedisCache_Get codec (NewRedisCache (goredis_New gr) prefix) t s' key = None"
proof -
  let ?R = "NewRedisCache (goredis_New gr) prefix"
  obtain e i a where times: "time_print codec (cc_ExpiresAt c) = Some e" "time_print codec (cc_IssuedAt c) = Some i"
    "time_print codec (cc_AuthTime c) = Some a" and bk: "time_parse codec e = Some (cc_ExpiresAt c)"
    "time_parse codec i = Some (cc_IssuedAt c)" "time_parse codec a = Some (cc_AuthTime c)"
    and js: "json_print codec (claims_json e i a c) \<noteq> []"
      "json_parse codec (json_print codec (claims_json e i a c)) = Some (claims_json e i a c)"
    using assms(3) by (auto simp: codec_keeps_claims_def split: option.splits prod.splits)
  let ?b = "json_print codec (claims_json e i a c)"
  have set: "gr_Set gr now s (rc_keyPrefix ?R @ key) ?b ttl = (None, s')"
    using assms(2) times by (simp add: RedisCache_Set_def claims_marshal_def NewRedisCache_def goredis_New_def Adapter_Set_def)
  have get: "rd_Get (rc_client ?R) t s' k = Adapter_Get gr t s' k" for k by (simp add: NewRedisCache_def goredis_New_def)
  have dec: "unmarshal_into codec (claims_member codec) ?b empty_claims = Inr (norm_claims c)"
    using claims_decode [OF bk assms(4)] js(2) by (simp add: unmarshal_into_def)
  show "RedisCache_Get codec ?R t s' key = Some (norm_claims c)" if "t + grain \<le> now + ttl"
  proof -
    have "gr_Get gr t s' (rc_keyPrefix ?R @ key) = RedisValue ?b"
      using assms(1,5) set that unfolding redis_contract_def by blast
    then show ?thesis using js(1) dec by (simp add: RedisCache_Get_def get Adapter_Get_def)
  qed
  show "RedisCache_Get codec ?R t s' key = None" if "now + ttl + grain < t"
  proof -
    have "gr_Get gr t s' (rc_keyPrefix ?R @ key) = RedisNil"
      using assms(1,5) set that unfolding redis_contract_def by blast
    then show ?thesis by (simp add: RedisCache_Get_def get Adapter_Get_def)
  qed
qed

section \<open>Properties\<close>

text \<open>C27: a decision does not depend on where the claims were cached.  Claims stored in Redis through the
  go-redis adapter come back until their life time ends and never after it, up to the
  resolution of Redis, and although the JSON round trip changes the dynamic types of extra claims
  and the order of fields, the guard treats them exactly as the claims that were stored: the
  same binding checks, the same policy decision with the same answer or forwarded request, the
  same audit trail, and the same secondary index.\<close>

theorem redis_decides_alike:
  assumes "redis_contract grain gr" "RedisCache_Set codec (NewRedisCache (goredis_New gr) prefix) now s key c ttl = (None, s')"
    and "codec_keeps_claims codec c" "list_all detail_wf (cc_AuthorizationDetails c)" "0 < ttl"
  shows "(t + grain \<le> now + ttl \<longrightarrow> (\<exists>c'. RedisCache_Get codec (NewRedisCache (goredis_New gr) prefix) t s' key = Some c'
        \<and> cc_Active c' = cc_Active c \<and> cc_JTI c' = cc_JTI c \<and> cc_ExpiresAt c' = cc_ExpiresAt c \<and> entry_hashes c' = entry_hashes c
        \<and> binding_error en g ca provider proof c' = binding_error en g ca provider proof c
        \<and> serve_policy en g ca r c' tenant w st = serve_policy en g ca r c tenant w st))
    \<and> (now + ttl + grain < t \<longrightarrow> RedisCache_Get codec (NewRedisCache (goredis_New gr) prefix) t s' key = None)"
  using redis_get_set [OF assms, of t]
  by (auto simp: binding_error_norm serve_policy_norm [OF assms(4)] entry_hashes_norm)

text \<open>A Redis that is a map with expiry, and a token with one authorization detail.\<close>

definition wit_redis :: "(string \<rightharpoonup> string \<times> time) go_redis" where
  "wit_redis = \<lparr>gr_Get = (\<lambda>t s k. case s k of None \<Rightarrow> RedisNil | Some (v, x) \<Rightarrow> if t \<le> x then RedisValue v else RedisNil),
     gr_Set = (\<lambda>now s k v ttl. (None, s(k \<mapsto> (v, now + ttl)))),
     gr_Del = (\<lambda>s ks. (None, \<lambda>k. if k \<in> set ks then None else s k)), gr_FlushDB = (\<lambda>s. (None, Map.empty))\<rparr>"

definition wit_redis_claims :: CommonClaims where
  "wit_redis_claims = empty_claims\<lparr>cc_Subject := ''alice'', cc_Active := True,
     cc_AuthorizationDetails := [\<lparr>ad_Type = ''payment'', ad_Fields = [(''type'', JStr ''payment''), (''id'', JStr ''7'')]\<rparr>],
     cc_Extra := Some [(''n'', GInt64 3)]\<rparr>"

definition wit_redis_codec :: json_codec where
  "wit_redis_codec = \<lparr>json_parse = (\<lambda>_. Some (claims_json ''T'' ''T'' ''T'' wit_redis_claims)), json_decode = (\<lambda>_. None),
     json_print = (\<lambda>_. ''J''), time_parse = (\<lambda>_. Some zero_time), time_print = (\<lambda>_. Some ''T'')\<rparr>"

definition wit_redis_set where
  "wit_redis_set = RedisCache_Set wit_redis_codec (NewRedisCache (goredis_New wit_redis) []) 0 Map.empty ''k'' wit_redis_claims 5"

lemma wit_redis_contract: "redis_contract 0 wit_redis"
  by (simp add: redis_contract_def wit_redis_def split: option.splits prod.splits)

theorem redis_decides_alike_witness:
  "\<exists>c' :: CommonClaims. RedisCache_Get wit_redis_codec (NewRedisCache (goredis_New wit_redis) []) 5 (snd wit_redis_set) ''k'' = Some c'
     \<and> cc_Active c' \<and> RedisCache_Get wit_redis_codec (NewRedisCache (goredis_New wit_redis) []) 6 (snd wit_redis_set) ''k'' = None"
proof -
  have set: "RedisCache_Set wit_redis_codec (NewRedisCache (goredis_New wit_redis) []) 0 Map.empty ''k'' wit_redis_claims 5
      = (None, snd wit_redis_set)"
    by (simp add: wit_redis_set_def RedisCache_Set_def claims_marshal_def wit_redis_codec_def NewRedisCache_def goredis_New_def
        Adapter_Set_def wit_redis_def)
  have keeps: "codec_keeps_claims wit_redis_codec wit_redis_claims"
    by (simp add: codec_keeps_claims_def wit_redis_codec_def wit_redis_claims_def empty_claims_def)
  have wf: "list_all detail_wf (cc_AuthorizationDetails wit_redis_claims)" by (simp add: wit_redis_claims_def detail_wf_def)
  have act: "cc_Active wit_redis_claims" by (simp add: wit_redis_claims_def)
  show ?thesis
    using redis_decides_alike [OF wit_redis_contract set keeps wf, of 5] redis_decides_alike [OF wit_redis_contract set keeps wf, of 6] act
    by force
qed

end
