(* ===== verification/Devkit.thy ===== *)
theory Devkit
  imports Jwt_Validator Policy "HOL-Library.Word"
begin

text \<open>
  The developer kit: the token factory (\<^verbatim>\<open>pkg/devkit/tokenfactory/factory.go\<close>) with its own base64
  encoder on bytes, and the policy simulator (\<^verbatim>\<open>pkg/devkit/simulator/policy.go\<close>).  Signing a JWT is
  a parameter; an RSA key is its modulus and exponent.
\<close>

unbundle bit_operations_syntax

section \<open>The token factory (tokenfactory/factory.go)\<close>

record TokenOptions =
  to_Subject :: string
  to_Issuer :: string
  to_Audience :: "string list"
  to_ExpiresIn :: duration
  to_ACR :: string
  to_AMR :: "string list"
  to_Scopes :: "string list"
  to_Roles :: "string list"
  to_TenantID :: string
  to_SessionID :: string
  to_AuthTime :: time
  to_Extra :: "(string \<times> gval) list"

record Factory =
  tf_N :: nat
  tf_E :: int
  tf_keyID :: string

text \<open>\<open>generated\<close> is the outcome of the key generation.\<close>

definition Factory_New :: "(nat \<times> int) result \<Rightarrow> Factory result" where
  "Factory_New generated = (case generated of Inl e \<Rightarrow> Inl (Wrapf ''generating RSA key: '' e)
     | Inr (n, e) \<Rightarrow> Inr \<lparr>tf_N = n, tf_E = e, tf_keyID = ''devkit-key-1''\<rparr>)"

definition NewWithKey :: "nat \<times> int \<Rightarrow> string \<Rightarrow> Factory" where
  "NewWithKey key keyID = \<lparr>tf_N = fst key, tf_E = snd key, tf_keyID = keyID\<rparr>"

text \<open>\<^verbatim>\<open>Time.Unix()\<close>: whole seconds, rounded down.\<close>

definition unix_seconds :: "time \<Rightarrow> int" where
  "unix_seconds t = t div Second"

text \<open>The loop that joins the scopes with blanks.\<close>

fun join_scopes :: "bool \<Rightarrow> string list \<Rightarrow> string" where
  "join_scopes first [] = []"
| "join_scopes first (s # ss) = (if first then [] else '' '') @ s @ join_scopes False ss"

definition with_defaults :: "time \<Rightarrow> TokenOptions \<Rightarrow> TokenOptions" where
  "with_defaults now opts =
     (let opts = (if to_ExpiresIn opts = 0 then opts\<lparr>to_ExpiresIn := 60 * Minute\<rparr> else opts);
          opts = (if to_Issuer opts = [] then opts\<lparr>to_Issuer := ''http://localhost:8080/devkit''\<rparr> else opts)
      in if IsZero (to_AuthTime opts) then opts\<lparr>to_AuthTime := now\<rparr> else opts)"

text \<open>A claim set under a condition.\<close>

definition claim_if :: "bool \<Rightarrow> string \<Rightarrow> gval \<Rightarrow> (string \<times> gval) list \<Rightarrow> (string \<times> gval) list" where
  "claim_if b k v claims = (if b then AList.update k v claims else claims)"

definition token_claims :: "time \<Rightarrow> TokenOptions \<Rightarrow> (string \<times> gval) list" where
  "token_claims now opts =
     (let claims = [(''sub'', GString (to_Subject opts)), (''iss'', GString (to_Issuer opts)), (''iat'', GInt64 (unix_seconds now)),
            (''exp'', GInt64 (unix_seconds (now + to_ExpiresIn opts))), (''auth_time'', GInt64 (unix_seconds (to_AuthTime opts))),
            (''active'', GBool True)];
          claims = claim_if (0 < length (to_Audience opts)) ''aud'' (GStrings (to_Audience opts)) claims;
          claims = claim_if (to_ACR opts \<noteq> []) ''acr'' (GString (to_ACR opts)) claims;
          claims = claim_if (0 < length (to_AMR opts)) ''amr'' (GStrings (to_AMR opts)) claims;
          claims = claim_if (0 < length (to_Scopes opts)) ''scope'' (GString (join_scopes True (to_Scopes opts))) claims;
          claims = claim_if (0 < length (to_Roles opts)) ''realm_access'' (GMap [(''roles'', GStrings (to_Roles opts))]) claims;
          claims = claim_if (to_TenantID opts \<noteq> []) ''tenant_id'' (GString (to_TenantID opts)) claims;
          claims = claim_if (to_SessionID opts \<noteq> []) ''sid'' (GString (to_SessionID opts)) claims
      in fold (\<lambda>kv cs. AList.update (fst kv) (snd kv) cs) (to_Extra opts) claims)"

lemma map_of_claim_if [simp]: "map_of (claim_if b k v claims) x = (if b \<and> x = k then Some v else map_of claims x)"
  by (simp add: claim_if_def update_conv')

text \<open>\<open>sign\<close> stands for \<^verbatim>\<open>SignedString\<close> under RS256: key, header and claims to the token.\<close>

type_synonym signer = "Factory \<Rightarrow> (string \<times> gval) list \<Rightarrow> (string \<times> gval) list \<Rightarrow> string result"

definition Generate :: "signer \<Rightarrow> Factory \<Rightarrow> time \<Rightarrow> TokenOptions \<Rightarrow> string result" where
  "Generate sign f now opts = sign f [(''alg'', GString ''RS256''), (''typ'', GString ''JWT''), (''kid'', GString (tf_keyID f))]
     (token_claims now (with_defaults now opts))"

subsection \<open>Base64 on bytes\<close>

definition base64URLChars :: string where
  "base64URLChars = ''ABCDEFGHIJKLMNOPQRSTUVWXYZabcdefghijklmnopqrstuvwxyz0123456789-_''"

definition b64_at :: "8 word \<Rightarrow> char" where
  "b64_at i = base64URLChars ! unat i"

abbreviation byte_word :: "char \<Rightarrow> 8 word" where
  "byte_word c \<equiv> word_of_nat (byte_of c)"

text \<open>The loop takes three bytes at a time; bytes beyond the end are zero.\<close>

fun encodeBase64URL :: "string \<Rightarrow> string" where
  "encodeBase64URL [] = []"
| "encodeBase64URL [c0] =
     (let b0 = byte_word c0 in [b64_at (drop_bit 2 b0), b64_at (push_bit 4 (b0 AND 3) OR drop_bit 4 0)])"
| "encodeBase64URL [c0, c1] =
     (let b0 = byte_word c0; b1 = byte_word c1 in
      [b64_at (drop_bit 2 b0), b64_at (push_bit 4 (b0 AND 3) OR drop_bit 4 b1), b64_at (push_bit 2 (b1 AND 15) OR drop_bit 6 0)])"
| "encodeBase64URL (c0 # c1 # c2 # s) =
     (let b0 = byte_word c0; b1 = byte_word c1; b2 = byte_word c2 in
      [b64_at (drop_bit 2 b0), b64_at (push_bit 4 (b0 AND 3) OR drop_bit 4 b1), b64_at (push_bit 2 (b1 AND 15) OR drop_bit 6 b2),
       b64_at (b2 AND 63)] @ encodeBase64URL s)"

subsection \<open>Keys\<close>

text \<open>\<^verbatim>\<open>big.Int.Bytes\<close>: big-endian without leading zeros.\<close>

fun nat_bytes :: "nat \<Rightarrow> string" where
  "nat_bytes n = (if n = 0 then [] else nat_bytes (n div 256) @ [char_of (n mod 256)])"

declare nat_bytes.simps [simp del]

definition exponent_bytes :: "int \<Rightarrow> string" where
  "exponent_bytes e = map (\<lambda>k. char_of (nat (e div 2 ^ k mod 256))) [24, 16, 8, 0]"

fun trim_zeros :: "string \<Rightarrow> string" where
  "trim_zeros (a # b # s) = (if byte_of a = 0 then trim_zeros (b # s) else a # b # s)"
| "trim_zeros s = s"

definition public_jwk :: "Factory \<Rightarrow> (string \<times> json) list" where
  "public_jwk f = [(''alg'', JStr ''RS256''), (''e'', JStr (encodeBase64URL (trim_zeros (exponent_bytes (tf_E f))))),
     (''kid'', JStr (tf_keyID f)), (''kty'', JStr ''RSA''), (''n'', JStr (encodeBase64URL (nat_bytes (tf_N f)))), (''use'', JStr ''sig'')]"

definition PublicKeyJSON :: "json_codec \<Rightarrow> Factory \<Rightarrow> string" where
  "PublicKeyJSON codec f = json_print codec (JObj (public_jwk f))"

definition Factory_JWKS :: "json_codec \<Rightarrow> Factory \<Rightarrow> string result" where
  "Factory_JWKS codec f =
     (let document = (\<lambda>key. json_print codec (JObj [(''keys'', JArr [key])])) in
      case json_parse codec (PublicKeyJSON codec f) of
        None \<Rightarrow> Inl json_syntax_error
      | Some (JObj kvs) \<Rightarrow> Inr (document (JObj (sort_key fst (json_object_map [] kvs))))
      | Some JNull \<Rightarrow> Inr (document JNull)
      | Some _ \<Rightarrow> Inl json_type_error)"

section \<open>The policy simulator (simulator/policy.go)\<close>

record SimRequest =
  sq_Method :: string
  sq_Path :: string
  sq_ACR :: string
  sq_AMR :: "string list"
  sq_Scopes :: "string list"
  sq_AuthAge :: duration

record SimResult =
  sx_Allowed :: bool
  sx_PolicyName :: string
  sx_Reason :: string
  sx_RequiredACR :: string
  sx_RequiredMaxAge :: int

record Simulator =
  sim_engine :: Engine

definition Simulator_New :: "Engine \<Rightarrow> Simulator" where
  "Simulator_New engine = \<lparr>sim_engine = engine\<rparr>"

definition Simulate :: "Simulator \<Rightarrow> SimRequest \<Rightarrow> SimResult result" where
  "Simulate s req =
     (case Evaluate (sim_engine s) \<lparr>pr_Method = sq_Method req, pr_Path = sq_Path req, pr_TokenACR = sq_ACR req,
             pr_TokenAMR = sq_AMR req, pr_TokenScopes = sq_Scopes req, pr_AuthAge = sq_AuthAge req,
             pr_AuthorizationDetails = []\<rparr> of
        Inl e \<Rightarrow> Inl (Wrapf ''policy evaluation: '' e)
      | Inr result \<Rightarrow> Inr \<lparr>sx_Allowed = res_Allowed result,
           sx_PolicyName = (case res_MatchedPolicy result of Some p \<Rightarrow> pol_Name p | None \<Rightarrow> []),
           sx_Reason = res_Reason result, sx_RequiredACR = res_RequiredACR result, sx_RequiredMaxAge = res_RequiredMaxAge result\<rparr>)"

text \<open>The verb \<^verbatim>\<open>%-ns\<close>: blanks on the right up to a number of code points.\<close>

definition pad :: "nat \<Rightarrow> string \<Rightarrow> string" where
  "pad n s = s @ replicate (n - length (runes s)) (CHR '' '')"

definition sim_row :: "Simulator \<Rightarrow> SimRequest \<Rightarrow> string" where
  "sim_row s req =
     pad 8 (sq_Method req) @ '' '' @ pad 30 (sq_Path req) @ '' '' @ pad 10 (sq_ACR req) @ '' '' @
     (case Simulate s req of Inl err \<Rightarrow> ''ERROR    '' @ error_text err
      | Inr result \<Rightarrow>
         pad 10 (if \<not> sx_Allowed result then ''NO'' else ''YES'') @ '' '' @
         (if sx_Reason result = [] \<and> \<not> sx_Allowed result \<and> sx_RequiredACR result \<noteq> []
          then ''need acr='' @ sx_RequiredACR result else sx_Reason result)) @ [char_of (10::nat)]"

definition RunTable :: "Simulator \<Rightarrow> SimRequest list \<Rightarrow> string" where
  "RunTable s requests =
     pad 8 ''METHOD'' @ '' '' @ pad 30 ''PATH'' @ '' '' @ pad 10 ''ACR'' @ '' '' @ pad 10 ''ALLOWED'' @ '' '' @ ''REASON'' @ [char_of (10::nat)]
     @ replicate 80 (CHR ''-'') @ [char_of (10::nat)] @ concat (map (sim_row s) requests)"

section \<open>The encoder is the library's\<close>

lemma and_low: "(n::nat) AND 3 = n mod 4" "(n::nat) AND 15 = n mod 16" "(n::nat) AND 63 = n mod 64"
proof -
  have "mask 2 = (3::nat)" "mask 4 = (15::nat)" "mask 6 = (63::nat)"
    by (simp_all add: mask_eq_exp_minus_1)
  then show "n AND 3 = n mod 4" "n AND 15 = n mod 16" "n AND 63 = n mod 64"
    using take_bit_eq_mask [of 2 n] take_bit_eq_mask [of 4 n] take_bit_eq_mask [of 6 n]
    by (simp_all add: take_bit_eq_mod)
qed

lemma unat_byte_word [simp]: "unat (byte_word c) = byte_of c"
  by (simp add: unsigned_of_nat take_bit_eq_mod)

lemma or_disjoint_low: "(y::nat) < 2 ^ k \<Longrightarrow> x * 2 ^ k OR y = x * 2 ^ k + y"
proof -
  assume y: "y < 2 ^ k"
  have "push_bit k x AND take_bit k y = 0"
    by (rule bit_eqI) (auto simp: bit_and_iff bit_push_bit_iff bit_take_bit_iff)
  then have "push_bit k x AND y = 0" using y by (simp add: take_bit_nat_eq_self)
  then show ?thesis by (simp add: disjunctive_add_eq_or push_bit_eq_mult)
qed

lemma byte_word_parts:
  "unat (drop_bit 2 (byte_word a)) = byte_of a div 4" "unat (drop_bit 4 (byte_word a)) = byte_of a div 16"
  "unat (drop_bit 6 (byte_word a)) = byte_of a div 64" "unat (byte_word a AND 63) = byte_of a mod 64"
  "unat (push_bit 4 (byte_word a AND 3)) = byte_of a mod 4 * 16" "unat (push_bit 2 (byte_word a AND 15)) = byte_of a mod 16 * 4"
proof -
  have drop: "unat (drop_bit k (byte_word a)) = byte_of a div 2 ^ k" for k
    unfolding unat_drop_bit_eq unat_byte_word by (rule drop_bit_eq_div)
  show "unat (drop_bit 2 (byte_word a)) = byte_of a div 4" "unat (drop_bit 4 (byte_word a)) = byte_of a div 16"
    "unat (drop_bit 6 (byte_word a)) = byte_of a div 64" "unat (byte_word a AND 63) = byte_of a mod 64"
    by (simp_all add: drop unsigned_and_eq and_low)
  have push: "unat (push_bit k w) = unat w * 2 ^ k mod 256" for k and w :: "8 word"
    using unsigned_push_bit_eq [of k w, where ?'a = nat] by (simp only: push_bit_eq_mult take_bit_eq_mod) simp
  have "byte_of a mod 4 * 16 < 256" "byte_of a mod 16 * 4 < 256" by (simp_all add: algebra_simps)
  then show "unat (push_bit 4 (byte_word a AND 3)) = byte_of a mod 4 * 16"
    "unat (push_bit 2 (byte_word a AND 15)) = byte_of a mod 16 * 4"
    by (simp_all add: push unsigned_and_eq and_low del: push_bit_and)
qed

lemma b64_at_char: "unat i < 64 \<Longrightarrow> b64_at i = b64_char (unat i)"
proof -
  have "\<forall>n \<in> set [0..<64]. base64URLChars ! n = b64_char n" by code_simp
  then show "unat i < 64 \<Longrightarrow> b64_at i = b64_char (unat i)" by (simp add: b64_at_def)
qed

lemma b64_at_parts:
  "b64_at (drop_bit 2 (byte_word a)) = b64_char (byte_of a div 4)"
  "b64_at (push_bit 4 (byte_word a AND 3)) = b64_char (byte_of a mod 4 * 16)"
  "b64_at (push_bit 4 (byte_word a AND 3) OR drop_bit 4 (byte_word b)) = b64_char (byte_of a mod 4 * 16 + byte_of b div 16)"
  "b64_at (push_bit 2 (byte_word b AND 15)) = b64_char (byte_of b mod 16 * 4)"
  "b64_at (push_bit 2 (byte_word b AND 15) OR drop_bit 6 (byte_word c)) = b64_char (byte_of b mod 16 * 4 + byte_of c div 64)"
  "b64_at (byte_word c AND 63) = b64_char (byte_of c mod 64)"
proof -
  have less: "byte_of b div 16 < 2 ^ 4" "byte_of c div 64 < 2 ^ 2" by (simp_all add: less_mult_imp_div_less)
  have "unat (push_bit 4 (byte_word a AND 3) OR drop_bit 4 (byte_word b)) = byte_of a mod 4 * 16 + byte_of b div 16"
    "unat (push_bit 2 (byte_word b AND 15) OR drop_bit 6 (byte_word c)) = byte_of b mod 16 * 4 + byte_of c div 64"
    using or_disjoint_low [OF less(1), of "byte_of a mod 4"] or_disjoint_low [OF less(2), of "byte_of b mod 16"]
    by (simp_all add: unsigned_or_eq byte_word_parts del: push_bit_and)
  then show "b64_at (push_bit 4 (byte_word a AND 3) OR drop_bit 4 (byte_word b)) = b64_char (byte_of a mod 4 * 16 + byte_of b div 16)"
    "b64_at (push_bit 2 (byte_word b AND 15) OR drop_bit 6 (byte_word c)) = b64_char (byte_of b mod 16 * 4 + byte_of c div 64)"
    by (simp_all add: b64_at_char b64_bounds del: push_bit_and)
qed (simp_all add: b64_at_char byte_word_parts b64_bounds del: push_bit_and)

lemma encodeBase64URL_eq: "encodeBase64URL s = RawURLEncoding_Encode s"
  unfolding RawURLEncoding_Encode_def
  by (induction s rule: encodeBase64URL.induct) (simp_all add: Let_def b64_at_parts b64_1_def b64_2_def b64_3_def del: push_bit_and)

text \<open>C31: The hand-written base64 encoder of the token factory, which masks and shifts 8-bit bytes, produces on
  every byte string exactly what the library's unpadded URL encoding produces, and so decodes to its input.
\<close>

theorem encodeBase64URL_correct:
  "encodeBase64URL s = RawURLEncoding_Encode s \<and> RawURLEncoding_Decode (encodeBase64URL s) = Inr s"
  by (simp add: encodeBase64URL_eq RawURLEncoding_roundtrip)

section \<open>The published key\<close>

lemma SetBytes_snoc [simp]: "SetBytes [] = 0" "SetBytes (b @ [c]) = SetBytes b * 256 + byte_of c"
  by (simp_all add: SetBytes_def)

lemma SetBytes_nat_bytes [simp]: "SetBytes (nat_bytes n) = n"
  by (induction n rule: nat_bytes.induct) (simp add: nat_bytes.simps [of n for n])

lemma nat_bytes_Nil [simp]: "nat_bytes n = [] \<longleftrightarrow> n = 0"
  by (simp add: nat_bytes.simps [of n])

lemma SetBytes_trim_zeros [simp]: "SetBytes (trim_zeros b) = SetBytes b"
  by (induction b rule: trim_zeros.induct) (simp_all add: SetBytes_def)

lemma trim_zeros_Nil [simp]: "trim_zeros b = [] \<longleftrightarrow> b = []"
  by (induction b rule: trim_zeros.induct) auto

lemma exponent_digits: "(0::int) \<le> e \<Longrightarrow> e < 2 ^ 32 \<Longrightarrow>
  ((e div 2 ^ 24 mod 256 * 256 + e div 2 ^ 16 mod 256) * 256 + e div 2 ^ 8 mod 256) * 256 + e mod 256 = e"
proof -
  assume e: "0 \<le> e" "e < 2 ^ 32"
  have parts: "e div 2 ^ 8 = e div 256" "e div 2 ^ 16 = e div 256 div 256" "e div 2 ^ 24 = e div 256 div 256 div 256"
    by (simp_all add: div_mult2_eq [symmetric])
  have "e div 256 div 256 div 256 mod 256 = e div 256 div 256 div 256" using e by simp
  then show ?thesis unfolding parts by (simp only: div_mult_mod_eq)
qed

lemma SetBytes_exponent:
  assumes "0 \<le> e" "e < 2 ^ 32"
  shows "int (SetBytes (exponent_bytes e)) = e"
proof -
  have digit: "int (byte_of (char_of (nat (x mod 256)) :: char)) = x mod 256" for x :: int by (simp add: nat_less_iff)
  have "int (SetBytes (exponent_bytes e)) =
      ((e div 2 ^ 24 mod 256 * 256 + e div 2 ^ 16 mod 256) * 256 + e div 2 ^ 8 mod 256) * 256 + e div 2 ^ 0 mod 256"
    unfolding SetBytes_def exponent_bytes_def list.map foldl.simps of_nat_add of_nat_mult digit by simp
  then show ?thesis by (simp only: power_0 div_by_1 exponent_digits [OF assms])
qed

lemma encodeBase64URL_Nil [simp]: "encodeBase64URL s = [] \<longleftrightarrow> s = []"
  by (cases s rule: encodeBase64URL.cases) (simp_all add: Let_def)

text \<open>What the text level of \<^verbatim>\<open>encoding/json\<close> promises: a printed document reads back as itself.\<close>

definition reads_back :: "json_codec \<Rightarrow> json \<Rightarrow> bool" where
  "reads_back codec j \<longleftrightarrow> json_parse codec (json_print codec j) = Some j \<and> json_decode codec (json_print codec j) = Some j
     \<and> json_decode codec (json_print codec j @ [char_of (10::nat)]) = Some j"

definition jwks_document :: "Factory \<Rightarrow> json" where
  "jwks_document f = JObj [(''keys'', JArr [JObj (public_jwk f)])]"

lemma public_jwk_canonical: "sort_key fst (json_object_map [] (public_jwk f)) = public_jwk f"
proof -
  have "json_object_map [] (public_jwk f) = public_jwk f" by (simp add: public_jwk_def)
  moreover have "sorted (map fst (public_jwk f))" unfolding public_jwk_def by simp
  ultimately show ?thesis by (simp add: sorted_sort_id sort_key_id_if_sorted)
qed

lemma Factory_JWKS_document:
  "reads_back codec (JObj (public_jwk f)) \<Longrightarrow> Factory_JWKS codec f = Inr (json_print codec (jwks_document f))"
  by (simp add: Factory_JWKS_def PublicKeyJSON_def reads_back_def public_jwk_canonical jwks_document_def Let_def)

lemma PublicKeyFromJWK_public:
  assumes "0 < tf_N f" "0 < tf_E f" "tf_E f < 2 ^ 32"
  shows "PublicKeyFromJWK cr (rev (map (\<lambda>kv. (fst kv, json_to_gval (snd kv))) (public_jwk f))) = Inr (RSAKey (tf_N f) (tf_E f))"
proof -
  have "wrap64 (int (SetBytes (exponent_bytes (tf_E f)))) = tf_E f"
    using assms SetBytes_exponent [of "tf_E f"] by (simp add: wrap64_def)
  moreover have "exponent_bytes (tf_E f) \<noteq> []" by (simp add: exponent_bytes_def)
  ultimately show ?thesis using assms
    by (simp add: PublicKeyFromJWK_def rsaKeyFromJWK_def jwk_string_def public_jwk_def encodeBase64URL_eq [symmetric]
        Let_def) (simp add: encodeBase64URL_eq)
qed

text \<open>A validator that fetches the JWKS document of a token factory holds exactly the factory's public key
  under the factory's key identifier: the modulus and the exponent survive the big-endian bytes, the trimmed
  zeros, the hand-written base64, the JSON document and the JWK decoder.
\<close>

lemma factory_key_published:
  assumes printed: "reads_back codec (JObj (public_jwk f))" "reads_back codec (jwks_document f)"
    and key: "0 < tf_N f" "0 < tf_E f" "tf_E f < 2 ^ 32"
    and served: "Factory_JWKS codec f = Inr doc"
  shows "fetchJWKS codec cr (answering 200 doc) now v =
    (None, v\<lparr>jv_keySet := [(tf_keyID f, RSAKey (tf_N f) (tf_E f))], jv_fetchedAt := now\<rparr>)"
proof -
  have "json_decode codec doc = Some (jwks_document f)"
    using printed served Factory_JWKS_document [of codec f] by (auto simp: reads_back_def)
  moreover have "jwk_string (rev (map (\<lambda>kv. (fst kv, json_to_gval (snd kv))) (public_jwk f))) ''kid'' = tf_keyID f"
    by (simp add: jwk_string_def public_jwk_def)
  ultimately show ?thesis using PublicKeyFromJWK_public [OF key, of cr]
    by (simp add: fetchJWKS_def answering_def decode_into_def jwks_document_def jwks_member_def fold_simps)
qed

definition wit_factory :: Factory where
  "wit_factory = NewWithKey (3233, 65537) ''k''"

definition wit_factory_codec :: json_codec where
  "wit_factory_codec =
     (let read = (\<lambda>s. if take 3 s = ''alg'' then Some (JObj (public_jwk wit_factory))
                   else if take 4 s = ''keys'' then Some (jwks_document wit_factory) else None) in
      \<lparr>json_parse = read, json_decode = read,
       json_print = (\<lambda>j. case j of JObj ((k, _) # _) \<Rightarrow> k | _ \<Rightarrow> []), time_parse = (\<lambda>_. None), time_print = (\<lambda>_. None)\<rparr>)"

lemma wit_factory_reads_back:
  "reads_back wit_factory_codec (JObj (public_jwk wit_factory))" "reads_back wit_factory_codec (jwks_document wit_factory)"
  by (simp_all add: reads_back_def wit_factory_codec_def public_jwk_def jwks_document_def Let_def)

theorem factory_key_published_witness:
  "fst (fetchJWKS wit_factory_codec wit_crypto (answering 200 ''keys'') 0 (NewJWTValidator wit_jwt_cfg)) = None"
proof -
  have "Factory_JWKS wit_factory_codec wit_factory = Inr ''keys''"
    using Factory_JWKS_document [OF wit_factory_reads_back(1)] by (simp add: wit_factory_codec_def jwks_document_def Let_def)
  moreover have "0 < tf_N wit_factory" "0 < tf_E wit_factory" "tf_E wit_factory < 2 ^ 32"
    by (simp_all add: wit_factory_def NewWithKey_def)
  ultimately show ?thesis
    using factory_key_published [OF wit_factory_reads_back, of "''keys''" wit_crypto 0 "NewJWTValidator wit_jwt_cfg"] by simp
qed

end
