(* ===== verification/Local_AS.thy ===== *)
theory Local_AS
  imports Devkit Server
begin

text \<open>
  The authorization server for local development (\<^verbatim>\<open>pkg/devkit/localas/server.go\<close>): its token table,
  its five endpoints behind a multiplexer, and forms as \<^verbatim>\<open>net/http\<close> parses them.  The last section
  connects it to the generic provider adapter through a network that delivers the adapter's calls.
\<close>

section \<open>Forms\<close>

text \<open>\<^verbatim>\<open>ParseForm\<close>: the pairs of the body, when its media type is that of a form and it is not larger than
  10 MB, before those of the query.  Only the media type is read of the content type; its parameters are
  taken to be well formed.\<close>

definition form_content :: "http_request \<Rightarrow> bool" where
  "form_content r = (ToLower (TrimSpace (fst (Cut (Header_Get (rq_Header r) ''Content-Type'') (CHR '';''))))
     = ''application/x-www-form-urlencoded'')"

definition ParseForm :: "http_request \<Rightarrow> (string \<times> string) list" where
  "ParseForm r = (if rq_Method r \<in> {''POST'', ''PUT'', ''PATCH''} \<and> form_content r \<and> length (rq_Body r) \<le> 10485760
     then ParseQuery (rq_Body r) else []) @ ParseQuery (rq_RawQuery r)"

definition FormValue :: "http_request \<Rightarrow> string \<Rightarrow> string" where
  "FormValue r key = (case map_of (ParseForm r) key of Some v \<Rightarrow> v | None \<Rightarrow> [])"

section \<open>The server\<close>

record tokenEntry =
  te_raw :: string
  te_subject :: string
  te_scopes :: "string list"
  te_acr :: string
  te_expiresAt :: time
  te_revoked :: bool

record LocalAS =
  as_factory :: Factory
  as_tokens :: "(string \<times> tokenEntry) list"
  as_issuer :: string

definition localas_New :: "(nat \<times> int) result \<Rightarrow> LocalAS result" where
  "localas_New generated = (case Factory_New generated of
       Inl e \<Rightarrow> Inl (Wrapf ''creating token factory: '' e)
     | Inr f \<Rightarrow> Inr \<lparr>as_factory = f, as_tokens = [], as_issuer = []\<rparr>)"

datatype as_route = Discovery | JWKSet | TokenEndpoint | IntrospectEndpoint | RevokeEndpoint

definition as_routes :: "(mux_pattern \<times> as_route) list" where
  "as_routes = [(([''.well-known'', ''openid-configuration''], False), Discovery), (([''jwks''], False), JWKSet),
     (([''token''], False), TokenEndpoint), (([''introspect''], False), IntrospectEndpoint), (([''revoke''], False), RevokeEndpoint)]"

text \<open>\<open>listening\<close> is the address of the listener, or why there is none.\<close>

definition localas_Start :: "string result \<Rightarrow> LocalAS \<Rightarrow> string result \<times> LocalAS" where
  "localas_Start listening s = (case listening of
       Inl e \<Rightarrow> (Inl (Wrapf ''listening: '' e), s)
     | Inr addr \<Rightarrow> (let issuer = ''http://'' @ addr in (Inr issuer, s\<lparr>as_issuer := issuer\<rparr>)))"

text \<open>A server that was never started has nothing to stop; \<open>shutdown\<close> is the outcome of \<^verbatim>\<open>http.Server.Shutdown\<close>.\<close>

definition localas_Stop :: "('srv \<Rightarrow> error option) \<Rightarrow> 'srv option \<Rightarrow> error option" where
  "localas_Stop shutdown httpSrv = (case httpSrv of None \<Rightarrow> None | Some srv \<Rightarrow> shutdown srv)"

definition new_entry :: "string \<Rightarrow> time \<Rightarrow> TokenOptions \<Rightarrow> tokenEntry" where
  "new_entry raw now opts = \<lparr>te_raw = raw, te_subject = to_Subject opts, te_scopes = to_Scopes opts, te_acr = to_ACR opts,
     te_expiresAt = now + to_ExpiresIn opts, te_revoked = False\<rparr>"

definition IssueToken :: "signer \<Rightarrow> time \<Rightarrow> LocalAS \<Rightarrow> TokenOptions \<Rightarrow> string result \<times> LocalAS" where
  "IssueToken sign now s opts =
     (let opts = (if to_Issuer opts = [] then opts\<lparr>to_Issuer := as_issuer s\<rparr> else opts) in
      case Generate sign (as_factory s) now opts of
        Inl e \<Rightarrow> (Inl e, s)
      | Inr raw \<Rightarrow> (Inr raw, s\<lparr>as_tokens := AList.update raw (new_entry raw now opts) (as_tokens s)\<rparr>))"

definition joinScopes :: "string list \<Rightarrow> string" where
  "joinScopes scopes = join_scopes True scopes"

definition localas_writeJSON :: "json_codec \<Rightarrow> json \<Rightarrow> response \<Rightarrow> response" where
  "localas_writeJSON codec v w =
     Write (json_print codec v @ [char_of (10::nat)]) (set_header ''Content-Type'' ''application/json'' w)"

section \<open>The endpoints\<close>

definition discovery_document :: "string \<Rightarrow> json" where
  "discovery_document base = JObj [
     (''acr_values_supported'', JArr (map JStr [''urn:mace:incommon:iap:bronze'', ''urn:mace:incommon:iap:silver'',
        ''urn:mace:incommon:iap:gold''])),
     (''authorization_endpoint'', JStr (base @ ''/authorize'')),
     (''grant_types_supported'', JArr (map JStr [''authorization_code'', ''client_credentials'', ''password''])),
     (''id_token_signing_alg_values_supported'', JArr [JStr ''RS256'']), (''introspection_endpoint'', JStr (base @ ''/introspect'')),
     (''issuer'', JStr base), (''jwks_uri'', JStr (base @ ''/jwks'')), (''response_types_supported'', JArr [JStr ''code'']),
     (''revocation_endpoint'', JStr (base @ ''/revoke'')), (''subject_types_supported'', JArr [JStr ''public'']),
     (''token_endpoint'', JStr (base @ ''/token''))]"

definition handleDiscovery :: "json_codec \<Rightarrow> LocalAS \<Rightarrow> response \<Rightarrow> response" where
  "handleDiscovery codec s w = localas_writeJSON codec (discovery_document (as_issuer s)) w"

definition handleJWKS :: "json_codec \<Rightarrow> LocalAS \<Rightarrow> response \<Rightarrow> response" where
  "handleJWKS codec s w = (case Factory_JWKS codec (as_factory s) of
       Inl _ \<Rightarrow> http_Error ''error generating JWKS'' 500 w
     | Inr jwks \<Rightarrow> Write jwks (set_header ''Content-Type'' ''application/json'' w))"

text \<open>The options of a token from the token endpoint; fields it does not set have their zero value.\<close>

definition form_options :: "http_request \<Rightarrow> TokenOptions" where
  "form_options r =
     (let sub = (if FormValue r ''username'' = [] then ''test-user'' else FormValue r ''username'');
          acr = (if FormValue r ''acr_values'' = [] then ''urn:mace:incommon:iap:bronze'' else FormValue r ''acr_values'')
      in \<lparr>to_Subject = sub, to_Issuer = [], to_Audience = [], to_ExpiresIn = 60 * Minute, to_ACR = acr, to_AMR = [],
          to_Scopes = [''openid'', ''profile''], to_Roles = [], to_TenantID = [], to_SessionID = [], to_AuthTime = zero_time,
          to_Extra = []\<rparr>)"

definition handleToken :: "json_codec \<Rightarrow> signer \<Rightarrow> time \<Rightarrow> http_request \<Rightarrow> response \<Rightarrow> LocalAS \<Rightarrow> response \<times> LocalAS" where
  "handleToken codec sign now r w s =
     (if rq_Method r \<noteq> ''POST'' then (http_Error ''method not allowed'' 405 w, s)
      else (case IssueToken sign now s (form_options r) of
          (Inl _, s') \<Rightarrow> (http_Error ''error issuing token'' 500 w, s')
        | (Inr raw, s') \<Rightarrow>
            (localas_writeJSON codec (JObj [(''access_token'', JStr raw), (''expires_in'', JInt 3600), (''token_type'', JStr ''Bearer'')]) w, s')))"

definition inactive_document :: json where
  "inactive_document = JObj [(''active'', JBool False)]"

definition active_document :: "string \<Rightarrow> tokenEntry \<Rightarrow> json" where
  "active_document issuer entry = JObj [(''acr'', JStr (te_acr entry)), (''active'', JBool True),
     (''exp'', JInt (unix_seconds (te_expiresAt entry))), (''iss'', JStr issuer), (''scope'', JStr (joinScopes (te_scopes entry))),
     (''sub'', JStr (te_subject entry))]"

definition handleIntrospect :: "json_codec \<Rightarrow> time \<Rightarrow> http_request \<Rightarrow> response \<Rightarrow> LocalAS \<Rightarrow> response" where
  "handleIntrospect codec now r w s =
     (if rq_Method r \<noteq> ''POST'' then http_Error ''method not allowed'' 405 w
      else (case map_of (as_tokens s) (FormValue r ''token'') of
          None \<Rightarrow> localas_writeJSON codec inactive_document w
        | Some entry \<Rightarrow>
            if te_revoked entry \<or> te_expiresAt entry < now then localas_writeJSON codec inactive_document w
            else localas_writeJSON codec (active_document (as_issuer s) entry) w))"

definition handleRevoke :: "http_request \<Rightarrow> response \<Rightarrow> LocalAS \<Rightarrow> response \<times> LocalAS" where
  "handleRevoke r w s =
     (if rq_Method r \<noteq> ''POST'' then (http_Error ''method not allowed'' 405 w, s)
      else (let raw = FormValue r ''token'' in
        (WriteHeader 200 w, (case map_of (as_tokens s) raw of
            Some entry \<Rightarrow> s\<lparr>as_tokens := AList.update raw (entry\<lparr>te_revoked := True\<rparr>) (as_tokens s)\<rparr>
          | None \<Rightarrow> s))))"

definition localas_ServeHTTP ::
  "json_codec \<Rightarrow> signer \<Rightarrow> time \<Rightarrow> http_request \<Rightarrow> string \<Rightarrow> response \<Rightarrow> LocalAS \<Rightarrow> response \<times> LocalAS" where
  "localas_ServeHTTP codec sign now r rawPath w s =
     (case ServeMux_Handler as_routes r rawPath of
        Route Discovery \<Rightarrow> (handleDiscovery codec s w, s)
      | Route JWKSet \<Rightarrow> (handleJWKS codec s w, s)
      | Route TokenEndpoint \<Rightarrow> handleToken codec sign now r w s
      | Route IntrospectEndpoint \<Rightarrow> (handleIntrospect codec now r w s, s)
      | Route RevokeEndpoint \<Rightarrow> handleRevoke r w s
      | other \<Rightarrow> (mux_answer other w, s))"

section \<open>Histories\<close>

text \<open>What happens to a server: a call of its Go interface, or a request to one of its endpoints.\<close>

datatype as_event = Issue TokenOptions | Serve http_request string

fun as_step :: "json_codec \<Rightarrow> signer \<Rightarrow> time \<times> as_event \<Rightarrow> LocalAS \<Rightarrow> LocalAS" where
  "as_step codec sign (now, Issue opts) s = snd (IssueToken sign now s opts)"
| "as_step codec sign (now, Serve r rawPath) s = snd (localas_ServeHTTP codec sign now r rawPath new_response s)"

definition as_run :: "json_codec \<Rightarrow> signer \<Rightarrow> (time \<times> as_event) list \<Rightarrow> LocalAS \<Rightarrow> LocalAS" where
  "as_run codec sign evs s = fold (as_step codec sign) evs s"

text \<open>The token an event issues, and the token it revokes, in terms of the event and of the parts of the
  server that never change.\<close>

definition issued_raw :: "signer \<Rightarrow> LocalAS \<Rightarrow> time \<Rightarrow> TokenOptions \<Rightarrow> string option" where
  "issued_raw sign s now opts = (case fst (IssueToken sign now s opts) of Inr raw \<Rightarrow> Some raw | Inl _ \<Rightarrow> None)"

fun issues :: "signer \<Rightarrow> LocalAS \<Rightarrow> time \<times> as_event \<Rightarrow> string option" where
  "issues sign s (now, Issue opts) = issued_raw sign s now opts"
| "issues sign s (now, Serve r rawPath) =
     (if ServeMux_Handler as_routes r rawPath = Route TokenEndpoint \<and> rq_Method r = ''POST''
      then issued_raw sign s now (form_options r) else None)"

fun revokes :: "time \<times> as_event \<Rightarrow> string option" where
  "revokes (now, Issue opts) = None"
| "revokes (now, Serve r rawPath) =
     (if ServeMux_Handler as_routes r rawPath = Route RevokeEndpoint \<and> rq_Method r = ''POST''
      then Some (FormValue r ''token'') else None)"

lemma IssueToken_keeps [simp]:
  "as_factory (snd (IssueToken sign now s opts)) = as_factory s" "as_issuer (snd (IssueToken sign now s opts)) = as_issuer s"
  by (simp_all add: IssueToken_def Let_def split: sum.splits)

lemma IssueToken_other:
  "fst (IssueToken sign now s opts) \<noteq> Inr tok \<Longrightarrow> map_of (as_tokens (snd (IssueToken sign now s opts))) tok = map_of (as_tokens s) tok"
  by (auto simp: IssueToken_def Let_def update_conv' split: sum.splits)

lemma IssueToken_entry:
  "IssueToken sign now s opts = (Inr tok, s') \<Longrightarrow> map_of (as_tokens s') tok = Some (new_entry tok now opts)"
  by (auto simp: IssueToken_def Let_def update_conv' new_entry_def split: sum.splits if_splits)

lemma IssueToken_fst_cong:
  "as_factory s = as_factory s' \<Longrightarrow> as_issuer s = as_issuer s' \<Longrightarrow> fst (IssueToken sign now s opts) = fst (IssueToken sign now s' opts)"
  by (auto simp: IssueToken_def Let_def split: sum.splits)

lemma issues_cong:
  assumes "as_factory s = as_factory s'" "as_issuer s = as_issuer s'"
  shows "issues sign s ev = issues sign s' ev"
proof -
  have "issued_raw sign s now opts = issued_raw sign s' now opts" for now opts
    using IssueToken_fst_cong [OF assms, of sign now opts] by (simp add: issued_raw_def)
  then show ?thesis by (cases "(sign, s, ev)" rule: issues.cases) auto
qed

lemma as_step_serve: "as_step codec sign (now, Serve r rawPath) s =
   (if ServeMux_Handler as_routes r rawPath = Route TokenEndpoint \<and> rq_Method r = ''POST''
    then snd (IssueToken sign now s (form_options r))
    else (case revokes (now, Serve r rawPath) of None \<Rightarrow> s
      | Some raw \<Rightarrow> (case map_of (as_tokens s) raw of None \<Rightarrow> s
          | Some entry \<Rightarrow> s\<lparr>as_tokens := AList.update raw (entry\<lparr>te_revoked := True\<rparr>) (as_tokens s)\<rparr>)))"
  by (cases "ServeMux_Handler as_routes r rawPath")
    (auto simp: localas_ServeHTTP_def handleToken_def handleRevoke_def Let_def split: as_route.splits sum.splits prod.splits)

lemma as_step_keeps [simp]:
  "as_factory (as_step codec sign ev s) = as_factory s" "as_issuer (as_step codec sign ev s) = as_issuer s"
proof -
  obtain now e where ev: "ev = (now, e)" by fastforce
  have "as_factory (as_step codec sign (now, e) s) = as_factory s \<and> as_issuer (as_step codec sign (now, e) s) = as_issuer s"
    by (cases e) (auto simp: as_step_serve simp del: as_step.simps(2) split: option.splits)
  then show "as_factory (as_step codec sign ev s) = as_factory s" "as_issuer (as_step codec sign ev s) = as_issuer s"
    by (simp_all add: ev)
qed

lemma as_step_lookup:
  assumes "issues sign s ev \<noteq> Some tok"
  shows "map_of (as_tokens (as_step codec sign ev s)) tok =
    map_option (\<lambda>e. if revokes ev = Some tok then e\<lparr>te_revoked := True\<rparr> else e) (map_of (as_tokens s) tok)"
proof -
  obtain now e where ev: "ev = (now, e)" by fastforce
  show ?thesis
  proof (cases e)
    case (Issue opts)
    then show ?thesis using assms IssueToken_other [of sign now s opts tok]
      by (auto simp: ev issued_raw_def option.map_ident split: sum.splits)
  next
    case (Serve r rawPath)
    have "fst (IssueToken sign now s (form_options r)) \<noteq> Inr tok"
      if "ServeMux_Handler as_routes r rawPath = Route TokenEndpoint" "rq_Method r = ''POST''"
      using assms that by (auto simp: ev Serve issued_raw_def)
    then show ?thesis using IssueToken_other [of sign now s "form_options r" tok]
      by (cases "map_of (as_tokens s) tok")
        (auto simp: ev Serve as_step_serve update_conv' simp del: as_step.simps(2) split: option.splits)
  qed
qed

lemma as_run_lookup:
  assumes "map_of (as_tokens s) tok = Some e" "Some tok \<notin> issues sign s ` set evs"
  shows "\<exists>b. map_of (as_tokens (as_run codec sign evs s)) tok = Some (e\<lparr>te_revoked := b\<rparr>)
    \<and> (b \<longleftrightarrow> te_revoked e \<or> Some tok \<in> revokes ` set evs)"
  using assms
proof (induction evs arbitrary: s e)
  case Nil
  then show ?case by (intro exI [of _ "te_revoked e"]) (simp add: as_run_def)
next
  case (Cons ev evs)
  let ?s = "as_step codec sign ev s" and ?e = "if revokes ev = Some tok then e\<lparr>te_revoked := True\<rparr> else e"
  have "map_of (as_tokens ?s) tok = Some ?e"
    using as_step_lookup [of sign s ev tok codec] Cons.prems by auto
  moreover have "Some tok \<notin> issues sign ?s ` set evs"
    using Cons.prems(2) issues_cong [of ?s s sign] by auto
  ultimately obtain b where b: "map_of (as_tokens (as_run codec sign evs ?s)) tok = Some (?e\<lparr>te_revoked := b\<rparr>)"
    "b \<longleftrightarrow> te_revoked ?e \<or> Some tok \<in> revokes ` set evs" using Cons.IH by blast
  have "?e\<lparr>te_revoked := b\<rparr> = e\<lparr>te_revoked := b\<rparr>" by simp
  moreover have "as_run codec sign (ev # evs) s = as_run codec sign evs ?s" by (simp add: as_run_def)
  moreover have "b \<longleftrightarrow> te_revoked e \<or> Some tok \<in> revokes ` set (ev # evs)" using b(2) by auto
  ultimately show ?case using b(1) by (intro exI [of _ b]) simp
qed

lemma as_run_keeps [simp]: "as_issuer (as_run codec sign evs s) = as_issuer s"
  by (induction evs arbitrary: s) (simp_all add: as_run_def)

section \<open>Over the network\<close>

text \<open>A network that delivers the calls of a client to a running server.  The credentials of the client are
  left out of the delivered request, since no endpoint reads them.\<close>

definition delivered :: "LocalAS \<Rightarrow> client_request \<Rightarrow> http_request" where
  "delivered s q = (let path = drop (length (as_issuer s)) (cq_URL q) in
     \<lparr>rq_Method = cq_Method q, rq_Path = path, rq_RawQuery = [], rq_RequestURI = path, rq_Host = drop 7 (as_issuer s),
      rq_RemoteAddr = [], rq_TLS = False, rq_PeerCertificates = 0,
      rq_Header = (if cq_ContentType q = [] then [] else [(''Content-Type'', [cq_ContentType q])]), rq_Body = cq_Body q\<rparr>)"

definition as_client :: "json_codec \<Rightarrow> signer \<Rightarrow> time \<Rightarrow> LocalAS \<Rightarrow> http_client" where
  "as_client codec sign now s = \<lparr>hc_NewRequest = (\<lambda>_. None),
     hc_Do = (\<lambda>q. if HasPrefix (cq_URL q) (as_issuer s)
       then (let w = fst (localas_ServeHTTP codec sign now (delivered s q) [] new_response s) in
             Inr \<lparr>cp_StatusCode = (case rw_Status w of Some code \<Rightarrow> code | None \<Rightarrow> 200), cp_Body = rw_Body w\<rparr>)
       else Inl (Errorf ''connection refused''))\<rparr>"

lemma as_mux:
  "rq_Path r = ''/.well-known/openid-configuration'' \<Longrightarrow> rq_RequestURI r = rq_Path r \<Longrightarrow> ServeMux_Handler as_routes r [] = Route Discovery"
  "rq_Path r = ''/introspect'' \<Longrightarrow> rq_RequestURI r = rq_Path r \<Longrightarrow> ServeMux_Handler as_routes r [] = Route IntrospectEndpoint"
  "rq_Path r = ''/revoke'' \<Longrightarrow> rq_RequestURI r = rq_Path r \<Longrightarrow> ServeMux_Handler as_routes r [] = Route RevokeEndpoint"
proof -
  have e: "EscapedPath [] ''/.well-known/openid-configuration'' = ''/.well-known/openid-configuration''"
    "EscapedPath [] ''/introspect'' = ''/introspect''" "EscapedPath [] ''/revoke'' = ''/revoke''" by code_simp+
  have c: "cleanPath ''/.well-known/openid-configuration'' = ''/.well-known/openid-configuration''"
    "cleanPath ''/introspect'' = ''/introspect''" "cleanPath ''/revoke'' = ''/revoke''" by code_simp+
  have s: "\<not> slash_redirect as_routes ''/.well-known/openid-configuration''" "\<not> slash_redirect as_routes ''/introspect''"
    "\<not> slash_redirect as_routes ''/revoke''" by code_simp+
  have r: "route_of as_routes ''/.well-known/openid-configuration'' = Route Discovery"
    "route_of as_routes ''/introspect'' = Route IntrospectEndpoint" "route_of as_routes ''/revoke'' = Route RevokeEndpoint"
    by code_simp+
  show "rq_Path r = ''/.well-known/openid-configuration'' \<Longrightarrow> rq_RequestURI r = rq_Path r \<Longrightarrow> ServeMux_Handler as_routes r [] = Route Discovery"
    "rq_Path r = ''/introspect'' \<Longrightarrow> rq_RequestURI r = rq_Path r \<Longrightarrow> ServeMux_Handler as_routes r [] = Route IntrospectEndpoint"
    "rq_Path r = ''/revoke'' \<Longrightarrow> rq_RequestURI r = rq_Path r \<Longrightarrow> ServeMux_Handler as_routes r [] = Route RevokeEndpoint"
    for r by (simp_all add: ServeMux_Handler_def e c s r Let_def)
qed

lemma form_media_type: "Header_Get (rq_Header r) ''Content-Type'' = ''application/x-www-form-urlencoded'' \<Longrightarrow> form_content r"
proof -
  have "fst (Cut ''application/x-www-form-urlencoded'' (CHR '';'')) = ''application/x-www-form-urlencoded''" by code_simp
  moreover have "TrimSpace ''application/x-www-form-urlencoded'' = ''application/x-www-form-urlencoded''" by code_simp
  moreover have "ToLower ''application/x-www-form-urlencoded'' = ''application/x-www-form-urlencoded''"
  proof -
    have "map lower_char ''application/x-www-form-urlencoded'' = ''application/x-www-form-urlencoded''" by code_simp
    moreover have "ascii ''application/x-www-form-urlencoded''" by code_simp
    ultimately show ?thesis by (simp only: ToLower_ascii)
  qed
  ultimately show "Header_Get (rq_Header r) ''Content-Type'' = ''application/x-www-form-urlencoded'' \<Longrightarrow> form_content r"
    by (simp add: form_content_def)
qed

lemma join_scopes_Join: "join_scopes True ws = Join ws '' ''"
proof -
  have rest: "join_scopes False ws = (if ws = [] then [] else '' '' @ Join ws '' '')" for ws
    by (induction ws "'' ''" rule: Join.induct) simp_all
  show ?thesis
  proof (cases ws)
    case (Cons w vs)
    then show ?thesis using rest [of vs] by (cases vs) simp_all
  qed simp
qed

lemma localas_written:
  "rw_Body (localas_writeJSON codec v new_response) = json_print codec v @ [char_of (10::nat)]"
  "rw_Status (localas_writeJSON codec v new_response) = Some 200"
  by (simp_all add: localas_writeJSON_def new_response_def http_simps)

text \<open>What the adapter knows after it read the discovery document.\<close>

lemma refresh_from_localas:
  assumes "gcf_DiscoveryURL (ga_cfg a) = as_issuer s @ ''/.well-known/openid-configuration''"
    and "reads_back codec (discovery_document (as_issuer s))"
  shows "\<exists>a' :: GenericAdapter. generic_RefreshConfig codec (as_client codec sign now s) a = (None, a') \<and> generic_Issuer a' = as_issuer s
    \<and> ga_introspector a' = Some \<lparr>ic_Endpoint = as_issuer s @ ''/introspect'', ic_ClientID = gcf_ClientID (ga_cfg a),
         ic_ClientSecret = gcf_ClientSecret (ga_cfg a)\<rparr>"
proof -
  let ?q = "get_request (as_issuer s @ ''/.well-known/openid-configuration'')"
  have "ServeMux_Handler as_routes (delivered s ?q) [] = Route Discovery"
    by (rule as_mux) (simp_all add: delivered_def get_request_def Let_def)
  then have "fst (localas_ServeHTTP codec sign now (delivered s ?q) [] new_response s)
      = localas_writeJSON codec (discovery_document (as_issuer s)) new_response"
    by (simp add: localas_ServeHTTP_def handleDiscovery_def)
  then have "hc_Do (as_client codec sign now s) ?q
      = Inr \<lparr>cp_StatusCode = 200, cp_Body = json_print codec (discovery_document (as_issuer s)) @ [char_of (10::nat)]\<rparr>"
    by (simp add: as_client_def HasPrefix_iff localas_written get_request_def)
  moreover have "hc_NewRequest (as_client codec sign now s) u = None" for u by (simp add: as_client_def)
  moreover have "decode_into codec discovery_member (json_print codec (discovery_document (as_issuer s)) @ [char_of (10::nat)]) empty_discovery
      = into_struct discovery_member (discovery_document (as_issuer s)) empty_discovery"
    using assms(2) by (simp add: decode_into_def reads_back_def)
  moreover have "\<exists>d. into_struct discovery_member (discovery_document (as_issuer s)) empty_discovery = Inr d
      \<and> od_Issuer d = as_issuer s \<and> od_IntrospectionEndpoint d = as_issuer s @ ''/introspect''"
    by (simp add: discovery_document_def discovery_member_def fold_simps)
  ultimately show ?thesis using assms(1) by (auto simp: generic_RefreshConfig_def generic_Issuer_def)
qed

abbreviation introspection_form :: "string \<Rightarrow> string" where
  "introspection_form tok \<equiv> form_encode [(''token'', tok), (''token_type_hint'', ''access_token'')]"

definition introspection_call :: "IntrospectorConfig \<Rightarrow> string \<Rightarrow> client_request" where
  "introspection_call cfg tok = \<lparr>cq_Method = ''POST'', cq_URL = ic_Endpoint cfg, cq_ContentType = ''application/x-www-form-urlencoded'',
     cq_BasicAuth = Some (ic_ClientID cfg, ic_ClientSecret cfg), cq_Body = introspection_form tok\<rparr>"

text \<open>The answer of the introspection endpoint to the adapter.\<close>

definition introspection_answer :: "time \<Rightarrow> LocalAS \<Rightarrow> string \<Rightarrow> json" where
  "introspection_answer now s tok = (case map_of (as_tokens s) tok of
       Some e \<Rightarrow> if te_revoked e \<or> te_expiresAt e < now then inactive_document else active_document (as_issuer s) e
     | None \<Rightarrow> inactive_document)"

lemma introspect_served:
  assumes "ic_Endpoint cfg = as_issuer s @ ''/introspect''" "length (introspection_form tok) \<le> 10485760"
  shows "hc_Do (as_client codec sign now s) (introspection_call cfg tok)
    = Inr \<lparr>cp_StatusCode = 200, cp_Body = json_print codec (introspection_answer now s tok) @ [char_of (10::nat)]\<rparr>"
proof -
  let ?r = "delivered s (introspection_call cfg tok)"
  have "ServeMux_Handler as_routes ?r [] = Route IntrospectEndpoint"
    by (rule as_mux) (simp_all add: delivered_def introspection_call_def assms(1) Let_def)
  moreover have "form_content ?r"
    by (rule form_media_type) (simp add: delivered_def introspection_call_def Let_def Header_Get_def header_key_simps)
  then have "FormValue ?r ''token'' = tok"
    using assms(2) by (simp add: FormValue_def ParseForm_def ParseQuery_form_encode delivered_def introspection_call_def Let_def)
  moreover have "rq_Method ?r = ''POST''" by (simp add: delivered_def introspection_call_def Let_def)
  ultimately have "fst (localas_ServeHTTP codec sign now ?r [] new_response s)
      = localas_writeJSON codec (introspection_answer now s tok) new_response"
    by (simp add: localas_ServeHTTP_def handleIntrospect_def introspection_answer_def split: option.splits)
  moreover have "HasPrefix (cq_URL (introspection_call cfg tok)) (as_issuer s)"
    by (simp add: introspection_call_def assms(1) HasPrefix_iff)
  ultimately show ?thesis by (simp add: as_client_def localas_written)
qed

lemma into_active_document:
  assumes "int64 (unix_seconds (te_expiresAt e))"
  shows "into_struct introspection_member (active_document issuer e) empty_introspection =
    Inr (empty_introspection\<lparr>ir_ACR := te_acr e, ir_Active := True, ir_Exp := unix_seconds (te_expiresAt e), ir_Iss := issuer,
      ir_Scope := joinScopes (te_scopes e), ir_Sub := te_subject e\<rparr>)"
  using assms by (simp add: active_document_def introspection_member_def fold_simps)

lemma into_inactive_document:
  "into_struct introspection_member inactive_document empty_introspection = Inr (empty_introspection\<lparr>ir_Active := False\<rparr>)"
  by (simp add: inactive_document_def introspection_member_def fold_simps)

lemma Introspect_answer:
  assumes "ic_Endpoint cfg = as_issuer s @ ''/introspect''" "length (introspection_form tok) \<le> 10485760"
    and "reads_back codec (introspection_answer now s tok)"
  shows "Introspect codec (as_client codec sign now s) cfg tok =
    (case into_struct introspection_member (introspection_answer now s tok) empty_introspection of
       Inl e \<Rightarrow> Inl (Wrapf ''decoding introspection response: '' e) | Inr intro \<Rightarrow> Inr (introToCommonClaims intro))"
proof -
  have "hc_NewRequest (as_client codec sign now s) u = None" for u by (simp add: as_client_def)
  then show ?thesis using introspect_served [OF assms(1,2), of codec sign now] assms(3)
    by (simp add: Introspect_def introspection_call_def reads_back_def)
qed

text \<open>The claims an adapter gets for a live entry.\<close>

definition entry_claims :: "string \<Rightarrow> tokenEntry \<Rightarrow> CommonClaims" where
  "entry_claims issuer e = introToCommonClaims (empty_introspection\<lparr>ir_ACR := te_acr e, ir_Active := True,
     ir_Exp := unix_seconds (te_expiresAt e), ir_Iss := issuer, ir_Scope := joinScopes (te_scopes e), ir_Sub := te_subject e\<rparr>)"

lemma entry_claims_sel:
  "cc_Active (entry_claims issuer e)" "cc_Subject (entry_claims issuer e) = te_subject e" "cc_ACR (entry_claims issuer e) = te_acr e"
  "cc_Issuer (entry_claims issuer e) = issuer" "cc_Scopes (entry_claims issuer e) = Fields (Join (te_scopes e) '' '')"
  "cc_AMR (entry_claims issuer e) = []" "IsZero (cc_AuthTime (entry_claims issuer e))"
proof -
  have "Fields [] = []" by code_simp
  then show "cc_Scopes (entry_claims issuer e) = Fields (Join (te_scopes e) '' '')"
    by (simp add: entry_claims_def introToCommonClaims_def joinScopes_def join_scopes_Join)
qed (simp_all add: entry_claims_def introToCommonClaims_def IsZero_def empty_introspection_def)

definition live :: "time \<Rightarrow> LocalAS \<Rightarrow> string \<Rightarrow> tokenEntry \<Rightarrow> bool" where
  "live now s tok e = (map_of (as_tokens s) tok = Some e \<and> \<not> te_revoked e \<and> now \<le> te_expiresAt e)"

lemma Introspect_live:
  assumes "ic_Endpoint cfg = as_issuer s @ ''/introspect''" "length (introspection_form tok) \<le> 10485760"
    and "live now s tok e" "reads_back codec (active_document (as_issuer s) e)" "int64 (unix_seconds (te_expiresAt e))"
  shows "Introspect codec (as_client codec sign now s) cfg tok = Inr (entry_claims (as_issuer s) e)"
proof -
  have "introspection_answer now s tok = active_document (as_issuer s) e" using assms(3) by (simp add: introspection_answer_def live_def)
  then show ?thesis using Introspect_answer [OF assms(1,2)] assms(4) into_active_document [OF assms(5)] by (simp add: entry_claims_def)
qed

lemma Introspect_not_live:
  assumes "ic_Endpoint cfg = as_issuer s @ ''/introspect''" "length (introspection_form tok) \<le> 10485760"
    and "\<And>e. \<not> live now s tok e" "reads_back codec inactive_document"
  shows "\<exists>c :: CommonClaims. Introspect codec (as_client codec sign now s) cfg tok = Inr c \<and> \<not> cc_Active c"
proof -
  have "introspection_answer now s tok = inactive_document"
    using assms(3) by (cases "map_of (as_tokens s) tok") (auto simp: introspection_answer_def live_def not_le)
  then show ?thesis using Introspect_answer [OF assms(1,2)] assms(4) into_inactive_document by (simp add: introToCommonClaims_def)
qed

text \<open>C10: The whole life of a token of the local authorization server as a provider adapter sees it.  An adapter
  that read the server's discovery document and introspects a token issued at time \<open>t\<close>, after any number of
  further calls and requests none of which issues the same token again, gets it as active exactly when its
  lifetime has not run out and none of these requests revoked it; an active answer carries the subject, the
  ACR and the scopes the token was issued with and the issuer the adapter discovered.
\<close>

theorem localas_lifecycle:
  assumes issue: "IssueToken sign t s opts = (Inr tok, s1)"
    and later: "Some tok \<notin> issues sign s1 ` set evs"
    and conf: "gcf_DiscoveryURL (ga_cfg a) = as_issuer s @ ''/.well-known/openid-configuration''"
    and docs: "reads_back codec (discovery_document (as_issuer s))" "reads_back codec inactive_document"
      "reads_back codec (active_document (as_issuer s) (new_entry tok t opts))"
    and size: "int64 (unix_seconds (t + to_ExpiresIn opts))" "length (introspection_form tok) \<le> 10485760"
  shows "\<exists>(a' :: GenericAdapter) (c :: CommonClaims). generic_RefreshConfig codec (as_client codec sign t s1) a = (None, a')
    \<and> generic_Introspect codec (as_client codec sign now (as_run codec sign evs s1)) a' tok = Inr c
    \<and> (cc_Active c \<longleftrightarrow> now \<le> t + to_ExpiresIn opts \<and> Some tok \<notin> revokes ` set evs)
    \<and> (cc_Active c \<longrightarrow> cc_Subject c = to_Subject opts \<and> cc_ACR c = to_ACR opts \<and> cc_Issuer c = generic_Issuer a'
        \<and> cc_Scopes c = Fields (Join (to_Scopes opts) '' ''))"
proof -
  let ?s = "as_run codec sign evs s1" and ?e = "new_entry tok t opts"
  have s1: "as_issuer s1 = as_issuer s" using IssueToken_keeps(2) [of sign t s opts] issue by simp
  obtain a' :: GenericAdapter where a': "generic_RefreshConfig codec (as_client codec sign t s1) a = (None, a')"
    "generic_Issuer a' = as_issuer s" "ga_introspector a' = Some \<lparr>ic_Endpoint = as_issuer s @ ''/introspect'',
       ic_ClientID = gcf_ClientID (ga_cfg a), ic_ClientSecret = gcf_ClientSecret (ga_cfg a)\<rparr>"
    using refresh_from_localas [of a s1 codec sign t] conf docs(1) s1 by auto
  obtain b where b: "map_of (as_tokens ?s) tok = Some (?e\<lparr>te_revoked := b\<rparr>)" "b \<longleftrightarrow> Some tok \<in> revokes ` set evs"
    using as_run_lookup [OF IssueToken_entry [OF issue] later, of codec] by (auto simp: new_entry_def)
  have live_iff: "live now ?s tok e \<longleftrightarrow> e = ?e \<and> \<not> b \<and> now \<le> t + to_ExpiresIn opts" for e
    using b(1) by (auto simp: live_def new_entry_def)
  have got: "generic_Introspect codec client a' tok = Introspect codec client \<lparr>ic_Endpoint = as_issuer ?s @ ''/introspect'',
      ic_ClientID = gcf_ClientID (ga_cfg a), ic_ClientSecret = gcf_ClientSecret (ga_cfg a)\<rparr> tok" for client
    using a'(3) s1 by (simp add: generic_Introspect_def)
  show ?thesis
  proof (cases "\<not> b \<and> now \<le> t + to_ExpiresIn opts")
    case True
    then have "live now ?s tok ?e" by (simp add: live_iff)
    from Introspect_live [OF _ size(2) this] got docs(3) size(1) s1
    have "generic_Introspect codec (as_client codec sign now ?s) a' tok = Inr (entry_claims (as_issuer s) ?e)"
      by (simp add: new_entry_def)
    then show ?thesis using a'(1,2) True b(2)
      by (intro exI [of _ a'] exI [of _ "entry_claims (as_issuer s) ?e"]) (simp add: entry_claims_sel new_entry_def)
  next
    case False
    then have "\<not> live now ?s tok e" for e by (simp add: live_iff)
    from Introspect_not_live [OF _ size(2) this docs(2), of "\<lparr>ic_Endpoint = as_issuer ?s @ ''/introspect'',
      ic_ClientID = gcf_ClientID (ga_cfg a), ic_ClientSecret = gcf_ClientSecret (ga_cfg a)\<rparr>" sign]
    obtain c :: CommonClaims where "generic_Introspect codec (as_client codec sign now ?s) a' tok = Inr c" "\<not> cc_Active c"
      by (auto simp: got)
    then show ?thesis using a'(1,2) False b(2) by auto
  qed
qed

definition wit_as :: LocalAS where
  "wit_as = \<lparr>as_factory = wit_factory, as_tokens = [], as_issuer = ''http://h''\<rparr>"

definition wit_options :: TokenOptions where
  "wit_options = \<lparr>to_Subject = ''alice'', to_Issuer = [], to_Audience = [], to_ExpiresIn = 60 * Minute, to_ACR = ''silver'', to_AMR = [],
     to_Scopes = [''openid''], to_Roles = [], to_TenantID = [], to_SessionID = [], to_AuthTime = zero_time, to_Extra = []\<rparr>"

definition wit_as_codec :: json_codec where
  "wit_as_codec =
     (let read = (\<lambda>s. if length s \<le> 4 then Some (active_document ''http://h'' (new_entry ''T'' 0 wit_options))
                   else if take 6 s = ''active'' then Some inactive_document else Some (discovery_document ''http://h'')) in
      \<lparr>json_parse = read, json_decode = read,
       json_print = (\<lambda>j. case j of JObj ((k, _) # _) \<Rightarrow> k | _ \<Rightarrow> []), time_parse = (\<lambda>_. None), time_print = (\<lambda>_. None)\<rparr>)"

definition wit_as_config :: GenericConfig where
  "wit_as_config = \<lparr>gcf_DiscoveryURL = ''http://h/.well-known/openid-configuration'', gcf_ClientID = ''c'', gcf_ClientSecret = ''s''\<rparr>"

lemma wit_as_reads_back:
  "reads_back wit_as_codec (discovery_document ''http://h'')" "reads_back wit_as_codec inactive_document"
  "reads_back wit_as_codec (active_document ''http://h'' (new_entry ''T'' 0 wit_options))"
  by (simp_all add: reads_back_def wit_as_codec_def discovery_document_def inactive_document_def active_document_def Let_def)

theorem localas_lifecycle_witness:
  "\<exists>(a' :: GenericAdapter) (c :: CommonClaims).
     generic_Introspect wit_as_codec (as_client wit_as_codec (\<lambda>_ _ _. Inr ''T'') Minute (snd (IssueToken (\<lambda>_ _ _. Inr ''T'') 0 wit_as wit_options)))
       a' ''T'' = Inr c \<and> cc_Active c \<and> cc_Subject c = ''alice''"
proof -
  let ?sign = "\<lambda>_ _ _. Inr ''T''"
  have issue: "IssueToken ?sign 0 wit_as wit_options = (Inr ''T'', snd (IssueToken ?sign 0 wit_as wit_options))"
    by (rule prod_eqI) (simp_all add: IssueToken_def Generate_def)
  have "introspection_form ''T'' = ''token=T&token_type_hint=access_token''" by code_simp
  then have "length (introspection_form ''T'') \<le> 10485760" by simp
  moreover have "int64 (unix_seconds (0 + to_ExpiresIn wit_options))" by (simp add: wit_options_def unix_seconds_def int64_def)
  moreover have "gcf_DiscoveryURL (ga_cfg (generic_New wit_as_config)) = as_issuer wit_as @ ''/.well-known/openid-configuration''"
    by (simp add: generic_New_def wit_as_config_def wit_as_def)
  moreover have "as_issuer wit_as = ''http://h''" by (simp add: wit_as_def)
  ultimately show ?thesis
    using localas_lifecycle [OF issue, of "[]" "generic_New wit_as_config" wit_as_codec Minute] wit_as_reads_back
    by (auto simp: as_run_def wit_options_def)
qed

text \<open>A token issued without a lifetime: its claim \<^verbatim>\<open>exp\<close> lies one hour ahead, since the factory fills in the
  default, but the server's own entry expires at the moment of issue.\<close>

lemma default_lifetime_differs:
  assumes "IssueToken sign t s opts = (Inr tok, s1)" "to_ExpiresIn opts = 0" "to_Extra opts = []" "t < now"
  shows "introspection_answer now s1 tok = inactive_document"
    and "map_of (token_claims t (with_defaults t opts)) ''exp'' = Some (GInt64 (unix_seconds (t + 60 * Minute)))"
proof -
  show "introspection_answer now s1 tok = inactive_document"
    using assms(2,4) IssueToken_entry [OF assms(1)] by (simp add: introspection_answer_def new_entry_def)
  have "to_Extra (with_defaults t opts) = []" "to_ExpiresIn (with_defaults t opts) = 60 * Minute"
    using assms(2,3) by (simp_all add: with_defaults_def Let_def)
  then show "map_of (token_claims t (with_defaults t opts)) ''exp'' = Some (GInt64 (unix_seconds (t + 60 * Minute)))"
    by (simp add: token_claims_def Let_def)
qed

text \<open>A revoked token comes back when it is issued again with the same options at the same time, since its text
  is the same.\<close>

lemma reissue_reactivates:
  assumes "IssueToken sign t s opts = (Inr tok, s1)" "revokes ev = Some tok" "0 \<le> to_ExpiresIn opts"
  shows "introspection_answer t (as_step codec sign ev s1) tok = inactive_document
    \<and> introspection_answer t (snd (IssueToken sign t (as_step codec sign ev s1) opts)) tok
      = active_document (as_issuer s) (new_entry tok t opts)"
proof -
  let ?s = "as_step codec sign ev s1"
  have keeps: "as_factory ?s = as_factory s" "as_issuer ?s = as_issuer s"
    using IssueToken_keeps [of sign t s opts] assms(1) by simp_all
  have "issues sign s1 ev \<noteq> Some tok"
    using assms(2) by (cases "(sign, s1, ev)" rule: issues.cases) (auto split: if_splits)
  then have "map_of (as_tokens ?s) tok = Some ((new_entry tok t opts)\<lparr>te_revoked := True\<rparr>)"
    using as_step_lookup [of sign s1 ev tok codec] IssueToken_entry [OF assms(1)] assms(2) by simp
  moreover have "fst (IssueToken sign t ?s opts) = Inr tok"
    using IssueToken_fst_cong [OF keeps] assms(1) by simp
  then have "map_of (as_tokens (snd (IssueToken sign t ?s opts))) tok = Some (new_entry tok t opts)"
    using IssueToken_entry [of sign t ?s opts tok] by (cases "IssueToken sign t ?s opts") simp
  ultimately show ?thesis using keeps assms(3) by (simp add: introspection_answer_def new_entry_def)
qed

end
