(* ===== verification/Spec2Isabelle.thy ===== *)
theory Spec2Isabelle
  imports Metrics Tracing Introspection_Race Pkce Middleware Jwt_Validator Token_Exchange Server Redis_Cache Local_AS
begin

text \<open>
  A verification library for \<^emph>\<open>common-iam\<close>, a Go library and gateway that implements the OAuth
  2.0 step-up authentication challenge protocol (RFC 9470) for resource servers.

  \<^bold>\<open>The program.\<close>  The guard (\<^verbatim>\<open>internal/gateway/guard.go\<close>) stands in front of an upstream
  service.  For every request it limits the rate per client, resolves the tenant, looks up
  the tenant's provider, extracts the bearer token, checks the DPoP proof, introspects the
  token through a cache, binds the token to the tenant's issuer and to the proof's key,
  checks the FAPI profile, evaluates the policy, and either forwards the request with
  identity headers of its own, or answers with a challenge that tells the client which
  authentication it needs.  A denied request is saved in a signed cookie; when the client
  comes back with a better token, the saved request is checked against the policy again and
  forwarded.  A revocation webhook evicts tokens from the shared cache.  Around the guard, a router
  serves health, metrics, the webhook and an admin API that reloads the policies, and a reverse proxy is
  the upstream.  Provider adapters find the endpoints of an authorization server by OIDC discovery and
  introspect tokens there; a JWT validator checks tokens locally with a cached key set; a client exchanges
  tokens (RFC 8693).  Applications that do not sit behind the guard use the middleware for net/http, Gin,
  Echo or gRPC.  For tests there are a token factory, a local authorization server and a policy simulator.

  \<^bold>\<open>Theories.\<close>  The language and library layer:
  \<^item> \<^verbatim>\<open>Prelude\<close>: errors as the left of a sum, the functions of package strings on byte strings;
  \<^item> \<^verbatim>\<open>Go_Text\<close>: UTF-8 decoding, white space, case mapping and folding, decimal and quoted text;
  \<^item> \<^verbatim>\<open>Go_Path\<close>: \<^verbatim>\<open>path.Match\<close> with its chunks and classes, against a reference glob;
  \<^item> \<^verbatim>\<open>Go_Time\<close>: times and 64-bit durations with saturation and wrap-around;
  \<^item> \<^verbatim>\<open>Go_Encoding\<close>: base64url and hexadecimal with their round trips;
  \<^item> \<^verbatim>\<open>Json\<close>: JSON values, decoding into struct fields, and the text level as a parameter;
  \<^item> \<^verbatim>\<open>Http\<close>: headers with canonical keys, requests, the response writer, cookies, host and port;
  \<^item> \<^verbatim>\<open>Forms\<close>: percent decoding and query strings, with the round trip of an encoded form;
  \<^item> \<^verbatim>\<open>Go_Mux\<close>: escaped and cleaned paths, \<^verbatim>\<open>ServeMux\<close> and \<^verbatim>\<open>StripPrefix\<close>.

  The components, each with its data, operations, lemmas and properties:
  \<^item> \<^verbatim>\<open>Rar\<close> (\<^verbatim>\<open>pkg/core/rar\<close>): authorization details and their filters;
  \<^item> \<^verbatim>\<open>Policy\<close> (\<^verbatim>\<open>pkg/core/policy\<close>): matching, evaluation and loading; the engine refines \<open>permits\<close>, the
    declarative reading of its code, and departs from \<open>documented_permits\<close>, the reading of the
    documentation, in exactly two cases, in both of which it denies;
  \<^item> \<^verbatim>\<open>Challenge\<close> and \<^verbatim>\<open>Step_Up\<close> (\<^verbatim>\<open>pkg/core/stepup\<close>): the challenge and its header, saved requests,
    the flow states as a labelled step relation, the signed state cookie;
  \<^item> \<^verbatim>\<open>Claims\<close> (\<^verbatim>\<open>pkg/core/token/claims.go\<close>, \<^verbatim>\<open>introspect.go\<close>): claims and introspection;
  \<^item> \<^verbatim>\<open>Cache\<close> (\<^verbatim>\<open>cache.go\<close>): the cache interface with the locale \<open>token_cache\<close> as its contract, and
    the in-memory cache as its interpretation \<open>mc\<close>;
  \<^item> \<^verbatim>\<open>Revocation\<close> (\<^verbatim>\<open>revocation.go\<close> and the caching introspector of \<^verbatim>\<open>cache.go\<close>): the webhook, the
    secondary index, and the reachable caches as an inductive relation;
  \<^item> \<^verbatim>\<open>Dpop\<close> (\<^verbatim>\<open>dpop.go\<close>): proofs, keys, signatures, replay detection, nonces, thumbprints;
  \<^item> \<^verbatim>\<open>Pkce\<close> (\<^verbatim>\<open>pkg/core/pkce\<close>), \<^verbatim>\<open>Fapi\<close> (\<^verbatim>\<open>pkg/core/fapi\<close>), \<^verbatim>\<open>Tenant\<close> (\<^verbatim>\<open>pkg/tenant\<close>, with the
    locale \<open>tenant_registry\<close> and its interpretation \<open>reg\<close>), \<^verbatim>\<open>Rate_Limit\<close>
    (\<^verbatim>\<open>internal/gateway/ratelimit.go\<close>) and \<^verbatim>\<open>Audit_Log\<close> (\<^verbatim>\<open>pkg/telemetry/audit.go\<close>);
  \<^item> \<^verbatim>\<open>Guard\<close> (\<^verbatim>\<open>internal/gateway/guard.go\<close>): the handler, step by step in the order of the source;
  \<^item> \<^verbatim>\<open>Middleware\<close> (\<^verbatim>\<open>pkg/middleware\<close>): the four adapters, those for Gin and Echo as the calls they make on
    the framework's context, and the locale \<open>claims_middleware\<close> with one interpretation for each of them;
  \<^item> \<^verbatim>\<open>Providers\<close> (\<^verbatim>\<open>pkg/providers\<close>): the claims mapper and the generic, Keycloak and Auth0 adapters, with
    the locale \<open>oidc_provider\<close> interpreted by all three;
  \<^item> \<^verbatim>\<open>Jwt_Validator\<close> (\<^verbatim>\<open>jwtvalidator.go\<close>): the key cache and validation, with histories of validations and
    refreshes as an inductive relation;
  \<^item> \<^verbatim>\<open>Token_Exchange\<close> (\<^verbatim>\<open>pkg/core/tokenexchange\<close>) and \<^verbatim>\<open>Redis_Cache\<close> (the Redis cache of \<^verbatim>\<open>cache.go\<close> with
    the JSON form of claims, and \<^verbatim>\<open>goredis/adapter.go\<close>);
  \<^item> \<^verbatim>\<open>Server\<close> (\<^verbatim>\<open>internal/server\<close>, \<^verbatim>\<open>internal/admin\<close>, \<^verbatim>\<open>internal/gateway/proxy.go\<close>): the router around
    the guard, the admin API, and the engine as the state they share when the caller gives both the same one;
  \<^item> \<^verbatim>\<open>Devkit\<close> and \<^verbatim>\<open>Local_AS\<close> (\<^verbatim>\<open>pkg/devkit\<close>): the token factory with its base64 encoder on 8-bit words,
    the policy simulator, and the local authorization server with a network that connects it to the
    generic adapter;
  \<^item> \<^verbatim>\<open>Audit_Sinks\<close> (\<^verbatim>\<open>logger.go\<close> and the sinks of \<^verbatim>\<open>audit.go\<close>): loggers in a context, the logging sink and the
    file sink, with the locale \<open>audit_sink\<close> interpreted by both and by the abstract sink of \<^verbatim>\<open>Audit_Log\<close>;
  \<^item> \<^verbatim>\<open>Metrics\<close> (\<^verbatim>\<open>metrics.go\<close>): the registered metrics and what the guard counts;
  \<^item> \<^verbatim>\<open>Example\<close>: an example deployment, on which the witnesses evaluate;
  \<^item> \<^verbatim>\<open>Guard_History\<close>: whole requests, webhook calls and clean-up ticks in any order, as lists of events, with
    the answers that providers gave when the guard asked them;
  \<^item> \<^verbatim>\<open>Races\<close>: policy evaluation, replay detection and the subject index cut at their accesses to shared
    state, with the locale \<open>handlers\<close> for steps of several handlers along a schedule;
  \<^item> \<^verbatim>\<open>Introspection_Race\<close>: introspections of the guard beside revocations at the authorization server and
    webhook calls, step by step, with rely and guarantee for a schedule;
  \<^item> \<^verbatim>\<open>Tracing\<close> (\<^verbatim>\<open>tracing.go\<close>): the calls on the tracing library and the span of a guarded request;
  \<^item> this theory: the properties that span components.

  \<^bold>\<open>Correspondence.\<close>  A Go string is a list of bytes.  A Go struct is a record whose fields carry a
  short prefix and the source's name; a method that mutates its receiver returns the new
  state.  An \<^verbatim>\<open>error\<close> result is the left of a sum, or an option where only the error is
  returned.  Maps that are iterated over are association lists, others are partial
  functions.  A handler call reads the clock once: the reading is an argument, and so are
  random bytes and the trace id.  Handlers share their state through a mutex or a cache, and
  most theories run them one after the other; sequences of calls, clean-up ticks and events in
  any order are explicit lists or inductive relations.  Where an operation is not protected by one
  lock, \<^verbatim>\<open>Races\<close> cuts it into its accesses to shared state, shows that the pieces in a row are the
  operation of its own theory, and runs several handlers along an arbitrary schedule.  A slice index that is out of range is
  the outcome \<open>Panics\<close>.

  \<^bold>\<open>Parameters.\<close>  What the code does not implement itself is an argument: hashes, HMAC, curve
  arithmetic and signature checks (\<open>crypto\<close>), the text level of JSON and of time stamps
  (\<open>json_codec\<close>), the YAML reader, the HTTP client, the URL parser, the text of a request URL, the JWT
  library (\<open>jwt_library\<close>, with what it promises as \<open>jwt_contract\<close>), the Redis client (\<open>go_redis\<close>, with
  \<open>redis_contract\<close>), the signature of a generated token, and the rounding of floating point numbers.  What a theorem needs of them is a hypothesis of that
  theorem, for example that a saved request survives JSON (\<open>codec_keeps\<close>), and each such
  theorem has a witness.  Any other cache than the two modelled ones is covered as far as it
  meets \<open>token_cache\<close>.

  \<^bold>\<open>What the lemmas show.\<close>  The guard forwards only what is authorized, by the policy also for a
  replayed request; a denial tells the client what to do and the step-up then resumes the
  request; upstream sees exactly the verified identity; every other answer is a challenge or
  a rate limit; every forwarded request is audited.  After every sequential history, the claims behind a
  forwarded request are at most thirty seconds old, and a revocation is final.  Policies: the engine is
  never more permissive than the documentation, and where it is stricter; monotonicity in assurance, segment
  boundaries of patterns.  Cookies, challenges and encodings: round trips and authenticity.  Caches:
  served claims are live, revocation is effective, clean-up is invisible.  DPoP: soundness of
  an accepted proof, single use, nonce life time.  The rate limiter: a bound on the requests
  in every window, for every machine arithmetic of known accuracy.  Adapters: the HTTP middleware agree with each other and with a plain guard, an RPC
  runs only when authorized, a provider keeps the last good discovery document.  Keys: a locally
  validated token is signed by a key published recently, and rotation needs no restart; the factory's key
  survives its publication.  Administration: the policies change only by an authorized reload, which
  takes effect at once.  Redis decides like memory.  End to end: what the guard forwards for a tenant of
  the local authorization server was issued by it and is neither revoked nor expired.  Telemetry: the
  lines of the audit file are exactly the events whose delivery succeeded, every granted access ends up
  there, and the counters of the guard fit their registration and miss exactly the challenges of an
  incomplete step-up; a trace names verified identities only.  Rate limit: a client that rests is
  admitted again, whatever the rounding.  Concurrency: evaluations end with a decision under every schedule of
  reloads that keep the number of policies, reloads that only append policies are harmless, and an accepted answer of the provider is at most thirty seconds
  older than the handler that fetched it.  Some properties pin down behaviour that is probably unintended: the
  replay gap of DPoP proofs dated in the future, the subject index that expires too early,
  session revocation and FAPI validation that cannot work on introspected tokens, the tail
  of a double star, commas in challenges, an audit file that one failed write silences, a proof that two
  concurrent requests both use, a revocation that an overlapping introspection undoes, a decision that
  neither the old nor the new policies give, a step-up challenge that is not counted, an audit line that
  names the landing page of a replayed request.

  \<^bold>\<open>Loops and bounds.\<close>  Every loop of the modelled code is structural recursion on a list, or a
  recursion with a termination proof (\<^verbatim>\<open>path.Match\<close>); there is no fuel.  Integers are kept at 64
  bits where the code can overflow: the conversion of \<^verbatim>\<open>max_age\<close> to nanoseconds wraps, the
  difference of two times saturates.  The Unix time of a nonce window is taken as unbounded,
  which is exact until the year 2262.

  \<^bold>\<open>Not modelled.\<close>  What \<^verbatim>\<open>net/http\<close> does inside a listener (its start and its shutdown are outcomes), the
  log lines that handlers write beside their answers, timeouts other than as errors of a client, and what
  third-party code does: the forwarding of the reverse proxy, the registry of metrics and its page, the
  spans behind the calls on the tracing library, the frameworks beyond the calls the adapters make.  Of the
  content type of a form only the media type is read.  Of JSON decoding, the treatment of a \<^verbatim>\<open>null\<close> element
  inside a list that is decoded twice is simplified.  Of concurrent handlers, the cache operations, the
  registry and the rate limiter, which hold a lock for the whole call, are single steps; so are the fetch
  of a key set and, in \<^verbatim>\<open>Introspection_Race\<close>, the store of an entry with its index and a call of the
  webhook.
\<close>

section \<open>Properties of the guard\<close>

text \<open>C1: nothing is forwarded that is not authorized.  When the guard hands a request to the
  upstream handler, the tenant was resolved and is registered, a bearer token was presented,
  its claims came from the tenant's provider or from the entry the cache held for this very
  token, the token is active and issued by the tenant's issuer, with DPoP enabled a valid
  proof was presented whose key is the one the token is bound to, a FAPI profile that is
  configured holds, and with a policy engine the loaded configuration permits both the
  request that was received and the one that is forwarded, which may be a saved request of
  an earlier step-up.\<close>

theorem forwarded_authorized:
  assumes "Guard_ServeHTTP en memory_ops g ca r w st = (Forwarded r' t w', st')"
  shows "\<exists>provider token claims.
      Resolve (g_resolver g) r = Resolved t \<and> Registry_Get (g_registry g) t = Inr provider
    \<and> ExtractBearerToken (Header_Get (rq_Header r) ''Authorization'') = Inr token
    \<and> (pv_Introspect provider token = Inr claims
       \<or> g_cache g \<and> MemoryCache_Get (ca_now ca) (gs_cache st) (HashToken (cr_Sum (en_crypto en) SHA256) token) = Some claims)
    \<and> cc_Active claims \<and> (pv_Issuer provider \<noteq> [] \<longrightarrow> cc_Issuer claims = pv_Issuer provider)
    \<and> (g_enableDPoP g \<longrightarrow> (\<exists>proof.
         ValidateDPoP (en_codec en) (en_crypto en) (en_urlString en) (ca_now ca) r token (g_dpopCfg g) = Inr proof
       \<and> VerifyDPoPBinding (en_codec en) (en_crypto en) proof claims = None))
    \<and> (\<forall>cfg. g_fapiCfg g = Some cfg \<longrightarrow> ValidateRequest (common_view (ca_now ca) claims) cfg = None)
    \<and> (\<forall>eng. g_policyEngine g = Some eng \<longrightarrow> (\<exists>c. eng_config eng = Some c
         \<and> permits c (policy_request (ca_now ca) (rq_Method r) (rq_Path r) claims)
         \<and> permits c (policy_request (ca_now ca) (rq_Method r') (rq_Path r') claims)))
    \<and> rq_Header r' = identity_headers claims t (rq_Header r)"
proof -
  obtain provider token claims st1 where auth: "authenticates en memory_ops g ca r st t provider token claims st1"
    and pol: "serve_policy en g ca r claims t w st1 = (Forwarded r' t w', st')"
    using Guard_ForwardedD [OF assms] .
  obtain pf where est: "token_established en g ca provider pf claims"
    "g_enableDPoP g \<Longrightarrow> \<exists>p. pf = Some p
       \<and> ValidateDPoP (en_codec en) (en_crypto en) (en_urlString en) (ca_now ca) r token (g_dpopCfg g) = Inr p"
    using authenticates_established [OF auth] by blast
  have "\<exists>c. eng_config eng = Some c \<and> permits c (policy_request (ca_now ca) (rq_Method r) (rq_Path r) claims)
      \<and> permits c (policy_request (ca_now ca) (rq_Method r') (rq_Path r') claims)" if "g_policyEngine g = Some eng" for eng
    using serve_policy_ForwardedD [OF pol] that
    by (auto simp: allowed_by_def elim!: Evaluate_allowedD split: sum.splits)
  with auth mc.authenticates_claims [OF auth] est serve_policy_ForwardedD [OF pol] show ?thesis
    unfolding authenticates_def token_established_def memory_ops_sel by blast
qed

theorem forwarded_authorized_witness:
  "\<exists>r' w' st' claims. Guard_ServeHTTP ex_env memory_ops ex_guard (ex_call (20 * Second)) (ex_second []) new_response ex_state
       = (Forwarded r' ''acme'' w', st')
     \<and> cc_Active claims \<and> cc_Issuer claims = ''https://as''
     \<and> permits ex_config (policy_request (20 * Second) (rq_Method r') (rq_Path r') claims)"
proof -
  obtain r' w' st' where f:
    "Guard_ServeHTTP ex_env memory_ops ex_guard (ex_call (20 * Second)) (ex_second []) new_response ex_state
       = (Forwarded r' ''acme'' w', st')" using ex_forwarded [OF ex_fresh(1)] by blast
  from forwarded_authorized [OF f] show ?thesis
    using f by (fastforce simp: ex_guard_sel ex_provider_def wit_provider_def Engine_New_def)
qed

text \<open>C3: a denied client learns what it needs.  When the token is established but the policy that
  governs the request refuses it, the answer is a 401 whose \<^verbatim>\<open>WWW-Authenticate\<close> header a client
  parses to the error \<^verbatim>\<open>insufficient_user_authentication\<close> with exactly the ACR and the
  \<^verbatim>\<open>max_age\<close> of that policy, in the guard's realm.\<close>

theorem denial_explains:
  assumes "authenticates en c g ca r st t provider token claims st1" "rw_Status w = None"
    and "g_policyEngine g = Some (Engine_New (Some cfg))"
    and "governing (cfg_Policies cfg) (policy_request (ca_now ca) (rq_Method r) (rq_Path r) claims) = Some p"
    and "\<not> meets cfg p (policy_request (ca_now ca) (rq_Method r) (rq_Path r) claims)"
    and "quotable (pol_RequireACR p)" "0 \<le> pol_MaxAge p" "pol_MaxAge p < 2 ^ 63" "quotable (g_realm g)" "g_realm g \<noteq> []"
  shows "\<exists>w' st' ch. Guard_ServeHTTP en c g ca r w st = (Answered w', st') \<and> rw_Status w' = Some 401
    \<and> ParseWWWAuthenticate (Header_Get (rw_Sent w') ''WWW-Authenticate'') = Inr ch
    \<and> ch_Error ch = ErrCodeInsufficientUserAuthentication \<and> ch_Realm ch = g_realm g
    \<and> ch_ACRValues ch = pol_RequireACR p \<and> ch_MaxAge ch = pol_MaxAge p"
proof -
  let ?res = "check cfg p (policy_request (ca_now ca) (rq_Method r) (rq_Path r) claims)"
  have res: "Evaluate (Engine_New (Some cfg)) (policy_request (ca_now ca) (rq_Method r) (rq_Path r) claims) = Inr ?res"
    "\<not> res_Allowed ?res"
    using assms(4,5) check_allowed_meets by (auto simp: Evaluate_def Engine_New_def evaluate_policies_eq)
  obtain st' where ans: "Guard_ServeHTTP en c g ca r w st
      = (Answered (fst (handleDenial en g ca r (cc_Subject claims) t ?res w st1)), st')"
    using serve_policy_denial [OF assms(3) res] authenticates_serve [OF assms(1)] by metis
  have "carriable (denial_challenge g ?res)"
    using assms(6-9)
    by (simp add: carriable_def denial_challenge_def NewStepUpChallenge_def NewInsufficientACRError_def
        ErrCodeInsufficientUserAuthentication_def) (simp add: quotable_def is_ascii_def)
  from parse_header_back [OF this] assms(2,10) ans show ?thesis
    by (simp add: handleDenial_response http_simps denial_challenge_def NewStepUpChallenge_def NewInsufficientACRError_def)
qed

theorem denial_explains_witness:
  "\<exists>w' st' ch. Guard_ServeHTTP ex_env memory_ops ex_guard (ex_call (5 * Second)) ex_first new_response ex_state = (Answered w', st')
    \<and> ParseWWWAuthenticate (Header_Get (rw_Sent w') ''WWW-Authenticate'') = Inr ch
    \<and> ch_ACRValues ch = ''silver'' \<and> ch_MaxAge ch = 300"
proof -
  obtain st1 where auth: "authenticates ex_env memory_ops ex_guard (ex_call (5 * Second)) ex_first ex_state ''acme''
      ex_provider ''low'' low_claims st1" using ex_authenticates(1) [OF ex_fresh(1)] by blast
  let ?req = "policy_request (ca_now (ex_call (5 * Second))) (rq_Method ex_first) (rq_Path ex_first) low_claims"
  have gov: "governing (cfg_Policies ex_config) ?req = Some wit_policy"
    using ex_matches(1) by (simp add: governing_def ex_config_def ex_first_def) (simp add: wit_policy_def)
  have den: "\<not> meets ex_config wit_policy ?req"
    by (simp add: meets_def wit_policy_def policy_request_def low_claims_def ACRSatisfies_iff position_def
        ex_config_def wit_config_def empty_claims_def)
  have w: "quotable (pol_RequireACR wit_policy)" "0 \<le> pol_MaxAge wit_policy" "pol_MaxAge wit_policy < 2 ^ 63"
    "quotable (g_realm ex_guard)" "g_realm ex_guard \<noteq> []" "rw_Status new_response = None"
    by (simp_all add: wit_policy_def ex_guard_sel quotable_def is_ascii_def new_response_def)
  from denial_explains [OF auth w(6) ex_guard_sel(3) gov den w(1-5)] show ?thesis
    by (auto simp: wit_policy_def)
qed

text \<open>C2: a step-up resumes the request it interrupted.  Suppose a request is denied and the guard
  keeps state cookies.  If within ten minutes the user agent returns that cookie with a token
  that the policy accepts both for the page it lands on and for the interrupted request, the
  guard forwards the interrupted method, path and query, with the identity of the new token,
  and clears the cookie.\<close>

theorem step_up_resumes:
  assumes "authenticates en c g ca1 r1 st1 t1 provider1 token1 claims1 st1'" "rw_Status w1 = None"
    and "g_policyEngine g = Some eng"
    and "Evaluate eng (policy_request (ca_now ca1) (rq_Method r1) (rq_Path r1) claims1) = Inr res" "\<not> res_Allowed res"
    and "Guard_ServeHTTP en c g ca1 r1 w1 st1 = (Answered a, st1'')"
    and "g_cookieSecret g \<noteq> []" "sm_Timeout (g_sm g) = 10 * Minute"
    and "codec_keeps (en_codec en) (denial_saved ca1 r1 res)" "int64 (res_RequiredMaxAge res)"
    and "Header_Values (rq_Header r2) ''Cookie'' = [cookie_pair (last (Header_Values (rw_Sent a) ''Set-Cookie''))]"
    and "ca_now ca2 - ca_now ca1 \<le> 10 * Minute" "rq_Path r1 \<noteq> []" "rq_Path r1 \<noteq> rq_Path r2"
    and "authenticates en c g ca2 r2 st2 t2 provider2 token2 claims2 st2'"
    and "allowed_by g (ca_now ca2) (rq_Method r2) (rq_Path r2) claims2"
    and "allowed_by g (ca_now ca2) (rq_Method r1) (rq_Path r1) claims2"
  shows "\<exists>r' st'. Guard_ServeHTTP en c g ca2 r2 w2 st2 = (Forwarded r' t2 (ClearStateCookie w2), st')
    \<and> rq_Method r' = rq_Method r1 \<and> rq_Path r' = rq_Path r1 \<and> rq_RawQuery r' = rq_RawQuery r1
    \<and> rq_Header r' = identity_headers claims2 t2 (rq_Header r2)"
proof -
  let ?saved = "denial_saved ca1 r1 res"
  have a: "a = WriteChallenge (denial_challenge g res)
      (snd (SetStateCookie (en_codec en) (cr_HMAC (en_crypto en)) ?saved (g_cookieSecret g) w1))"
    using serve_policy_denial [OF assms(3-5), of en t1 w1 st1'] authenticates_serve [OF assms(1), of w1] assms(6,7)
    by (auto simp: handleDenial_response)
  have "Header_Values (rq_Header r2) ''Cookie'' = [cookie_pair (last (Header_Values (rw_Header
      (snd (SetStateCookie (en_codec en) (cr_HMAC (en_crypto en)) ?saved (g_cookieSecret g) w1))) ''Set-Cookie''))]"
    using assms(2,11) by (simp add: a http_simps)
  then have read: "ReadStateCookie (en_codec en) (cr_HMAC (en_crypto en)) (ca_now ca2) r2 (g_cookieSecret g) = Inr (Some ?saved)"
    using cookie_comes_back [OF assms(9) _ prod.collapse [symmetric]] assms(10,12) by (simp add: denial_saved_def)
  have s: "sr_Method ?saved = rq_Method r1" "sr_Path ?saved = rq_Path r1" "sr_Query ?saved = rq_RawQuery r1"
    "sr_SavedAt ?saved = ca_now ca1" by (simp_all add: denial_saved_def)
  have "Since (ca_now ca2) (ca_now ca1) \<le> sm_Timeout (g_sm g)"
    using assms(8,12) by (simp add: Since_def time_Sub_le_iff int64_def)
  with serve_policy_replay [OF assms(16) _ assms(7) read, of t2 w2 st2'] assms(13,14,17) s
    authenticates_serve [OF assms(15), of w2]
  show ?thesis by (auto simp: forward_def replayed_request_def)
qed

theorem step_up_resumes_witness:
  "\<exists>a st1 r' w' st2. Guard_ServeHTTP ex_env memory_ops ex_guard (ex_call (5 * Second)) ex_first new_response ex_state = (Answered a, st1)
    \<and> Guard_ServeHTTP ex_env memory_ops ex_guard (ex_call (20 * Second))
        (ex_second (cookie_pair (last (Header_Values (rw_Sent a) ''Set-Cookie'')))) new_response ex_state
      = (Forwarded r' ''acme'' w', st2)
    \<and> rq_Method r' = ''POST'' \<and> rq_Path r' = ''/api/pay''"
proof -
  let ?ca1 = "ex_call (5 * Second)" and ?ca2 = "ex_call (20 * Second)"
  let ?res = "check ex_config wit_policy (policy_request (ca_now ?ca1) (rq_Method ex_first) (rq_Path ex_first) low_claims)"
  obtain s1 where auth1: "authenticates ex_env memory_ops ex_guard ?ca1 ex_first ex_state ''acme'' ex_provider ''low'' low_claims s1"
    using ex_authenticates(1) [OF ex_fresh(1)] by blast
  have ev: "Evaluate (Engine_New (Some ex_config)) (policy_request (ca_now ?ca1) (rq_Method ex_first) (rq_Path ex_first) low_claims) = Inr ?res"
    "\<not> res_Allowed ?res" using ex_Evaluate(1) ex_decisions(1) by (simp_all add: ex_first_def)
  obtain a st1 where ans: "Guard_ServeHTTP ex_env memory_ops ex_guard ?ca1 ex_first new_response ex_state = (Answered a, st1)"
    using serve_policy_denial [OF ex_guard_sel(3) ev] authenticates_serve [OF auth1] by metis
  let ?r2 = "ex_second (cookie_pair (last (Header_Values (rw_Sent a) ''Set-Cookie'')))"
  obtain s2 where auth2: "authenticates ex_env memory_ops ex_guard ?ca2 ?r2 ex_state ''acme'' ex_provider ''high'' high_claims s2"
    using ex_authenticates(2) [OF ex_fresh(1)] by blast
  have "denial_saved ?ca1 ex_first ?res = ex_saved"
    by (simp add: denial_saved_def ex_saved_def ex_first_def newStateID_def wit_policy_def) (simp add: ex_call_def)
  then have keeps: "codec_keeps (en_codec ex_env) (denial_saved ?ca1 ex_first ?res)"
    by (simp add: codec_keeps_def ex_env_def) (simp add: ex_saved_def)
  have cookie: "Header_Values (rq_Header ?r2) ''Cookie'' = [cookie_pair (last (Header_Values (rw_Sent a) ''Set-Cookie''))]"
    by (simp add: ex_second_def Header_Values_def header_key_simps)
  have allowed: "allowed_by ex_guard (ca_now ?ca2) (rq_Method ?r2) (rq_Path ?r2) high_claims"
    "allowed_by ex_guard (ca_now ?ca2) (rq_Method ex_first) (rq_Path ex_first) high_claims"
    using ex_Evaluate ex_decisions by (simp_all add: allowed_by_def ex_guard_sel ex_first_def ex_second_def)
  have other: "rw_Status new_response = None" "g_cookieSecret ex_guard \<noteq> []" "sm_Timeout (g_sm ex_guard) = 10 * Minute"
    "int64 (res_RequiredMaxAge ?res)" "ca_now ?ca2 - ca_now ?ca1 \<le> 10 * Minute" "rq_Path ex_first \<noteq> []"
    "rq_Path ex_first \<noteq> rq_Path ?r2"
    by (simp_all add: new_response_def ex_guard_sel NewStateMachine_def ex_first_def ex_second_def wit_policy_def int64_def)
  from step_up_resumes [OF auth1 other(1) ex_guard_sel(3) ev ans other(2,3) keeps other(4) cookie other(5-7) auth2 allowed, of new_response]
  obtain r' st2 where
    "Guard_ServeHTTP ex_env memory_ops ex_guard ?ca2 ?r2 new_response ex_state = (Forwarded r' ''acme'' (ClearStateCookie new_response), st2)"
    "rq_Method r' = ''POST''" "rq_Path r' = ''/api/pay''" by (auto simp: ex_first_def)
  with ans show ?thesis by blast
qed

text \<open>C4: upstream can trust the identity headers.  For a request whose header keys are canonical,
  as the server delivers them, the forwarded \<^verbatim>\<open>X-Iam-*\<close> headers are exactly the subject, the
  tenant and, if present, the ACR and the scopes of the verified token; every other header
  of that family and the tenant header of the client are gone, and all other headers are
  unchanged.\<close>

theorem identity_headers_exact:
  assumes "canonical_keys h"
  shows "Header_Values (identity_headers claims t h) k = (let key = CanonicalHeaderKey k in
      if key = ''X-Iam-Subject'' then [cc_Subject claims]
      else if key = ''X-Iam-Tenant'' then [t]
      else if key = ''X-Iam-Acr'' then (if cc_ACR claims = [] then [] else [cc_ACR claims])
      else if key = ''X-Iam-Scopes'' then (if cc_Scopes claims = [] then [] else [Join (cc_Scopes claims) '' ''])
      else if HasPrefix (ToLower key) ''x-iam-'' \<or> key = ''X-Tenant-Id'' then []
      else Header_Values h k)"
proof -
  have res: "reserved_key ''X-Iam-Acr''" "reserved_key ''X-Iam-Scopes''"
    by (simp_all add: reserved_key_def ToLower_ascii is_ascii_def HasPrefix_def header_key_simps)
  have "Header_Values (identity_headers claims t h) k =
     (if cc_Scopes claims \<noteq> [] \<and> CanonicalHeaderKey k = ''X-Iam-Scopes'' then [Join (cc_Scopes claims) '' '']
      else if cc_ACR claims \<noteq> [] \<and> CanonicalHeaderKey k = ''X-Iam-Acr'' then [cc_ACR claims]
      else if CanonicalHeaderKey k = ''X-Iam-Tenant'' then [t]
      else if CanonicalHeaderKey k = ''X-Iam-Subject'' then [cc_Subject claims]
      else Header_Values (sanitizeForwardHeaders h) k)"
    unfolding identity_headers_def Let_def by (simp add: http_simps iam_keys eq_commute)
  with res show ?thesis
    unfolding sanitize_values [OF assms] iam_keys Let_def reserved_key_def [symmetric] by simp
qed

theorem identity_headers_exact_witness:
  "Header_Values (identity_headers high_claims ''acme'' [(''X-Iam-Subject'', [''root'']), (''X-Iam-Roles'', [''admin''])])
     ''X-Iam-Roles'' = []"
proof -
  have c: "canonical_keys [(''X-Iam-Subject'', [''root'']), (''X-Iam-Roles'', [''admin''])]"
    "CanonicalHeaderKey ''X-Iam-Roles'' = ''X-Iam-Roles''"
    by (simp_all add: canonical_keys_def header_key_simps)
  have "HasPrefix (ToLower ''X-Iam-Roles'') ''x-iam-''"
    by (simp add: ToLower_ascii is_ascii_def HasPrefix_def header_key_simps)
  with identity_headers_exact [OF c(1), of high_claims "''acme''" "''X-Iam-Roles''"] c(2) show ?thesis by simp
qed

text \<open>C34: every answer of the guard itself says why.  A request that is neither forwarded nor
  stopped by a panic of a resolver is answered with 429 and a \<^verbatim>\<open>Retry-After\<close> header, or with 401 and a challenge in the guard's
  realm; no path of the handler leaves the request without an answer, and none answers 500.\<close>

theorem answers_are_challenges:
  assumes "Guard_ServeHTTP en c g ca r w st = (Answered w', st')" "rw_Status w = None"
  shows "rw_Status w' = Some 429 \<and> Header_Get (rw_Sent w') ''Retry-After'' = ''1''
    \<or> rw_Status w' = Some 401
      \<and> (\<exists>ch. ch_Realm ch = g_realm g \<and> Header_Get (rw_Sent w') ''WWW-Authenticate'' = WWWAuthenticateHeader ch)"
proof -
  have tok: "challenge_answer g w'" if "serve_token en c g ca r t p tk pf w st0 = (Answered w', st')" for t p tk pf st0
    using that assms(2)
    by (auto simp: serve_token_def split: prod.splits sum.splits if_splits option.splits
        dest: reject_answer serve_policy_answer)
  have dp: "challenge_answer g w'" if "serve_dpop en c g ca r t p tk w st0 = (Answered w', st')" for t p tk st0
    using that tok assms(2)
    by (auto simp: serve_dpop_def http_simps split: if_splits prod.splits sum.splits option.splits dest: reject_answer)
  have tn: "challenge_answer g w'" if "serve_tenant en c g ca r w st0 = (Answered w', st')" for st0
    using that dp assms(2)
    by (auto simp: serve_tenant_def split: resolved.splits sum.splits dest: reject_answer)
  have "rw_Status (http_Error ''rate limit exceeded'' 429 (set_header ''Retry-After'' ''1'' w)) = Some 429"
    "Header_Get (rw_Sent (http_Error ''rate limit exceeded'' 429 (set_header ''Retry-After'' ''1'' w))) ''Retry-After'' = ''1''"
    using assms(2) by (simp_all add: http_simps http_Error_get header_key_simps)
  with assms(1) tn show ?thesis
    by (auto simp: Guard_ServeHTTP_def challenge_answer_def split: option.splits prod.splits bool.splits)
qed

theorem answers_are_challenges_witness:
  "\<exists>w' st'. Guard_ServeHTTP ex_env memory_ops ex_guard (ex_call 0) (ex_request ''GET'' ''/'' []) new_response ex_state
     = (Answered w', st') \<and> rw_Status w' \<in> {Some 401, Some 429}"
proof -
  have b: "ExtractBearerToken (Header_Get [] ''Authorization'') = Inl ErrMissingToken"
    by (simp add: ExtractBearerToken_def Header_Get_def)
  obtain w' st' where a: "Guard_ServeHTTP ex_env memory_ops ex_guard (ex_call 0) (ex_request ''GET'' ''/'' []) new_response ex_state
     = (Answered w', st')"
    using reject_Answered [of ex_guard "ex_call 0" "ex_request ''GET'' ''/'' []" ErrCodeInvalidToken
        "''missing or invalid bearer token''" new_response ex_state]
    by (auto simp: Guard_ServeHTTP_def serve_tenant_def ex_guard_sel static_resolve_def b)
  from answers_are_challenges [OF a] have "rw_Status w' \<in> {Some 401, Some 429}" by (auto simp: new_response_def)
  with a show ?thesis by blast
qed

text \<open>What the policy step of a forwarded request leaves in the audit log.\<close>

lemma serve_policy_audit:
  assumes "serve_policy en g ca r claims t w st = (Forwarded r' t' w', st')"
  shows "gs_audit st' = (case g_policyEngine g of None \<Rightarrow> gs_audit st
      | Some _ \<Rightarrow> map_option (Emit (ca_now ca) (ca_trace ca)
          (policy_event (ca_now ca) (cc_Subject claims) t (rq_Path r) (rq_Method r) [] [] True)) (gs_audit st))"
  using assms
  by (auto simp: serve_policy_def EmitPolicyDecision_def dest!: serve_cookie_Forwarded_state
      split: option.splits if_splits sum.splits prod.splits)

text \<open>Every forwarded request is audited once.  With a policy engine, the audit logger receives
  exactly one event, an allowed decision with the token's subject, the tenant, and the method
  and path that were received; without an engine it receives none.  The event of a replayed
  step-up therefore names the landing page and not the resource that is forwarded.\<close>

lemma forwarded_audit:
  assumes "Guard_ServeHTTP en c g ca r w st = (Forwarded r' t w', st')" "gs_audit st = Some logger"
  shows "\<exists>provider token claims st1. authenticates en c g ca r st t provider token claims st1
    \<and> gs_audit st' = Some (case g_policyEngine g of None \<Rightarrow> logger
        | Some _ \<Rightarrow> Emit (ca_now ca) (ca_trace ca)
            (policy_event (ca_now ca) (cc_Subject claims) t (rq_Path r) (rq_Method r) [] [] True) logger)"
proof -
  obtain provider token claims st1 where auth: "authenticates en c g ca r st t provider token claims st1"
    and pol: "serve_policy en g ca r claims t w st1 = (Forwarded r' t w', st')"
    using Guard_ForwardedD [OF assms(1)] .
  have "gs_audit st1 = Some logger" using authenticates_audit [OF auth] assms(2) by simp
  with serve_policy_audit [OF pol] auth show ?thesis by (auto split: option.splits)
qed









section \<open>The guard in front of the local authorization server\<close>

text \<open>C9: The whole chain from the guard over the generic provider adapter to the local authorization server.
  The adapter of the tenant was configured from the discovery document of the server, and the guard has no
  cache.  When the guard forwards a request, the server has issued the presented token, has not revoked it
  and its lifetime has not run out; the policy permits the forwarded request for the subject, the ACR and
  the scopes the server registered for the token, and the identity headers are those of that entry.
\<close>

theorem localas_end_to_end:
  assumes adapter: "gcf_DiscoveryURL (ga_cfg a) = as_issuer s0 @ ''/.well-known/openid-configuration''"
      "generic_RefreshConfig codec (as_client codec sign t0 s0) a = (None, a')" "as_issuer s = as_issuer s0"
    and docs: "reads_back codec (discovery_document (as_issuer s0))" "reads_back codec inactive_document"
      "\<And>e. map_of (as_tokens s) tok = Some e \<Longrightarrow> reads_back codec (active_document (as_issuer s) e) \<and> int64 (unix_seconds (te_expiresAt e))"
    and tok: "ExtractBearerToken (Header_Get (rq_Header r) ''Authorization'') = Inr tok" "length (introspection_form tok) \<le> 10485760"
    and guard: "\<not> g_cache g" "Registry_Get (g_registry g) t = Inr (generic_provider codec raw (as_client codec sign (ca_now ca) s) a')"
    and fwd: "Guard_ServeHTTP en memory_ops g ca r w st = (Forwarded r' t w', st')"
  shows "\<exists>e. live (ca_now ca) s tok e \<and> rq_Header r' = identity_headers (entry_claims (as_issuer s) e) t (rq_Header r)
    \<and> (\<forall>eng. g_policyEngine g = Some eng \<longrightarrow> (\<exists>pc. eng_config eng = Some pc
         \<and> permits pc (policy_request (ca_now ca) (rq_Method r') (rq_Path r') (entry_claims (as_issuer s) e))))"
proof -
  let ?client = "as_client codec sign (ca_now ca) s"
  obtain cfg where cfg: "ga_introspector a' = Some cfg" "ic_Endpoint cfg = as_issuer s @ ''/introspect''"
    using refresh_from_localas [OF adapter(1) docs(1), of sign t0] adapter(2,3) by auto
  obtain provider token claims st1 where auth: "authenticates en memory_ops g ca r st t provider token claims st1"
    and pol: "serve_policy en g ca r claims t w st1 = (Forwarded r' t w', st')"
    using Guard_ForwardedD [OF fwd] .
  have "token = tok" "provider = generic_provider codec raw ?client a'" using auth tok guard(2) by (auto simp: authenticates_def)
  with mc.authenticates_claims [OF auth] guard(1) cfg(1) have got: "Introspect codec ?client cfg tok = Inr claims"
    by (simp add: generic_provider_def generic_Introspect_def)
  have "cc_Active claims" using auth by (auto simp: authenticates_def token_passes_def token_established_def)
  then obtain e where e: "live (ca_now ca) s tok e"
    using Introspect_not_live [OF cfg(2) tok(2) _ docs(2), of "ca_now ca" sign] got by (cases "\<exists>e. live (ca_now ca) s tok e") auto
  then have "claims = entry_claims (as_issuer s) e"
    using Introspect_live [OF cfg(2) tok(2) e] docs(3) [of e] got by (simp add: live_def)
  with e serve_policy_ForwardedD [OF pol] allowed_permits show ?thesis by metis
qed

definition ex_as :: LocalAS where
  "ex_as = snd (IssueToken (\<lambda>_ _ _. Inr ''high'') 0 wit_as wit_options)"

definition ex_as_guard :: "GenericAdapter \<Rightarrow> Guard" where
  "ex_as_guard a = ex_guard\<lparr>g_cache := False, g_registry := Register NewRegistry ''acme''
     (generic_provider wit_as_codec (\<lambda>_. None) (as_client wit_as_codec (\<lambda>_ _ _. Inr ''high'') (20 * Second) ex_as) a)\<rparr>"

theorem localas_end_to_end_witness:
  "\<exists>(a :: GenericAdapter) r' w' st' e. Guard_ServeHTTP ex_env memory_ops (ex_as_guard a) (ex_call (20 * Second)) (ex_second []) new_response ex_state
       = (Forwarded r' ''acme'' w', st') \<and> live (20 * Second) ex_as ''high'' e"
proof -
  let ?sign = "\<lambda>_ _ _. Inr ''high''" and ?e = "new_entry ''high'' 0 wit_options"
  have tokens: "as_tokens ex_as = [(''high'', ?e)]" "as_issuer ex_as = ''http://h''" "as_issuer wit_as = ''http://h''"
    by (simp_all add: ex_as_def IssueToken_def Generate_def wit_as_def new_entry_def)
  have docs: "reads_back wit_as_codec (discovery_document ''http://h'')" "reads_back wit_as_codec inactive_document"
    "reads_back wit_as_codec (active_document ''http://h'' ?e)"
    using wit_as_reads_back by (simp_all add: active_document_def new_entry_def)
  have exp: "int64 (unix_seconds (te_expiresAt ?e))" by (simp add: new_entry_def wit_options_def unix_seconds_def int64_def)
  have "introspection_form ''high'' = ''token=high&token_type_hint=access_token''" by code_simp
  then have size: "length (introspection_form ''high'') \<le> 10485760" by simp
  have url: "gcf_DiscoveryURL (ga_cfg (generic_New wit_as_config)) = as_issuer wit_as @ ''/.well-known/openid-configuration''"
    by (simp add: generic_New_def wit_as_config_def tokens)
  obtain a :: GenericAdapter where a:
    "generic_RefreshConfig wit_as_codec (as_client wit_as_codec ?sign 0 wit_as) (generic_New wit_as_config) = (None, a)"
    "generic_Issuer a = ''http://h''" "\<exists>cfg. ga_introspector a = Some cfg \<and> ic_Endpoint cfg = ''http://h/introspect''"
    using refresh_from_localas [OF url, of wit_as_codec ?sign 0] docs(1) tokens by auto
  let ?g = "ex_as_guard a" and ?p = "generic_provider wit_as_codec (\<lambda>_. None) (as_client wit_as_codec ?sign (20 * Second) ex_as) a"
  have g: "Registry_Get (g_registry ?g) ''acme'' = Inr ?p" "\<not> g_cache ?g" "g_resolver ?g = StaticResolver ''acme''" "\<not> g_enableDPoP ?g"
    "g_fapiCfg ?g = None" "g_policyEngine ?g = Some (Engine_New (Some ex_config))" "g_cookieSecret ?g = ''k''"
    using ex_guard_sel by (simp_all add: ex_as_guard_def reg.get_register)
  have live: "live (20 * Second) ex_as ''high'' ?e" by (simp add: live_def tokens new_entry_def wit_options_def)
  have "pv_Introspect ?p ''high'' = Inr (entry_claims ''http://h'' ?e)"
    using a(3) Introspect_live [OF _ size live] docs(3) exp tokens(2) by (auto simp: generic_provider_def generic_Introspect_def)
  then have "authenticates ex_env memory_ops ?g (ex_call (20 * Second)) (ex_second []) ex_state ''acme'' ?p ''high''
      (entry_claims ''http://h'' ?e) ex_state"
    using ex_bearer g a(2)
    by (simp add: authenticates_def ex_second_def static_resolve_def rate_passes_def proof_passes_def token_passes_def
        token_established_def guard_introspect_def ex_guard_sel entry_claims_sel generic_provider_def)
  from authenticates_serve [OF this] obtain r' w' st' where
    f: "Guard_ServeHTTP ex_env memory_ops ?g (ex_call (20 * Second)) (ex_second []) new_response ex_state = (Forwarded r' ''acme'' w', st')"
    using ex_Evaluate(2) ex_decisions(3) g
    by (auto simp: serve_policy_def serve_cookie_def forward_def ex_second_def ReadStateCookie_def
        request_Cookie_def readCookies_def Header_Values_def header_key_simps cookie_part_def TrimString_def CookieName_def)
  have "ExtractBearerToken (Header_Get (rq_Header (ex_second [])) ''Authorization'') = Inr ''high''"
    using ex_bearer(2) by (simp add: ex_second_def)
  from localas_end_to_end [OF url a(1) _ _ docs(2) _ this size g(2) _ f, where s = ex_as] tokens docs exp g(1)
  have "\<exists>e. live (20 * Second) ex_as ''high'' e" by (auto split: if_splits)
  with f show ?thesis by blast
qed

end
